(* ===== verification/Prelude.thy ===== *)
theory Prelude
  imports Main "HOL-Library.Word" "HOL-Library.Monad_Syntax"
begin

unbundle bit_operations_syntax

text \<open>
  What every component shares: the names of the machine integers, the little-endian and
  big-endian byte encodings that both the kernel programs (native C structs on a
  little-endian machine) and the user-space readers (\<open>encoding/binary\<close>) use, slices of
  byte lists, and the collections of rewrite rules the component proofs draw on.
\<close>

named_theorems layout_simps \<open>equations that compute the layout of a C declaration\<close>
named_theorems codec_simps \<open>equations that evaluate encoders and decoders\<close>
named_theorems mem_simps \<open>loads and stores of the block memory\<close>

section \<open>Machine integers\<close>

type_synonym byte = "8 word"
type_synonym u8 = "8 word"
type_synonym u16 = "16 word"
type_synonym u32 = "32 word"
type_synonym u64 = "64 word"
type_synonym bytes = "byte list"

section \<open>Byte encodings of naturals and words\<close>

primrec le_bytes :: "nat \<Rightarrow> nat \<Rightarrow> bytes" where
  "le_bytes 0 x = []"
| "le_bytes (Suc n) x = of_nat x # le_bytes n (x div 256)"

primrec le_val :: "bytes \<Rightarrow> nat" where
  "le_val [] = 0"
| "le_val (b # bs) = unat b + 256 * le_val bs"

definition be_bytes :: "nat \<Rightarrow> nat \<Rightarrow> bytes" where
  "be_bytes n x = rev (le_bytes n x)"

definition be_val :: "bytes \<Rightarrow> nat" where
  "be_val bs = le_val (rev bs)"

lemma length_le_bytes [simp]: "length (le_bytes n x) = n"
  by (induction n arbitrary: x) auto

lemma length_be_bytes [simp]: "length (be_bytes n x) = n"
  by (simp add: be_bytes_def)

lemma unat_byte_of_nat: "unat (of_nat x :: byte) = x mod 256"
  by (simp add: unat_of_nat)

lemma unat_byte_less: "unat (b :: byte) < 256"
  using unsigned_less [of b] by simp

lemma le_val_bound: "le_val bs < 256 ^ length bs"
proof (induction bs)
  case Nil
  show ?case by simp
next
  case (Cons b bs)
  have "unat b < 256"
    by (rule unat_byte_less)
  with Cons show ?case by simp
qed

lemma be_val_bound: "be_val bs < 256 ^ length bs"
  using le_val_bound [of "rev bs"] by (simp add: be_val_def)

lemma mod_mult_split_256: "(x::nat) mod 256 + 256 * (x div 256 mod k) = x mod (256 * k)"
  by (simp add: mod_mult2_eq)

lemma le_val_le_bytes: "le_val (le_bytes n x) = x mod 256 ^ n"
  by (induction n arbitrary: x) (simp_all add: unat_byte_of_nat mod_mult_split_256)

lemma le_bytes_le_val: "le_bytes (length bs) (le_val bs) = bs"
proof (induction bs)
  case Nil
  show ?case by simp
next
  case (Cons b bs)
  have "unat b < 256"
    by (rule unat_byte_less)
  then have "(unat b + 256 * le_val bs) div 256 = le_val bs"
    by simp
  moreover have "of_nat (unat b + 256 * le_val bs) = b"
  proof -
    have "unat (of_nat (unat b + 256 * le_val bs) :: byte) = unat b"
      using unat_byte_less [of b] by (simp only: unat_byte_of_nat) simp
    then show ?thesis by (rule unsigned_word_eqI)
  qed
  ultimately show ?case using Cons by simp
qed

lemma be_val_be_bytes: "be_val (be_bytes n x) = x mod 256 ^ n"
  by (simp add: be_val_def be_bytes_def le_val_le_bytes)

lemma be_bytes_be_val: "be_bytes (length bs) (be_val bs) = bs"
  using le_bytes_le_val [of "rev bs"] by (simp add: be_val_def be_bytes_def)

lemma le_val_inj: "length xs = length ys \<Longrightarrow> le_val xs = le_val ys \<longleftrightarrow> xs = ys"
  by (metis le_bytes_le_val)

lemma be_val_inj: "length xs = length ys \<Longrightarrow> be_val xs = be_val ys \<longleftrightarrow> xs = ys"
  by (metis be_bytes_be_val)

text \<open>
  The word-level encoders: \<open>le_put w\<close> stores \<open>w\<close> in as many bytes as its type has, the way
  a little-endian store does, and \<open>le_get\<close> reads it back. \<open>be_put\<close> and \<open>be_get\<close> are the
  network order of \<open>binary.BigEndian\<close>.
\<close>

definition le_put :: "'a::len word \<Rightarrow> bytes" where
  "le_put w = le_bytes (LENGTH('a) div 8) (unat w)"

definition le_get :: "bytes \<Rightarrow> 'a::len word" where
  "le_get bs = of_nat (le_val bs)"

definition be_put :: "'a::len word \<Rightarrow> bytes" where
  "be_put w = be_bytes (LENGTH('a) div 8) (unat w)"

definition be_get :: "bytes \<Rightarrow> 'a::len word" where
  "be_get bs = of_nat (be_val bs)"

lemma length_le_put [simp]: "length (le_put (w :: 'a::len word)) = LENGTH('a) div 8"
  by (simp add: le_put_def)

lemma length_be_put [simp]: "length (be_put (w :: 'a::len word)) = LENGTH('a) div 8"
  by (simp add: be_put_def)

lemma pow_256_word: "8 dvd LENGTH('a) \<Longrightarrow> (256::nat) ^ (LENGTH('a::len) div 8) = 2 ^ LENGTH('a)"
proof -
  assume "8 dvd LENGTH('a)"
  then have "(2::nat) ^ LENGTH('a) = 2 ^ (8 * (LENGTH('a) div 8))"
    by simp
  also have "\<dots> = (2 ^ 8) ^ (LENGTH('a) div 8)"
    by (rule power_mult)
  finally show ?thesis by simp
qed

lemma le_val_le_put: "8 dvd LENGTH('a) \<Longrightarrow> le_val (le_put (w :: 'a::len word)) = unat w"
  using unsigned_less [of w] by (simp add: le_put_def le_val_le_bytes pow_256_word)

lemma be_val_be_put: "8 dvd LENGTH('a) \<Longrightarrow> be_val (be_put (w :: 'a::len word)) = unat w"
  using unsigned_less [of w] by (simp add: be_put_def be_val_be_bytes pow_256_word)

lemma le_get_put [codec_simps]:
  "8 dvd LENGTH('a) \<Longrightarrow> le_get (le_put w) = (w :: 'a::len word)"
  by (simp add: le_get_def le_put_def le_val_le_bytes pow_256_word)

lemma be_get_put [codec_simps]:
  "8 dvd LENGTH('a) \<Longrightarrow> be_get (be_put w) = (w :: 'a::len word)"
  by (simp add: be_get_def be_put_def be_val_be_bytes pow_256_word)

lemma le_put_get:
  assumes "8 dvd LENGTH('a)" and "length bs = LENGTH('a::len) div 8"
  shows "le_put (le_get bs :: 'a word) = bs"
proof -
  have "le_val bs < 2 ^ LENGTH('a)"
    using le_val_bound [of bs] assms by (simp add: pow_256_word)
  then have "unat (le_get bs :: 'a word) = le_val bs"
    by (simp add: le_get_def unat_of_nat)
  then show ?thesis
    using le_bytes_le_val [of bs] assms by (simp add: le_put_def)
qed

lemma unat_le_get:
  assumes "8 * length bs \<le> LENGTH('a)"
  shows "unat (le_get bs :: 'a::len word) = le_val bs"
proof -
  have "(256::nat) ^ length bs = 2 ^ (8 * length bs)"
    by (simp add: power_mult)
  also have "\<dots> \<le> 2 ^ LENGTH('a)"
    using assms by (simp add: power_increasing)
  finally have "le_val bs < 2 ^ LENGTH('a)"
    using le_val_bound [of bs] by linarith
  then show ?thesis by (simp add: le_get_def unat_of_nat)
qed

lemma be_put_get:
  assumes "8 dvd LENGTH('a)" and "length bs = LENGTH('a::len) div 8"
  shows "be_put (be_get bs :: 'a word) = bs"
proof -
  have "rev (le_put (le_get (rev bs) :: 'a word)) = bs"
    using le_put_get [where 'a = 'a, of "rev bs"] assms by simp
  then show ?thesis
    by (simp add: be_put_def be_get_def be_bytes_def be_val_def le_put_def le_get_def)
qed

lemma le_put_inj: "8 dvd LENGTH('a) \<Longrightarrow> le_put (v :: 'a::len word) = le_put w \<longleftrightarrow> v = w"
  by (metis le_get_put)

lemma be_put_inj: "8 dvd LENGTH('a) \<Longrightarrow> be_put (v :: 'a::len word) = be_put w \<longleftrightarrow> v = w"
  by (metis be_get_put)

lemma and_4095: "unat ((w :: u32) AND 4095) = unat w mod 4096"
proof -
  have "(4095 :: u32) = mask 12"
    by (simp add: mask_eq_exp_minus_1)
  then have "w AND 4095 = take_bit 12 w"
    by (simp add: take_bit_eq_mask)
  then show ?thesis
    by (simp add: take_bit_eq_mod unat_mod_distrib)
qed

lemma array_key_cases:
  assumes "length key = 4" and "le_val key < 2"
  shows "key = le_put (0 :: u32) \<or> key = le_put (1 :: u32)"
proof -
  have "key = le_bytes 4 (le_val key)" using le_bytes_le_val [of key] assms(1) by simp
  moreover have "le_val key = 0 \<or> le_val key = 1" using assms(2) by linarith
  ultimately show ?thesis by (auto simp: le_put_def)
qed

lemma array_key_single:
  "length key = 4 \<Longrightarrow> le_val key < 1 \<Longrightarrow> key = le_put (0 :: u32)"
  using le_val_inj [of key "le_put (0 :: u32)"] by (simp add: le_val_le_put)

section \<open>Slices of byte lists\<close>

definition slice_at :: "nat \<Rightarrow> nat \<Rightarrow> 'a list \<Rightarrow> 'a list" where
  "slice_at off n xs = take n (drop off xs)"

definition splice_at :: "nat \<Rightarrow> 'a list \<Rightarrow> 'a list \<Rightarrow> 'a list" where
  "splice_at off ys xs = take off xs @ ys @ drop (off + length ys) xs"

lemma length_slice_at [simp]: "length (slice_at off n xs) = min n (length xs - off)"
  by (simp add: slice_at_def min.commute)

lemma length_splice_at [simp]:
  "off + length ys \<le> length xs \<Longrightarrow> length (splice_at off ys xs) = length xs"
  by (simp add: splice_at_def)

lemma slice_splice_same:
  "off + length ys \<le> length xs \<Longrightarrow> n = length ys \<Longrightarrow> slice_at off n (splice_at off ys xs) = ys"
  by (simp add: slice_at_def splice_at_def)

lemma slice_splice_before:
  "n + m \<le> off \<Longrightarrow> off + length ys \<le> length xs \<Longrightarrow>
     slice_at n m (splice_at off ys xs) = slice_at n m xs"
  by (simp add: slice_at_def splice_at_def drop_take)

lemma slice_splice_after:
  assumes "off + length ys \<le> n" and "off + length ys \<le> length xs"
  shows "slice_at n m (splice_at off ys xs) = slice_at n m xs"
proof -
  have "drop n (take off xs @ ys @ drop (off + length ys) xs)
      = drop (n - off - length ys) (drop (off + length ys) xs)"
    using assms by simp
  also have "\<dots> = drop n xs"
    using assms by (simp add: add.commute)
  finally show ?thesis by (simp add: slice_at_def splice_at_def)
qed

lemma slice_all: "length xs \<le> n \<Longrightarrow> slice_at 0 n xs = xs"
  by (simp add: slice_at_def)

lemma splice_at_empty [simp]: "splice_at off [] xs = xs"
  by (simp add: splice_at_def)

end
