(* ===== verification/C_Layout.thy ===== *)
theory C_Layout
  imports Prelude
begin

text \<open>
  C data layout. The kernel programs of \<open>src/pkg/capture/bpf\<close> address packets, registers and
  ring-buffer records through C struct declarations, and the user-space readers decode the
  same bytes at hand-written offsets. This theory gives C object types a value
  representation and computes size, alignment and member offsets from a declaration by the
  rules of the 64-bit Arm procedure call standard, for which the checked-in \<open>vmlinux.h\<close> was
  generated: natural alignment, bit-fields packed into the unit of their declared type,
  unions overlaid at offset 0, \<open>packed\<close> records without padding. Offsets are in bits, so that
  bit-fields and ordinary members are treated alike.
\<close>

section \<open>Object types\<close>

text \<open>
  A record member has a name (empty for an anonymous struct or union, whose members are
  then members of the enclosing record, and for padding bit-fields), a type, and the width
  if it is a bit-field.
\<close>

datatype ctype =
    CInt nat \<comment> \<open>integer, enumeration or pointer of that many bytes, naturally aligned\<close>
  | CArr ctype nat
  | CStruct "cmember list"
  | CPacked "cmember list" \<comment> \<open>\<^verbatim>\<open>struct __attribute__((packed))\<close>\<close>
  | CUnion "cmember list"
and cmember =
    Mem string ctype
  | Bits string ctype nat

abbreviation CU8 :: ctype where "CU8 \<equiv> CInt 1"
abbreviation CU16 :: ctype where "CU16 \<equiv> CInt 2"
abbreviation CU32 :: ctype where "CU32 \<equiv> CInt 4"
abbreviation CU64 :: ctype where "CU64 \<equiv> CInt 8"
abbreviation CPtr :: ctype where "CPtr \<equiv> CInt 8"
abbreviation CEnum :: ctype where "CEnum \<equiv> CInt 4"

section \<open>Size, alignment and placement\<close>

definition align_up :: "nat \<Rightarrow> nat \<Rightarrow> nat" where
  "align_up a p = (if p mod a = 0 then p else p + (a - p mod a))"

fun alignof :: "ctype \<Rightarrow> nat" and malign :: "cmember list \<Rightarrow> nat" where
  "alignof (CInt n) = n"
| "alignof (CArr t n) = alignof t"
| "alignof (CStruct ms) = malign ms"
| "alignof (CPacked ms) = 1"
| "alignof (CUnion ms) = malign ms"
| "malign [] = 1"
| "malign (Mem x t # ms) = max (alignof t) (malign ms)"
| "malign (Bits x t w # ms) = max (alignof t) (malign ms)"

text \<open>
  \<open>struct_end p ms\<close> is the bit position after laying out \<open>ms\<close> from bit \<open>p\<close> on; a bit-field
  that would cross the boundary of a unit of its declared type starts the next unit.
\<close>

definition bits_start :: "nat \<Rightarrow> nat \<Rightarrow> nat \<Rightarrow> nat" where
  "bits_start u w p = (if w = 0 \<or> u < p mod u + w then align_up u p else p)"

fun sizeof :: "ctype \<Rightarrow> nat"
  and struct_end :: "nat \<Rightarrow> cmember list \<Rightarrow> nat"
  and packed_end :: "nat \<Rightarrow> cmember list \<Rightarrow> nat"
  and union_end :: "cmember list \<Rightarrow> nat" where
  "sizeof (CInt n) = n"
| "sizeof (CArr t n) = n * sizeof t"
| "sizeof (CStruct ms) = align_up (8 * malign ms) (struct_end 0 ms) div 8"
| "sizeof (CPacked ms) = align_up 8 (packed_end 0 ms) div 8"
| "sizeof (CUnion ms) = align_up (8 * malign ms) (union_end ms) div 8"
| "struct_end p [] = p"
| "struct_end p (Mem x t # ms) = struct_end (align_up (8 * alignof t) p + 8 * sizeof t) ms"
| "struct_end p (Bits x t w # ms) = struct_end (bits_start (8 * sizeof t) w p + w) ms"
| "packed_end p [] = p"
| "packed_end p (Mem x t # ms) = packed_end (align_up 8 p + 8 * sizeof t) ms"
| "packed_end p (Bits x t w # ms) = packed_end (p + w) ms"
| "union_end [] = 0"
| "union_end (Mem x t # ms) = max (8 * sizeof t) (union_end ms)"
| "union_end (Bits x t w # ms) = max w (union_end ms)"

text \<open>\<open>mstart p m\<close> and \<open>mwidth m\<close>: where a member begins, in bits, and how many it takes.\<close>

fun mstart :: "nat \<Rightarrow> cmember \<Rightarrow> nat" where
  "mstart p (Mem x t) = align_up (8 * alignof t) p"
| "mstart p (Bits x t w) = bits_start (8 * sizeof t) w p"

fun mwidth :: "cmember \<Rightarrow> nat" where
  "mwidth (Mem x t) = 8 * sizeof t"
| "mwidth (Bits x t w) = w"

fun mname :: "cmember \<Rightarrow> string" where
  "mname (Mem x t) = x"
| "mname (Bits x t w) = x"

fun places :: "nat \<Rightarrow> cmember list \<Rightarrow> (nat \<times> cmember) list" where
  "places p [] = []"
| "places p (m # ms) = (mstart p m, m) # places (mstart p m + mwidth m) ms"

fun packed_places :: "nat \<Rightarrow> cmember list \<Rightarrow> (nat \<times> cmember) list" where
  "packed_places p [] = []"
| "packed_places p (Mem x t # ms) =
     (align_up 8 p, Mem x t) # packed_places (align_up 8 p + 8 * sizeof t) ms"
| "packed_places p (Bits x t w # ms) = (p, Bits x t w) # packed_places (p + w) ms"

fun members :: "ctype \<Rightarrow> (nat \<times> cmember) list" where
  "members (CStruct ms) = places 0 ms"
| "members (CPacked ms) = packed_places 0 ms"
| "members (CUnion ms) = map (\<lambda>m. (0, m)) ms"
| "members _ = []"

text \<open>
  \<open>fields\<close> flattens anonymous records, as name lookup in C does: the named members reachable
  without naming an intermediate one, with their bit offsets from the start of the object.
\<close>

fun shift_all :: "nat \<Rightarrow> (nat \<times> cmember) list \<Rightarrow> (nat \<times> cmember) list" where
  "shift_all d xs = map (\<lambda>(o', m). (d + o', m)) xs"

fun fields :: "ctype \<Rightarrow> (nat \<times> cmember) list"
  and sfields :: "nat \<Rightarrow> cmember list \<Rightarrow> (nat \<times> cmember) list"
  and pfields :: "nat \<Rightarrow> cmember list \<Rightarrow> (nat \<times> cmember) list"
  and ufields :: "cmember list \<Rightarrow> (nat \<times> cmember) list" where
  "fields (CInt n) = []"
| "fields (CArr t n) = []"
| "fields (CStruct ms) = sfields 0 ms"
| "fields (CPacked ms) = pfields 0 ms"
| "fields (CUnion ms) = ufields ms"
| "sfields p [] = []"
| "sfields p (Mem x t # ms) =
     (if x = '''' then shift_all (align_up (8 * alignof t) p) (fields t)
      else [(align_up (8 * alignof t) p, Mem x t)])
     @ sfields (align_up (8 * alignof t) p + 8 * sizeof t) ms"
| "sfields p (Bits x t w # ms) =
     (bits_start (8 * sizeof t) w p, Bits x t w) # sfields (bits_start (8 * sizeof t) w p + w) ms"
| "pfields p [] = []"
| "pfields p (Mem x t # ms) =
     (if x = '''' then shift_all (align_up 8 p) (fields t) else [(align_up 8 p, Mem x t)])
     @ pfields (align_up 8 p + 8 * sizeof t) ms"
| "pfields p (Bits x t w # ms) = (p, Bits x t w) # pfields (p + w) ms"
| "ufields [] = []"
| "ufields (Mem x t # ms) = (if x = '''' then fields t else [(0, Mem x t)]) @ ufields ms"
| "ufields (Bits x t w # ms) = (0, Bits x t w) # ufields ms"

definition field_of :: "string \<Rightarrow> ctype \<Rightarrow> (nat \<times> cmember) option" where
  "field_of x t = find (\<lambda>(p, m). mname m = x) (fields t)"

text \<open>The C operator \<open>offsetof\<close>, in bytes.\<close>

definition offsetof :: "ctype \<Rightarrow> string \<Rightarrow> nat" where
  "offsetof t x = (case field_of x t of None \<Rightarrow> 0 | Some (p, m) \<Rightarrow> p div 8)"

definition has_field :: "ctype \<Rightarrow> string \<Rightarrow> bool" where
  "has_field t x \<longleftrightarrow> field_of x t \<noteq> None"

section \<open>Well-formed declarations\<close>

text \<open>
  Scalars have one of the sizes the ABI defines, bit-fields are no wider than their declared
  integer type.
\<close>

fun wf_ctype :: "ctype \<Rightarrow> bool" and wf_members :: "cmember list \<Rightarrow> bool" where
  "wf_ctype (CInt n) = (n \<in> {1, 2, 4, 8, 16})"
| "wf_ctype (CArr t n) = wf_ctype t"
| "wf_ctype (CStruct ms) = wf_members ms"
| "wf_ctype (CPacked ms) = wf_members ms"
| "wf_ctype (CUnion ms) = wf_members ms"
| "wf_members [] = True"
| "wf_members (Mem x t # ms) = (wf_ctype t \<and> wf_members ms)"
| "wf_members (Bits x t w # ms) =
     (wf_ctype t \<and> alignof t = sizeof t \<and> w \<le> 8 * sizeof t \<and> wf_members ms)"


section \<open>The layout discipline\<close>

lemmas [layout_simps] = align_up_def bits_start_def max_def

lemma align_up_ge: "p \<le> align_up a p"
  by (simp add: align_up_def)

lemma align_up_dvd: "0 < a \<Longrightarrow> a dvd align_up a p"
proof -
  assume a: "0 < a"
  have "p + (a - p mod a) = a * (p div a) + a"
    using a mult_div_mod_eq [of a p] mod_less_divisor [OF a, of p] by linarith
  then show ?thesis
    by (auto simp: align_up_def dvd_eq_mod_eq_0)
qed

lemma align_up_less: "0 < a \<Longrightarrow> align_up a p < p + a"
  by (simp add: align_up_def)

lemma align_up_id: "a dvd p \<Longrightarrow> align_up a p = p"
  by (simp add: align_up_def dvd_eq_mod_eq_0)

abbreviation abi_align :: "nat \<Rightarrow> bool" where
  "abi_align n \<equiv> n \<in> {1, 2, 4, 8, 16}"

lemma abi_align_max: "abi_align a \<Longrightarrow> abi_align b \<Longrightarrow> abi_align (max a b)"
  by (auto simp: max_def)

lemma abi_align_dvd_max: "abi_align a \<Longrightarrow> abi_align b \<Longrightarrow> a dvd max a b \<and> b dvd max a b"
  by auto

lemma alignof_abi:
  "wf_ctype t \<Longrightarrow> abi_align (alignof t)"
  "wf_members ms \<Longrightarrow> abi_align (malign ms)"
  by (induction t and ms rule: alignof_malign.induct)
     (auto simp del: insert_iff intro!: abi_align_max)

lemma alignof_pos: "wf_ctype t \<Longrightarrow> 0 < alignof t"
  and malign_pos: "wf_members ms \<Longrightarrow> 0 < malign ms"
  using alignof_abi by fastforce+

lemma record_size_dvd: "0 < a \<Longrightarrow> a dvd align_up (8 * a) p div 8"
  using align_up_dvd [of "8 * a" p] by (auto elim!: dvdE)

lemma alignof_dvd_sizeof: "wf_ctype t \<Longrightarrow> alignof t dvd sizeof t"
proof (induction t rule: measure_induct_rule [of size])
  case (less t)
  then show ?case
    by (cases t) (simp_all add: record_size_dvd malign_pos)
qed

lemma struct_end_Cons: "struct_end p (m # ms) = struct_end (mstart p m + mwidth m) ms"
  by (cases m) simp_all

lemma mstart_ge: "p \<le> mstart p m"
  by (cases m) (simp_all add: bits_start_def align_up_ge)

lemma struct_end_ge: "p \<le> struct_end p ms"
proof (induction ms arbitrary: p)
  case (Cons m ms)
  from Cons.IH [of "mstart p m + mwidth m"] mstart_ge [of p m] show ?case
    by (simp add: struct_end_Cons)
qed simp

lemma places_end: "(q, m) \<in> set (places p ms) \<Longrightarrow> q + mwidth m \<le> struct_end p ms"
proof (induction ms arbitrary: p)
  case (Cons n ms)
  then show ?case
    using struct_end_ge [of "mstart p n + mwidth n" ms] by (auto simp: struct_end_Cons)
qed simp

lemma places_ge: "(q, m) \<in> set (places p ms) \<Longrightarrow> p \<le> q"
proof (induction ms arbitrary: p)
  case (Cons n ms)
  then show ?case
    using mstart_ge [of p n] by (auto dest: add_leD1 intro: order_trans)
qed simp

definition before :: "nat \<times> cmember \<Rightarrow> nat \<times> cmember \<Rightarrow> bool" where
  "before = (\<lambda>(p, m) (q, n). p + mwidth m \<le> q)"

lemma places_ordered: "sorted_wrt before (places p ms)"
  by (induction ms arbitrary: p) (auto simp: before_def dest: places_ge)

lemma places_mem_aligned:
  "wf_members ms \<Longrightarrow> (q, Mem x t) \<in> set (places p ms) \<Longrightarrow> 8 * alignof t dvd q"
proof (induction ms arbitrary: p)
  case (Cons n ms)
  then show ?case
    by (cases n) (auto simp: align_up_dvd alignof_pos)
qed simp

lemma bits_start_unit:
  assumes "0 < u" and "0 < w" and "w \<le> u"
  shows "bits_start u w p mod u + w \<le> u"
proof (cases "u < p mod u + w")
  case True
  with assms align_up_dvd [of u p] show ?thesis
    by (simp add: bits_start_def dvd_eq_mod_eq_0)
next
  case False
  with assms show ?thesis by (simp add: bits_start_def)
qed

lemma places_bits_unit:
  "wf_members ms \<Longrightarrow> (q, Bits x t w) \<in> set (places p ms) \<Longrightarrow> 0 < w \<Longrightarrow>
     q mod (8 * sizeof t) + w \<le> 8 * sizeof t"
proof (induction ms arbitrary: p)
  case (Cons n ms)
  then show ?case
    by (cases n) (auto dest!: alignof_pos intro!: bits_start_unit)
qed simp

lemma malign_dvd_max:
  "wf_ctype t \<Longrightarrow> wf_members ms \<Longrightarrow> malign ms dvd max (alignof t) (malign ms)"
  using abi_align_dvd_max alignof_abi by blast

lemma wf_member_alignment:
  "wf_members ms \<Longrightarrow> Mem x t \<in> set ms \<Longrightarrow> wf_ctype t \<and> alignof t dvd malign ms"
proof (induction ms)
  case (Cons n ms)
  show ?case
  proof (cases "n = Mem x t")
    case True
    with Cons.prems show ?thesis
      using abi_align_dvd_max alignof_abi by simp
  next
    case False
    with Cons have IH: "wf_ctype t \<and> alignof t dvd malign ms"
      by (cases n) auto
    have "malign ms dvd malign (n # ms)"
      using Cons.prems(1) by (cases n) (auto intro: malign_dvd_max dest: malign_dvd_max)
    with IH show ?thesis by (blast intro: dvd_trans)
  qed
qed simp

lemma struct_size_covers: "0 < a \<Longrightarrow> p \<le> 8 * (align_up (8 * a) p div 8)"
  using align_up_dvd [of "8 * a" p] align_up_ge [of p "8 * a"] by (auto elim!: dvdE)

lemma union_end_covers: "m \<in> set ms \<Longrightarrow> mwidth m \<le> union_end ms"
proof (induction ms)
  case (Cons n ms)
  then show ?case by (cases n) auto
qed simp

lemma packed_end_ge: "p \<le> packed_end p ms"
proof (induction ms arbitrary: p)
  case (Cons m ms)
  show ?case
  proof (cases m)
    case (Mem x t)
    with Cons.IH [of "align_up 8 p + 8 * sizeof t"] align_up_ge [of p 8] show ?thesis by simp
  next
    case (Bits x t w)
    with Cons.IH [of "p + w"] show ?thesis by simp
  qed
qed simp

lemma packed_places_end:
  "(q, m) \<in> set (packed_places p ms) \<Longrightarrow> q + mwidth m \<le> packed_end p ms"
proof (induction p ms rule: packed_places.induct)
  case (2 p x t ms)
  then show ?case using packed_end_ge [of "align_up 8 p + 8 * sizeof t" ms] by auto
next
  case (3 p x t w ms)
  then show ?case using packed_end_ge [of "p + w" ms] by auto
qed simp

lemma members_inside:
  "wf_ctype t \<Longrightarrow> (q, m) \<in> set (members t) \<Longrightarrow> q + mwidth m \<le> 8 * sizeof t"
proof (cases t)
  case (CStruct ms)
  assume "wf_ctype t" and "(q, m) \<in> set (members t)"
  with CStruct show ?thesis
    using places_end [of q m 0 ms] struct_size_covers [of "malign ms" "struct_end 0 ms"]
    by (simp add: malign_pos)
next
  case (CPacked ms)
  assume "(q, m) \<in> set (members t)"
  with CPacked show ?thesis
    using packed_places_end [of q m 0 ms] struct_size_covers [of 1 "packed_end 0 ms"] by simp
next
  case (CUnion ms)
  assume "wf_ctype t" and "(q, m) \<in> set (members t)"
  with CUnion show ?thesis
    using union_end_covers [of m ms] struct_size_covers [of "malign ms" "union_end ms"]
    by (auto simp: malign_pos)
qed simp_all

section \<open>Runs of padding\<close>

text \<open>
  \<open>vmlinux.h\<close> spells the padding behind a cache-line or page aligned member as a run of
  unnamed \<open>long: 64\<close> bit-fields. Such a run is laid out in one step.
\<close>

lemma bits_start_full: "0 < u \<Longrightarrow> bits_start u u p = align_up u p"
  by (simp add: bits_start_def align_up_def)

lemma align_up_again: "align_up 64 (align_up 64 p + 64) = align_up 64 p + 64"
  by (intro align_up_id dvd_add align_up_dvd) simp_all

lemma align_up_run:
  "align_up 64 (align_up 64 p + 64) + 64 * Suc k = align_up 64 p + 64 * Suc (Suc k)"
  by (simp add: align_up_again)

lemma struct_end_run:
  "struct_end p (replicate (Suc k) (Bits x CU64 64) @ ms)
     = struct_end (align_up 64 p + 64 * Suc k) ms"
proof (induction k arbitrary: p)
  case 0
  show ?case by (simp add: bits_start_full)
next
  case (Suc k)
  have "struct_end p (replicate (Suc (Suc k)) (Bits x CU64 64) @ ms)
      = struct_end (align_up 64 p + 64) (replicate (Suc k) (Bits x CU64 64) @ ms)"
    by (simp add: bits_start_full)
  also have "\<dots> = struct_end (align_up 64 (align_up 64 p + 64) + 64 * Suc k) ms"
    by (rule Suc.IH)
  finally show ?case by (simp only: align_up_run)
qed

lemma struct_end_pad [layout_simps]:
  "struct_end p (replicate (numeral n) (Bits x CU64 64) @ ms)
     = struct_end (align_up 64 p + 64 * numeral n) ms"
  using struct_end_run [of p "pred_numeral n" x ms] by (simp only: numeral_eq_Suc [of n])

lemma malign_ge_1: "1 \<le> malign ms"
proof (induction ms)
  case (Cons m ms)
  then show ?case by (cases m) auto
qed simp

lemma malign_append [simp]: "malign (xs @ ys) = max (malign xs) (malign ys)"
proof (induction xs)
  case Nil
  show ?case using malign_ge_1 [of ys] by simp
next
  case (Cons m xs)
  then show ?case by (cases m) (simp_all add: max.assoc)
qed

lemma wf_members_append [simp]: "wf_members (xs @ ys) \<longleftrightarrow> wf_members xs \<and> wf_members ys"
proof (induction xs)
  case (Cons m xs)
  then show ?case by (cases m) auto
qed simp

lemma malign_run: "malign (replicate (Suc k) (Bits x CU64 64)) = 8"
  by (induction k) simp_all

lemma malign_pad [layout_simps]: "malign (replicate (numeral n) (Bits x CU64 64)) = 8"
  by (simp only: numeral_eq_Suc [of n] malign_run)

lemma wf_members_pad [layout_simps]: "wf_members (replicate k (Bits x CU64 64))"
  by (induction k) simp_all

lemma find_sfields_run:
  assumes "x \<noteq> ''''"
  shows "find (\<lambda>(p, m). mname m = x) (sfields p (replicate (Suc k) (Bits '''' CU64 64) @ ms))
       = find (\<lambda>(p, m). mname m = x) (sfields (align_up 64 p + 64 * Suc k) ms)"
proof (induction k arbitrary: p)
  case 0
  show ?case using assms by (simp add: bits_start_full)
next
  case (Suc k)
  have "find (\<lambda>(p, m). mname m = x) (sfields p (replicate (Suc (Suc k)) (Bits '''' CU64 64) @ ms))
      = find (\<lambda>(p, m). mname m = x)
          (sfields (align_up 64 p + 64) (replicate (Suc k) (Bits '''' CU64 64) @ ms))"
    using assms by (simp add: bits_start_full)
  also have "\<dots> = find (\<lambda>(p, m). mname m = x)
      (sfields (align_up 64 (align_up 64 p + 64) + 64 * Suc k) ms)"
    by (rule Suc.IH)
  finally show ?case by (simp only: align_up_run)
qed

lemma find_sfields_pad [layout_simps]:
  "x \<noteq> '''' \<Longrightarrow>
     find (\<lambda>(p, m). mname m = x) (sfields p (replicate (numeral n) (Bits '''' CU64 64) @ ms))
       = find (\<lambda>(p, m). mname m = x) (sfields (align_up 64 p + 64 * numeral n) ms)"
  by (simp only: numeral_eq_Suc [of n]) (rule find_sfields_run)

section \<open>The discipline as one predicate\<close>

text \<open>
  A laid-out object type is an array-compatible multiple of its alignment, holds each of its
  members inside itself, and, for an ordinary struct, keeps the members apart in declaration
  order, at their natural alignment, with no bit-field crossing its storage unit.
\<close>

fun placed :: "ctype \<Rightarrow> nat \<times> cmember \<Rightarrow> bool" where
  "placed t (q, Mem x t') = (8 * alignof t' dvd q \<and> alignof t' dvd alignof t)"
| "placed t (q, Bits x t' w) = (0 < w \<longrightarrow> q mod (8 * sizeof t') + w \<le> 8 * sizeof t')"

definition laid_out :: "ctype \<Rightarrow> bool" where
  "laid_out t \<longleftrightarrow> alignof t dvd sizeof t
     \<and> list_all (\<lambda>(q, m). q + mwidth m \<le> 8 * sizeof t) (members t)
     \<and> (case t of CStruct ms \<Rightarrow>
          sorted_wrt before (members t) \<and> list_all (placed t) (members t)
        | _ \<Rightarrow> True)"

lemma places_member: "(q, m) \<in> set (places p ms) \<Longrightarrow> m \<in> set ms"
  by (induction ms arbitrary: p) auto

lemma wf_placed:
  assumes "wf_members ms" and "(q, m) \<in> set (places 0 ms)"
  shows "placed (CStruct ms) (q, m)"
proof (cases m)
  case (Mem x t)
  with assms show ?thesis
    using places_mem_aligned [of ms q x t 0] wf_member_alignment [of ms x t]
      places_member [of q m 0 ms] by simp
next
  case (Bits x t w)
  with assms show ?thesis
    using places_bits_unit [of ms q x t w 0] by simp
qed

lemma wf_laid_out:
  assumes "wf_ctype t"
  shows "laid_out t"
proof -
  have "list_all (\<lambda>(q, m). q + mwidth m \<le> 8 * sizeof t) (members t)"
    using members_inside [OF assms] by (auto simp: list_all_iff)
  moreover have "case t of CStruct ms \<Rightarrow>
      sorted_wrt before (members t) \<and> list_all (placed t) (members t) | _ \<Rightarrow> True"
    using assms by (auto simp: list_all_iff places_ordered intro: wf_placed split: ctype.splits)
  ultimately show ?thesis
    using alignof_dvd_sizeof [OF assms] by (simp add: laid_out_def)
qed

end
