(* ===== verification/Kernel_Net.thy ===== *)
theory Kernel_Net
  imports C_Layout
begin

text \<open>
  Packet headers and XDP context types, from \<^verbatim>\<open>src/pkg/capture/bpf/vmlinux.h\<close>. Each struct,
  union and typedef of the header is one declaration here, in dependency order: a member
  embedded by value refers to the declaration of its type, a pointer member is \<^verbatim>\<open>CPtr\<close>, an
  enumeration is the list of its enumerators. The \<^verbatim>\<open>layout_\<close> lemma behind a record states its
  size and alignment, computed by the rules of theory \<open>C_Layout\<close>.
\<close>

abbreviation t___u16 :: ctype where
  "t___u16 \<equiv> CU16"

abbreviation t___be16 :: ctype where
  "t___be16 \<equiv> t___u16"

definition struct_ethhdr :: ctype where
  "struct_ethhdr = CStruct [
     Mem ''h_dest'' (CArr CU8 6), Mem ''h_source'' (CArr CU8 6), Mem ''h_proto'' t___be16]"

lemma layout_struct_ethhdr [layout_simps]:
  "sizeof struct_ethhdr = 14" "alignof struct_ethhdr = 2" "wf_ctype struct_ethhdr"
  by (simp_all add: struct_ethhdr_def layout_simps)

abbreviation t___u8 :: ctype where
  "t___u8 \<equiv> CU8"

abbreviation t___sum16 :: ctype where
  "t___sum16 \<equiv> t___u16"

abbreviation t___u32 :: ctype where
  "t___u32 \<equiv> CU32"

abbreviation t___be32 :: ctype where
  "t___be32 \<equiv> t___u32"

definition struct_iphdr :: ctype where
  "struct_iphdr = CStruct [
     Bits ''ihl'' t___u8 4, Bits ''version'' t___u8 4, Mem ''tos'' t___u8,
     Mem ''tot_len'' t___be16, Mem ''id'' t___be16, Mem ''frag_off'' t___be16, Mem ''ttl'' t___u8,
     Mem ''protocol'' t___u8, Mem ''check'' t___sum16,
     Mem '''' (CUnion [
       Mem '''' (CStruct [Mem ''saddr'' t___be32, Mem ''daddr'' t___be32]),
       Mem ''addrs'' (CStruct [Mem ''saddr'' t___be32, Mem ''daddr'' t___be32])])]"

lemma layout_struct_iphdr [layout_simps]:
  "sizeof struct_iphdr = 20" "alignof struct_iphdr = 4" "wf_ctype struct_iphdr"
  by (simp_all add: struct_iphdr_def layout_simps)

definition struct_in6_addr :: ctype where
  "struct_in6_addr = CStruct [
     Mem ''in6_u'' (CUnion [
       Mem ''u6_addr8'' (CArr t___u8 16), Mem ''u6_addr16'' (CArr t___be16 8),
       Mem ''u6_addr32'' (CArr t___be32 4)])]"

lemma layout_struct_in6_addr [layout_simps]:
  "sizeof struct_in6_addr = 16" "alignof struct_in6_addr = 4" "wf_ctype struct_in6_addr"
  by (simp_all add: struct_in6_addr_def layout_simps)

definition struct_ipv6hdr :: ctype where
  "struct_ipv6hdr = CStruct [
     Bits ''priority'' t___u8 4, Bits ''version'' t___u8 4, Mem ''flow_lbl'' (CArr t___u8 3),
     Mem ''payload_len'' t___be16, Mem ''nexthdr'' t___u8, Mem ''hop_limit'' t___u8,
     Mem '''' (CUnion [
       Mem '''' (CStruct [
         Mem ''saddr'' struct_in6_addr, Mem ''daddr'' struct_in6_addr]),
       Mem ''addrs'' (CStruct [
         Mem ''saddr'' struct_in6_addr, Mem ''daddr'' struct_in6_addr])])]"

lemma layout_struct_ipv6hdr [layout_simps]:
  "sizeof struct_ipv6hdr = 40" "alignof struct_ipv6hdr = 4" "wf_ctype struct_ipv6hdr"
  by (simp_all add: struct_ipv6hdr_def layout_simps)

definition struct_tcphdr :: ctype where
  "struct_tcphdr = CStruct [
     Mem ''source'' t___be16, Mem ''dest'' t___be16, Mem ''seq'' t___be32,
     Mem ''ack_seq'' t___be32, Bits ''ae'' t___u16 1, Bits ''res1'' t___u16 3,
     Bits ''doff'' t___u16 4, Bits ''fin'' t___u16 1, Bits ''syn'' t___u16 1,
     Bits ''rst'' t___u16 1, Bits ''psh'' t___u16 1, Bits ''ack'' t___u16 1,
     Bits ''urg'' t___u16 1, Bits ''ece'' t___u16 1, Bits ''cwr'' t___u16 1,
     Mem ''window'' t___be16, Mem ''check'' t___sum16, Mem ''urg_ptr'' t___be16]"

lemma layout_struct_tcphdr [layout_simps]:
  "sizeof struct_tcphdr = 20" "alignof struct_tcphdr = 4" "wf_ctype struct_tcphdr"
  by (simp_all add: struct_tcphdr_def layout_simps)

definition struct_xdp_md :: ctype where
  "struct_xdp_md = CStruct [
     Mem ''data'' t___u32, Mem ''data_end'' t___u32, Mem ''data_meta'' t___u32,
     Mem ''ingress_ifindex'' t___u32, Mem ''rx_queue_index'' t___u32,
     Mem ''egress_ifindex'' t___u32]"

lemma layout_struct_xdp_md [layout_simps]:
  "sizeof struct_xdp_md = 24" "alignof struct_xdp_md = 4" "wf_ctype struct_xdp_md"
  by (simp_all add: struct_xdp_md_def layout_simps)

abbreviation t_u32 :: ctype where
  "t_u32 \<equiv> t___u32"

definition struct_xdp_buff :: ctype where
  "struct_xdp_buff = CStruct [
     Mem ''data'' CPtr, Mem ''data_end'' CPtr, Mem ''data_meta'' CPtr,
     Mem ''data_hard_start'' CPtr, Mem ''rxq'' CPtr, Mem ''txq'' CPtr, Mem ''frame_sz'' t_u32,
     Mem ''flags'' t_u32]"

lemma layout_struct_xdp_buff [layout_simps]:
  "sizeof struct_xdp_buff = 56" "alignof struct_xdp_buff = 8" "wf_ctype struct_xdp_buff"
  by (simp_all add: struct_xdp_buff_def layout_simps)

definition struct_xdp_mem_info :: ctype where
  "struct_xdp_mem_info = CStruct [
     Mem ''type'' t_u32, Mem ''id'' t_u32]"

lemma layout_struct_xdp_mem_info [layout_simps]:
  "sizeof struct_xdp_mem_info = 8" "alignof struct_xdp_mem_info = 4" "wf_ctype struct_xdp_mem_info"
  by (simp_all add: struct_xdp_mem_info_def layout_simps)

definition struct_xdp_rxq_info :: ctype where
  "struct_xdp_rxq_info = CStruct [
     Mem ''dev'' CPtr, Mem ''queue_index'' t_u32, Mem ''reg_state'' t_u32,
     Mem ''mem'' struct_xdp_mem_info, Mem ''frag_size'' t_u32, Bits '''' CU64 64,
     Bits '''' CU64 64, Bits '''' CU64 64, Bits '''' CU64 64]"

lemma layout_struct_xdp_rxq_info [layout_simps]:
  "sizeof struct_xdp_rxq_info = 64" "alignof struct_xdp_rxq_info = 8" "wf_ctype struct_xdp_rxq_info"
  by (simp_all add: struct_xdp_rxq_info_def layout_simps)

definition struct_xdp_txq_info :: ctype where
  "struct_xdp_txq_info = CStruct [
     Mem ''dev'' CPtr]"

lemma layout_struct_xdp_txq_info [layout_simps]:
  "sizeof struct_xdp_txq_info = 8" "alignof struct_xdp_txq_info = 8" "wf_ctype struct_xdp_txq_info"
  by (simp_all add: struct_xdp_txq_info_def layout_simps)

definition enum_xdp_mem_type :: "(string \<times> int) list" where
  "enum_xdp_mem_type = [
     (''MEM_TYPE_PAGE_SHARED'', 0), (''MEM_TYPE_PAGE_ORDER0'', 1), (''MEM_TYPE_PAGE_POOL'', 2),
     (''MEM_TYPE_XSK_BUFF_POOL'', 3), (''MEM_TYPE_MAX'', 4)]"

definition struct_xdp_frame :: ctype where
  "struct_xdp_frame = CStruct [
     Mem ''data'' CPtr, Mem ''len'' t_u32, Mem ''headroom'' t_u32, Mem ''metasize'' t_u32,
     Bits ''mem_type'' CEnum 32, Mem ''dev_rx'' CPtr, Mem ''frame_sz'' t_u32, Mem ''flags'' t_u32]"

lemma layout_struct_xdp_frame [layout_simps]:
  "sizeof struct_xdp_frame = 40" "alignof struct_xdp_frame = 8" "wf_ctype struct_xdp_frame"
  by (simp_all add: struct_xdp_frame_def layout_simps)

definition enum_xdp_action :: "(string \<times> int) list" where
  "enum_xdp_action = [
     (''XDP_ABORTED'', 0), (''XDP_DROP'', 1), (''XDP_PASS'', 2), (''XDP_TX'', 3),
     (''XDP_REDIRECT'', 4)]"

end
