(* ===== verification/Kernel_Task.thy ===== *)
theory Kernel_Task
  imports Kernel_Net
begin

text \<open>
  The task side of the uprobe programs, from \<^verbatim>\<open>src/pkg/capture/bpf/vmlinux.h\<close>: the saved
  registers an uprobe handler receives, the uprobe and return-probe bookkeeping, the perf
  event a probe is attached through, and the task whose identifiers
  \<^verbatim>\<open>bpf_get_current_pid_tgid\<close> reports. Declarations longer than 130 lines are split into
  member lists in source order.
\<close>

abbreviation t___u64 :: ctype where
  "t___u64 \<equiv> CU64"

definition struct_user_pt_regs :: ctype where
  "struct_user_pt_regs = CStruct [
     Mem ''regs'' (CArr t___u64 31), Mem ''sp'' t___u64, Mem ''pc'' t___u64,
     Mem ''pstate'' t___u64]"

lemma layout_struct_user_pt_regs [layout_simps]:
  "sizeof struct_user_pt_regs = 272" "alignof struct_user_pt_regs = 8" "wf_ctype struct_user_pt_regs"
  by (simp_all add: struct_user_pt_regs_def layout_simps)

abbreviation t_u64 :: ctype where
  "t_u64 \<equiv> t___u64"

abbreviation t___s32 :: ctype where
  "t___s32 \<equiv> CU32"

abbreviation t_s32 :: ctype where
  "t_s32 \<equiv> t___s32"

definition struct_frame_record :: ctype where
  "struct_frame_record = CStruct [
     Mem ''fp'' t_u64, Mem ''lr'' t_u64]"

lemma layout_struct_frame_record [layout_simps]:
  "sizeof struct_frame_record = 16" "alignof struct_frame_record = 8" "wf_ctype struct_frame_record"
  by (simp_all add: struct_frame_record_def layout_simps)

definition struct_frame_record_meta :: ctype where
  "struct_frame_record_meta = CStruct [
     Mem ''record'' struct_frame_record, Mem ''type'' t_u64]"

lemma layout_struct_frame_record_meta [layout_simps]:
  "sizeof struct_frame_record_meta = 24" "alignof struct_frame_record_meta = 8" "wf_ctype struct_frame_record_meta"
  by (simp_all add: struct_frame_record_meta_def layout_simps)

definition struct_pt_regs :: ctype where
  "struct_pt_regs = CStruct [
     Mem '''' (CUnion [
       Mem ''user_regs'' struct_user_pt_regs,
       Mem '''' (CStruct [
         Mem ''regs'' (CArr t_u64 31), Mem ''sp'' t_u64, Mem ''pc'' t_u64, Mem ''pstate'' t_u64])]),
     Mem ''orig_x0'' t_u64, Mem ''syscallno'' t_s32, Mem ''pmr'' t_u32, Mem ''sdei_ttbr1'' t_u64,
     Mem ''stackframe'' struct_frame_record_meta, Mem ''lockdep_hardirqs'' t_u64,
     Mem ''exit_rcu'' t_u64]"

lemma layout_struct_pt_regs [layout_simps]:
  "sizeof struct_pt_regs = 336" "alignof struct_pt_regs = 8" "wf_ctype struct_pt_regs"
  by (simp_all add: struct_pt_regs_def layout_simps)

definition struct_rb_node :: ctype where
  "struct_rb_node = CStruct [
     Mem ''__rb_parent_color'' CU64, Mem ''rb_right'' CPtr, Mem ''rb_left'' CPtr]"

lemma layout_struct_rb_node [layout_simps]:
  "sizeof struct_rb_node = 24" "alignof struct_rb_node = 8" "wf_ctype struct_rb_node"
  by (simp_all add: struct_rb_node_def layout_simps)

definition t_atomic_t :: ctype where
  "t_atomic_t = CStruct [
     Mem ''counter'' CU32]"

lemma layout_t_atomic_t [layout_simps]:
  "sizeof t_atomic_t = 4" "alignof t_atomic_t = 4" "wf_ctype t_atomic_t"
  by (simp_all add: t_atomic_t_def layout_simps)

definition struct_refcount_struct :: ctype where
  "struct_refcount_struct = CStruct [
     Mem ''refs'' t_atomic_t]"

lemma layout_struct_refcount_struct [layout_simps]:
  "sizeof struct_refcount_struct = 4" "alignof struct_refcount_struct = 4" "wf_ctype struct_refcount_struct"
  by (simp_all add: struct_refcount_struct_def layout_simps)

abbreviation t_refcount_t :: ctype where
  "t_refcount_t \<equiv> struct_refcount_struct"

abbreviation t___s64 :: ctype where
  "t___s64 \<equiv> CU64"

abbreviation t_s64 :: ctype where
  "t_s64 \<equiv> t___s64"

definition t_atomic64_t :: ctype where
  "t_atomic64_t = CStruct [
     Mem ''counter'' t_s64]"

lemma layout_t_atomic64_t [layout_simps]:
  "sizeof t_atomic64_t = 8" "alignof t_atomic64_t = 8" "wf_ctype t_atomic64_t"
  by (simp_all add: t_atomic64_t_def layout_simps)

abbreviation t_atomic_long_t :: ctype where
  "t_atomic_long_t \<equiv> t_atomic64_t"

definition struct_optimistic_spin_queue :: ctype where
  "struct_optimistic_spin_queue = CStruct [
     Mem ''tail'' t_atomic_t]"

lemma layout_struct_optimistic_spin_queue [layout_simps]:
  "sizeof struct_optimistic_spin_queue = 4" "alignof struct_optimistic_spin_queue = 4" "wf_ctype struct_optimistic_spin_queue"
  by (simp_all add: struct_optimistic_spin_queue_def layout_simps)

abbreviation t_u8 :: ctype where
  "t_u8 \<equiv> t___u8"

abbreviation t_u16 :: ctype where
  "t_u16 \<equiv> t___u16"

definition struct_qspinlock :: ctype where
  "struct_qspinlock = CStruct [
     Mem '''' (CUnion [
       Mem ''val'' t_atomic_t, Mem '''' (CStruct [Mem ''locked'' t_u8, Mem ''pending'' t_u8]),
       Mem '''' (CStruct [Mem ''locked_pending'' t_u16, Mem ''tail'' t_u16])])]"

lemma layout_struct_qspinlock [layout_simps]:
  "sizeof struct_qspinlock = 4" "alignof struct_qspinlock = 4" "wf_ctype struct_qspinlock"
  by (simp_all add: struct_qspinlock_def layout_simps)

abbreviation t_arch_spinlock_t :: ctype where
  "t_arch_spinlock_t \<equiv> struct_qspinlock"

definition struct_raw_spinlock :: ctype where
  "struct_raw_spinlock = CStruct [
     Mem ''raw_lock'' t_arch_spinlock_t]"

lemma layout_struct_raw_spinlock [layout_simps]:
  "sizeof struct_raw_spinlock = 4" "alignof struct_raw_spinlock = 4" "wf_ctype struct_raw_spinlock"
  by (simp_all add: struct_raw_spinlock_def layout_simps)

abbreviation t_raw_spinlock_t :: ctype where
  "t_raw_spinlock_t \<equiv> struct_raw_spinlock"

definition struct_list_head :: ctype where
  "struct_list_head = CStruct [
     Mem ''next'' CPtr, Mem ''prev'' CPtr]"

lemma layout_struct_list_head [layout_simps]:
  "sizeof struct_list_head = 16" "alignof struct_list_head = 8" "wf_ctype struct_list_head"
  by (simp_all add: struct_list_head_def layout_simps)

definition struct_rw_semaphore :: ctype where
  "struct_rw_semaphore = CStruct [
     Mem ''count'' t_atomic_long_t, Mem ''owner'' t_atomic_long_t,
     Mem ''osq'' struct_optimistic_spin_queue, Mem ''wait_lock'' t_raw_spinlock_t,
     Mem ''wait_list'' struct_list_head]"

lemma layout_struct_rw_semaphore [layout_simps]:
  "sizeof struct_rw_semaphore = 40" "alignof struct_rw_semaphore = 8" "wf_ctype struct_rw_semaphore"
  by (simp_all add: struct_rw_semaphore_def layout_simps)

definition struct_callback_head :: ctype where
  "struct_callback_head = CStruct [
     Mem ''next'' CPtr, Mem ''func'' CPtr]"

lemma layout_struct_callback_head [layout_simps]:
  "sizeof struct_callback_head = 16" "alignof struct_callback_head = 8" "wf_ctype struct_callback_head"
  by (simp_all add: struct_callback_head_def layout_simps)

abbreviation t_work_func_t :: ctype where
  "t_work_func_t \<equiv> CPtr"

definition struct_work_struct :: ctype where
  "struct_work_struct = CStruct [
     Mem ''data'' t_atomic_long_t, Mem ''entry'' struct_list_head, Mem ''func'' t_work_func_t]"

lemma layout_struct_work_struct [layout_simps]:
  "sizeof struct_work_struct = 32" "alignof struct_work_struct = 8" "wf_ctype struct_work_struct"
  by (simp_all add: struct_work_struct_def layout_simps)

abbreviation t___kernel_loff_t :: ctype where
  "t___kernel_loff_t \<equiv> CU64"

abbreviation t_loff_t :: ctype where
  "t_loff_t \<equiv> t___kernel_loff_t"

abbreviation t___le32 :: ctype where
  "t___le32 \<equiv> t___u32"

definition struct_arch_probe_insn :: ctype where
  "struct_arch_probe_insn = CStruct [
     Mem ''handler'' CPtr]"

lemma layout_struct_arch_probe_insn [layout_simps]:
  "sizeof struct_arch_probe_insn = 8" "alignof struct_arch_probe_insn = 8" "wf_ctype struct_arch_probe_insn"
  by (simp_all add: struct_arch_probe_insn_def layout_simps)

definition struct_arch_uprobe :: ctype where
  "struct_arch_uprobe = CStruct [
     Mem '''' (CUnion [Mem ''insn'' t___le32, Mem ''ixol'' t___le32]),
     Mem ''api'' struct_arch_probe_insn, Mem ''simulate'' CU8]"

lemma layout_struct_arch_uprobe [layout_simps]:
  "sizeof struct_arch_uprobe = 24" "alignof struct_arch_uprobe = 8" "wf_ctype struct_arch_uprobe"
  by (simp_all add: struct_arch_uprobe_def layout_simps)

definition struct_uprobe :: ctype where
  "struct_uprobe = CStruct [
     Mem ''rb_node'' struct_rb_node, Mem ''ref'' t_refcount_t,
     Mem ''register_rwsem'' struct_rw_semaphore, Mem ''consumer_rwsem'' struct_rw_semaphore,
     Mem ''pending_list'' struct_list_head, Mem ''consumers'' struct_list_head,
     Mem ''inode'' CPtr,
     Mem '''' (CUnion [
       Mem ''rcu'' struct_callback_head, Mem ''work'' struct_work_struct]),
     Mem ''offset'' t_loff_t, Mem ''ref_ctr_offset'' t_loff_t, Mem ''flags'' CU64,
     Mem ''arch'' struct_arch_uprobe]"

lemma layout_struct_uprobe [layout_simps]:
  "sizeof struct_uprobe = 232" "alignof struct_uprobe = 8" "wf_ctype struct_uprobe"
  by (simp_all add: struct_uprobe_def layout_simps)

definition struct_uprobe_consumer :: ctype where
  "struct_uprobe_consumer = CStruct [
     Mem ''handler'' CPtr, Mem ''ret_handler'' CPtr, Mem ''filter'' CPtr,
     Mem ''cons_node'' struct_list_head, Mem ''id'' t___u64]"

lemma layout_struct_uprobe_consumer [layout_simps]:
  "sizeof struct_uprobe_consumer = 48" "alignof struct_uprobe_consumer = 8" "wf_ctype struct_uprobe_consumer"
  by (simp_all add: struct_uprobe_consumer_def layout_simps)

definition enum_uprobe_task_state :: "(string \<times> int) list" where
  "enum_uprobe_task_state = [
     (''UTASK_RUNNING'', 0), (''UTASK_SSTEP'', 1), (''UTASK_SSTEP_ACK'', 2),
     (''UTASK_SSTEP_TRAPPED'', 3)]"

definition struct_hlist_node :: ctype where
  "struct_hlist_node = CStruct [
     Mem ''next'' CPtr, Mem ''pprev'' CPtr]"

lemma layout_struct_hlist_node [layout_simps]:
  "sizeof struct_hlist_node = 16" "alignof struct_hlist_node = 8" "wf_ctype struct_hlist_node"
  by (simp_all add: struct_hlist_node_def layout_simps)

definition struct_timer_list :: ctype where
  "struct_timer_list = CStruct [
     Mem ''entry'' struct_hlist_node, Mem ''expires'' CU64, Mem ''function'' CPtr,
     Mem ''flags'' t_u32]"

lemma layout_struct_timer_list [layout_simps]:
  "sizeof struct_timer_list = 40" "alignof struct_timer_list = 8" "wf_ctype struct_timer_list"
  by (simp_all add: struct_timer_list_def layout_simps)

definition struct_seqcount :: ctype where
  "struct_seqcount = CStruct [
     Mem ''sequence'' CU32]"

lemma layout_struct_seqcount [layout_simps]:
  "sizeof struct_seqcount = 4" "alignof struct_seqcount = 4" "wf_ctype struct_seqcount"
  by (simp_all add: struct_seqcount_def layout_simps)

abbreviation t_seqcount_t :: ctype where
  "t_seqcount_t \<equiv> struct_seqcount"

definition struct_arch_uprobe_task :: ctype where
  "struct_arch_uprobe_task = CStruct []"

lemma layout_struct_arch_uprobe_task [layout_simps]:
  "sizeof struct_arch_uprobe_task = 0" "alignof struct_arch_uprobe_task = 1" "wf_ctype struct_arch_uprobe_task"
  by (simp_all add: struct_arch_uprobe_task_def layout_simps)

definition struct_uprobe_task :: ctype where
  "struct_uprobe_task = CStruct [
     Mem ''state'' CEnum, Mem ''depth'' CU32, Mem ''return_instances'' CPtr, Mem ''ri_pool'' CPtr,
     Mem ''ri_timer'' struct_timer_list, Mem ''ri_seqcount'' t_seqcount_t,
     Mem '''' (CUnion [
       Mem '''' (CStruct [
         Mem ''autask'' struct_arch_uprobe_task, Mem ''vaddr'' CU64]),
       Mem '''' (CStruct [
         Mem ''dup_xol_work'' struct_callback_head, Mem ''dup_xol_addr'' CU64])]),
     Mem ''active_uprobe'' CPtr, Mem ''xol_vaddr'' CU64, Mem ''signal_denied'' CU8,
     Mem ''auprobe'' CPtr]"

lemma layout_struct_uprobe_task [layout_simps]:
  "sizeof struct_uprobe_task = 128" "alignof struct_uprobe_task = 8" "wf_ctype struct_uprobe_task"
  by (simp_all add: struct_uprobe_task_def layout_simps)

definition enum_hprobe_state :: "(string \<times> int) list" where
  "enum_hprobe_state = [
     (''HPROBE_LEASED'', 0), (''HPROBE_STABLE'', 1), (''HPROBE_GONE'', 2), (''HPROBE_CONSUMED'', 3)]"

definition struct_hprobe :: ctype where
  "struct_hprobe = CStruct [
     Mem ''state'' CEnum, Mem ''srcu_idx'' CU32, Mem ''uprobe'' CPtr]"

lemma layout_struct_hprobe [layout_simps]:
  "sizeof struct_hprobe = 16" "alignof struct_hprobe = 8" "wf_ctype struct_hprobe"
  by (simp_all add: struct_hprobe_def layout_simps)

definition struct_return_consumer :: ctype where
  "struct_return_consumer = CStruct [
     Mem ''cookie'' t___u64, Mem ''id'' t___u64]"

lemma layout_struct_return_consumer [layout_simps]:
  "sizeof struct_return_consumer = 16" "alignof struct_return_consumer = 8" "wf_ctype struct_return_consumer"
  by (simp_all add: struct_return_consumer_def layout_simps)

definition struct_return_instance :: ctype where
  "struct_return_instance = CStruct [
     Mem ''hprobe'' struct_hprobe, Mem ''func'' CU64, Mem ''stack'' CU64,
     Mem ''orig_ret_vaddr'' CU64, Mem ''chained'' CU8, Mem ''cons_cnt'' CU32, Mem ''next'' CPtr,
     Mem ''rcu'' struct_callback_head, Mem ''consumer'' struct_return_consumer,
     Mem ''extra_consumers'' CPtr, Bits '''' CU64 64, Bits '''' CU64 64, Bits '''' CU64 64,
     Bits '''' CU64 64]"

lemma layout_struct_return_instance [layout_simps]:
  "sizeof struct_return_instance = 128" "alignof struct_return_instance = 8" "wf_ctype struct_return_instance"
  by (simp_all add: struct_return_instance_def layout_simps)

definition struct_thread_info :: ctype where
  "struct_thread_info = CStruct [
     Mem ''flags'' CU64, Mem ''ttbr0'' t_u64,
     Mem '''' (CUnion [
       Mem ''preempt_count'' t_u64,
       Mem ''preempt'' (CStruct [
         Mem ''count'' t_u32, Mem ''need_resched'' t_u32])]),
     Mem ''scs_base'' CPtr, Mem ''scs_sp'' CPtr, Mem ''cpu'' t_u32]"

lemma layout_struct_thread_info [layout_simps]:
  "sizeof struct_thread_info = 48" "alignof struct_thread_info = 8" "wf_ctype struct_thread_info"
  by (simp_all add: struct_thread_info_def layout_simps)

definition struct_llist_node :: ctype where
  "struct_llist_node = CStruct [
     Mem ''next'' CPtr]"

lemma layout_struct_llist_node [layout_simps]:
  "sizeof struct_llist_node = 8" "alignof struct_llist_node = 8" "wf_ctype struct_llist_node"
  by (simp_all add: struct_llist_node_def layout_simps)

definition struct___call_single_node :: ctype where
  "struct___call_single_node = CStruct [
     Mem ''llist'' struct_llist_node,
     Mem '''' (CUnion [Mem ''u_flags'' CU32, Mem ''a_flags'' t_atomic_t]), Mem ''src'' t_u16,
     Mem ''dst'' t_u16]"

lemma layout_struct___call_single_node [layout_simps]:
  "sizeof struct___call_single_node = 16" "alignof struct___call_single_node = 8" "wf_ctype struct___call_single_node"
  by (simp_all add: struct___call_single_node_def layout_simps)

definition struct_load_weight :: ctype where
  "struct_load_weight = CStruct [
     Mem ''weight'' CU64, Mem ''inv_weight'' t_u32]"

lemma layout_struct_load_weight [layout_simps]:
  "sizeof struct_load_weight = 16" "alignof struct_load_weight = 8" "wf_ctype struct_load_weight"
  by (simp_all add: struct_load_weight_def layout_simps)

definition struct_sched_avg :: ctype where
  "struct_sched_avg = CStruct [
     Mem ''last_update_time'' t_u64, Mem ''load_sum'' t_u64, Mem ''runnable_sum'' t_u64,
     Mem ''util_sum'' t_u32, Mem ''period_contrib'' t_u32, Mem ''load_avg'' CU64,
     Mem ''runnable_avg'' CU64, Mem ''util_avg'' CU64, Mem ''util_est'' CU32]"

lemma layout_struct_sched_avg [layout_simps]:
  "sizeof struct_sched_avg = 64" "alignof struct_sched_avg = 8" "wf_ctype struct_sched_avg"
  by (simp_all add: struct_sched_avg_def layout_simps)

definition struct_sched_entity :: ctype where
  "struct_sched_entity = CStruct [
     Mem ''load'' struct_load_weight, Mem ''run_node'' struct_rb_node, Mem ''deadline'' t_u64,
     Mem ''min_vruntime'' t_u64, Mem ''min_slice'' t_u64, Mem ''group_node'' struct_list_head,
     Mem ''on_rq'' CU8, Mem ''sched_delayed'' CU8, Mem ''rel_deadline'' CU8,
     Mem ''custom_slice'' CU8, Mem ''exec_start'' t_u64, Mem ''sum_exec_runtime'' t_u64,
     Mem ''prev_sum_exec_runtime'' t_u64, Mem ''vruntime'' t_u64,
     Mem '''' (CUnion [Mem ''vlag'' t_s64, Mem ''vprot'' t_u64]), Mem ''slice'' t_u64,
     Mem ''nr_migrations'' t_u64, Mem ''depth'' CU32, Mem ''parent'' CPtr, Mem ''cfs_rq'' CPtr,
     Mem ''my_q'' CPtr, Mem ''runnable_weight'' CU64, Bits '''' CU64 64,
     Mem ''avg'' struct_sched_avg]"

lemma layout_struct_sched_entity [layout_simps]:
  "sizeof struct_sched_entity = 256" "alignof struct_sched_entity = 8" "wf_ctype struct_sched_entity"
  by (simp_all add: struct_sched_entity_def layout_simps)

definition struct_sched_rt_entity :: ctype where
  "struct_sched_rt_entity = CStruct [
     Mem ''run_list'' struct_list_head, Mem ''timeout'' CU64, Mem ''watchdog_stamp'' CU64,
     Mem ''time_slice'' CU32, Mem ''on_rq'' CU16, Mem ''on_list'' CU16, Mem ''back'' CPtr]"

lemma layout_struct_sched_rt_entity [layout_simps]:
  "sizeof struct_sched_rt_entity = 48" "alignof struct_sched_rt_entity = 8" "wf_ctype struct_sched_rt_entity"
  by (simp_all add: struct_sched_rt_entity_def layout_simps)

abbreviation t_ktime_t :: ctype where
  "t_ktime_t \<equiv> t_s64"

definition struct_timerqueue_node :: ctype where
  "struct_timerqueue_node = CStruct [
     Mem ''node'' struct_rb_node, Mem ''expires'' t_ktime_t]"

lemma layout_struct_timerqueue_node [layout_simps]:
  "sizeof struct_timerqueue_node = 32" "alignof struct_timerqueue_node = 8" "wf_ctype struct_timerqueue_node"
  by (simp_all add: struct_timerqueue_node_def layout_simps)

definition struct_hrtimer :: ctype where
  "struct_hrtimer = CStruct [
     Mem ''node'' struct_timerqueue_node, Mem ''_softexpires'' t_ktime_t, Mem ''function'' CPtr,
     Mem ''base'' CPtr, Mem ''state'' t_u8, Mem ''is_rel'' t_u8, Mem ''is_soft'' t_u8,
     Mem ''is_hard'' t_u8]"

lemma layout_struct_hrtimer [layout_simps]:
  "sizeof struct_hrtimer = 64" "alignof struct_hrtimer = 8" "wf_ctype struct_hrtimer"
  by (simp_all add: struct_hrtimer_def layout_simps)

abbreviation t_dl_server_pick_f :: ctype where
  "t_dl_server_pick_f \<equiv> CPtr"

definition struct_sched_dl_entity :: ctype where
  "struct_sched_dl_entity = CStruct [
     Mem ''rb_node'' struct_rb_node, Mem ''dl_runtime'' t_u64, Mem ''dl_deadline'' t_u64,
     Mem ''dl_period'' t_u64, Mem ''dl_bw'' t_u64, Mem ''dl_density'' t_u64,
     Mem ''runtime'' t_s64, Mem ''deadline'' t_u64, Mem ''flags'' CU32,
     Bits ''dl_throttled'' CU32 1, Bits ''dl_yielded'' CU32 1, Bits ''dl_non_contending'' CU32 1,
     Bits ''dl_overrun'' CU32 1, Bits ''dl_server'' CU32 1, Bits ''dl_server_active'' CU32 1,
     Bits ''dl_defer'' CU32 1, Bits ''dl_defer_armed'' CU32 1, Bits ''dl_defer_running'' CU32 1,
     Mem ''dl_timer'' struct_hrtimer, Mem ''inactive_timer'' struct_hrtimer, Mem ''rq'' CPtr,
     Mem ''server_pick_task'' t_dl_server_pick_f, Mem ''pi_se'' CPtr]"

lemma layout_struct_sched_dl_entity [layout_simps]:
  "sizeof struct_sched_dl_entity = 240" "alignof struct_sched_dl_entity = 8" "wf_ctype struct_sched_dl_entity"
  by (simp_all add: struct_sched_dl_entity_def layout_simps)

definition struct_scx_dsq_list_node :: ctype where
  "struct_scx_dsq_list_node = CStruct [
     Mem ''node'' struct_list_head, Mem ''flags'' t_u32, Mem ''priv'' t_u32]"

lemma layout_struct_scx_dsq_list_node [layout_simps]:
  "sizeof struct_scx_dsq_list_node = 24" "alignof struct_scx_dsq_list_node = 8" "wf_ctype struct_scx_dsq_list_node"
  by (simp_all add: struct_scx_dsq_list_node_def layout_simps)

definition struct_sched_ext_entity :: ctype where
  "struct_sched_ext_entity = CStruct [
     Mem ''dsq'' CPtr, Mem ''dsq_list'' struct_scx_dsq_list_node, Mem ''dsq_priq'' struct_rb_node,
     Mem ''dsq_seq'' t_u32, Mem ''dsq_flags'' t_u32, Mem ''flags'' t_u32, Mem ''weight'' t_u32,
     Mem ''sticky_cpu'' t_s32, Mem ''holding_cpu'' t_s32, Mem ''selected_cpu'' t_s32,
     Mem ''kf_mask'' t_u32, Mem ''kf_tasks'' (CArr CPtr 2), Mem ''ops_state'' t_atomic_long_t,
     Mem ''runnable_node'' struct_list_head, Mem ''runnable_at'' CU64,
     Mem ''core_sched_at'' t_u64, Mem ''ddsp_dsq_id'' t_u64, Mem ''ddsp_enq_flags'' t_u64,
     Mem ''slice'' t_u64, Mem ''dsq_vtime'' t_u64, Mem ''disallow'' CU8,
     Mem ''cgrp_moving_from'' CPtr, Mem ''tasks_node'' struct_list_head]"

lemma layout_struct_sched_ext_entity [layout_simps]:
  "sizeof struct_sched_ext_entity = 208" "alignof struct_sched_ext_entity = 8" "wf_ctype struct_sched_ext_entity"
  by (simp_all add: struct_sched_ext_entity_def layout_simps)

definition struct_uclamp_se :: ctype where
  "struct_uclamp_se = CStruct [
     Bits ''value'' CU32 11, Bits ''bucket_id'' CU32 3, Bits ''active'' CU32 1,
     Bits ''user_defined'' CU32 1]"

lemma layout_struct_uclamp_se [layout_simps]:
  "sizeof struct_uclamp_se = 4" "alignof struct_uclamp_se = 4" "wf_ctype struct_uclamp_se"
  by (simp_all add: struct_uclamp_se_def layout_simps)

definition struct_sched_statistics :: ctype where
  "struct_sched_statistics = CStruct [
     Mem ''wait_start'' t_u64, Mem ''wait_max'' t_u64, Mem ''wait_count'' t_u64,
     Mem ''wait_sum'' t_u64, Mem ''iowait_count'' t_u64, Mem ''iowait_sum'' t_u64,
     Mem ''sleep_start'' t_u64, Mem ''sleep_max'' t_u64, Mem ''sum_sleep_runtime'' t_s64,
     Mem ''block_start'' t_u64, Mem ''block_max'' t_u64, Mem ''sum_block_runtime'' t_s64,
     Mem ''exec_max'' t_s64, Mem ''slice_max'' t_u64, Mem ''nr_migrations_cold'' t_u64,
     Mem ''nr_failed_migrations_affine'' t_u64, Mem ''nr_failed_migrations_running'' t_u64,
     Mem ''nr_failed_migrations_hot'' t_u64, Mem ''nr_forced_migrations'' t_u64,
     Mem ''nr_wakeups'' t_u64, Mem ''nr_wakeups_sync'' t_u64, Mem ''nr_wakeups_migrate'' t_u64,
     Mem ''nr_wakeups_local'' t_u64, Mem ''nr_wakeups_remote'' t_u64,
     Mem ''nr_wakeups_affine'' t_u64, Mem ''nr_wakeups_affine_attempts'' t_u64,
     Mem ''nr_wakeups_passive'' t_u64, Mem ''nr_wakeups_idle'' t_u64,
     Mem ''core_forceidle_sum'' t_u64, Bits '''' CU64 64, Bits '''' CU64 64, Bits '''' CU64 64]"

lemma layout_struct_sched_statistics [layout_simps]:
  "sizeof struct_sched_statistics = 256" "alignof struct_sched_statistics = 8" "wf_ctype struct_sched_statistics"
  by (simp_all add: struct_sched_statistics_def layout_simps)

definition struct_hlist_head :: ctype where
  "struct_hlist_head = CStruct [
     Mem ''first'' CPtr]"

lemma layout_struct_hlist_head [layout_simps]:
  "sizeof struct_hlist_head = 8" "alignof struct_hlist_head = 8" "wf_ctype struct_hlist_head"
  by (simp_all add: struct_hlist_head_def layout_simps)

definition struct_cpumask :: ctype where
  "struct_cpumask = CStruct [
     Mem ''bits'' (CArr CU64 8)]"

lemma layout_struct_cpumask [layout_simps]:
  "sizeof struct_cpumask = 64" "alignof struct_cpumask = 8" "wf_ctype struct_cpumask"
  by (simp_all add: struct_cpumask_def layout_simps)

abbreviation t_cpumask_t :: ctype where
  "t_cpumask_t \<equiv> struct_cpumask"

definition union_rcu_special :: ctype where
  "union_rcu_special = CUnion [
     Mem ''b'' (CStruct [
       Mem ''blocked'' t_u8, Mem ''need_qs'' t_u8, Mem ''exp_hint'' t_u8, Mem ''need_mb'' t_u8]),
     Mem ''s'' t_u32]"

lemma layout_union_rcu_special [layout_simps]:
  "sizeof union_rcu_special = 4" "alignof union_rcu_special = 4" "wf_ctype union_rcu_special"
  by (simp_all add: union_rcu_special_def layout_simps)

definition struct_sched_info :: ctype where
  "struct_sched_info = CStruct [
     Mem ''pcount'' CU64, Mem ''run_delay'' CU64, Mem ''max_run_delay'' CU64,
     Mem ''min_run_delay'' CU64, Mem ''last_arrival'' CU64, Mem ''last_queued'' CU64]"

lemma layout_struct_sched_info [layout_simps]:
  "sizeof struct_sched_info = 48" "alignof struct_sched_info = 8" "wf_ctype struct_sched_info"
  by (simp_all add: struct_sched_info_def layout_simps)

definition struct_plist_node :: ctype where
  "struct_plist_node = CStruct [
     Mem ''prio'' CU32, Mem ''prio_list'' struct_list_head, Mem ''node_list'' struct_list_head]"

lemma layout_struct_plist_node [layout_simps]:
  "sizeof struct_plist_node = 40" "alignof struct_plist_node = 8" "wf_ctype struct_plist_node"
  by (simp_all add: struct_plist_node_def layout_simps)

abbreviation t___kernel_clockid_t :: ctype where
  "t___kernel_clockid_t \<equiv> CU32"

abbreviation t_clockid_t :: ctype where
  "t_clockid_t \<equiv> t___kernel_clockid_t"

definition enum_timespec_type :: "(string \<times> int) list" where
  "enum_timespec_type = [
     (''TT_NONE'', 0), (''TT_NATIVE'', 1), (''TT_COMPAT'', 2)]"

definition struct_restart_block :: ctype where
  "struct_restart_block = CStruct [
     Mem ''arch_data'' CU64, Mem ''fn'' CPtr,
     Mem '''' (CUnion [
       Mem ''futex'' (CStruct [
         Mem ''uaddr'' CPtr, Mem ''val'' t_u32, Mem ''flags'' t_u32, Mem ''bitset'' t_u32,
         Mem ''time'' t_u64, Mem ''uaddr2'' CPtr]),
       Mem ''nanosleep'' (CStruct [
         Mem ''clockid'' t_clockid_t, Mem ''type'' CEnum,
         Mem '''' (CUnion [Mem ''rmtp'' CPtr, Mem ''compat_rmtp'' CPtr]), Mem ''expires'' t_u64]),
       Mem ''poll'' (CStruct [
         Mem ''ufds'' CPtr, Mem ''nfds'' CU32, Mem ''has_timeout'' CU32, Mem ''tv_sec'' CU64,
         Mem ''tv_nsec'' CU64])])]"

lemma layout_struct_restart_block [layout_simps]:
  "sizeof struct_restart_block = 56" "alignof struct_restart_block = 8" "wf_ctype struct_restart_block"
  by (simp_all add: struct_restart_block_def layout_simps)

abbreviation t___kernel_pid_t :: ctype where
  "t___kernel_pid_t \<equiv> CU32"

abbreviation t_pid_t :: ctype where
  "t_pid_t \<equiv> t___kernel_pid_t"

definition struct_prev_cputime :: ctype where
  "struct_prev_cputime = CStruct [
     Mem ''utime'' t_u64, Mem ''stime'' t_u64, Mem ''lock'' t_raw_spinlock_t]"

lemma layout_struct_prev_cputime [layout_simps]:
  "sizeof struct_prev_cputime = 24" "alignof struct_prev_cputime = 8" "wf_ctype struct_prev_cputime"
  by (simp_all add: struct_prev_cputime_def layout_simps)

definition enum_vtime_state :: "(string \<times> int) list" where
  "enum_vtime_state = [
     (''VTIME_INACTIVE'', 0), (''VTIME_IDLE'', 1), (''VTIME_SYS'', 2), (''VTIME_USER'', 3),
     (''VTIME_GUEST'', 4)]"

definition struct_vtime :: ctype where
  "struct_vtime = CStruct [
     Mem ''seqcount'' t_seqcount_t, Mem ''starttime'' CU64, Mem ''state'' CEnum, Mem ''cpu'' CU32,
     Mem ''utime'' t_u64, Mem ''stime'' t_u64, Mem ''gtime'' t_u64]"

lemma layout_struct_vtime [layout_simps]:
  "sizeof struct_vtime = 48" "alignof struct_vtime = 8" "wf_ctype struct_vtime"
  by (simp_all add: struct_vtime_def layout_simps)

definition struct_rb_root :: ctype where
  "struct_rb_root = CStruct [
     Mem ''rb_node'' CPtr]"

lemma layout_struct_rb_root [layout_simps]:
  "sizeof struct_rb_root = 8" "alignof struct_rb_root = 8" "wf_ctype struct_rb_root"
  by (simp_all add: struct_rb_root_def layout_simps)

definition struct_rb_root_cached :: ctype where
  "struct_rb_root_cached = CStruct [
     Mem ''rb_root'' struct_rb_root, Mem ''rb_leftmost'' CPtr]"

lemma layout_struct_rb_root_cached [layout_simps]:
  "sizeof struct_rb_root_cached = 16" "alignof struct_rb_root_cached = 8" "wf_ctype struct_rb_root_cached"
  by (simp_all add: struct_rb_root_cached_def layout_simps)

definition struct_timerqueue_head :: ctype where
  "struct_timerqueue_head = CStruct [
     Mem ''rb_root'' struct_rb_root_cached]"

lemma layout_struct_timerqueue_head [layout_simps]:
  "sizeof struct_timerqueue_head = 16" "alignof struct_timerqueue_head = 8" "wf_ctype struct_timerqueue_head"
  by (simp_all add: struct_timerqueue_head_def layout_simps)

definition struct_posix_cputimer_base :: ctype where
  "struct_posix_cputimer_base = CStruct [
     Mem ''nextevt'' t_u64, Mem ''tqhead'' struct_timerqueue_head]"

lemma layout_struct_posix_cputimer_base [layout_simps]:
  "sizeof struct_posix_cputimer_base = 24" "alignof struct_posix_cputimer_base = 8" "wf_ctype struct_posix_cputimer_base"
  by (simp_all add: struct_posix_cputimer_base_def layout_simps)

definition struct_posix_cputimers :: ctype where
  "struct_posix_cputimers = CStruct [
     Mem ''bases'' (CArr struct_posix_cputimer_base 3), Mem ''timers_active'' CU32,
     Mem ''expiry_active'' CU32]"

lemma layout_struct_posix_cputimers [layout_simps]:
  "sizeof struct_posix_cputimers = 80" "alignof struct_posix_cputimers = 8" "wf_ctype struct_posix_cputimers"
  by (simp_all add: struct_posix_cputimers_def layout_simps)

definition struct_mutex :: ctype where
  "struct_mutex = CStruct [
     Mem ''owner'' t_atomic_long_t, Mem ''wait_lock'' t_raw_spinlock_t,
     Mem ''osq'' struct_optimistic_spin_queue, Mem ''wait_list'' struct_list_head]"

lemma layout_struct_mutex [layout_simps]:
  "sizeof struct_mutex = 32" "alignof struct_mutex = 8" "wf_ctype struct_mutex"
  by (simp_all add: struct_mutex_def layout_simps)

definition struct_posix_cputimers_work :: ctype where
  "struct_posix_cputimers_work = CStruct [
     Mem ''work'' struct_callback_head, Mem ''mutex'' struct_mutex, Mem ''scheduled'' CU32]"

lemma layout_struct_posix_cputimers_work [layout_simps]:
  "sizeof struct_posix_cputimers_work = 56" "alignof struct_posix_cputimers_work = 8" "wf_ctype struct_posix_cputimers_work"
  by (simp_all add: struct_posix_cputimers_work_def layout_simps)

definition struct_sysv_sem :: ctype where
  "struct_sysv_sem = CStruct [
     Mem ''undo_list'' CPtr]"

lemma layout_struct_sysv_sem [layout_simps]:
  "sizeof struct_sysv_sem = 8" "alignof struct_sysv_sem = 8" "wf_ctype struct_sysv_sem"
  by (simp_all add: struct_sysv_sem_def layout_simps)

definition struct_sysv_shm :: ctype where
  "struct_sysv_shm = CStruct [
     Mem ''shm_clist'' struct_list_head]"

lemma layout_struct_sysv_shm [layout_simps]:
  "sizeof struct_sysv_shm = 16" "alignof struct_sysv_shm = 8" "wf_ctype struct_sysv_shm"
  by (simp_all add: struct_sysv_shm_def layout_simps)

definition t_sigset_t :: ctype where
  "t_sigset_t = CStruct [
     Mem ''sig'' (CArr CU64 1)]"

lemma layout_t_sigset_t [layout_simps]:
  "sizeof t_sigset_t = 8" "alignof t_sigset_t = 8" "wf_ctype t_sigset_t"
  by (simp_all add: t_sigset_t_def layout_simps)

definition struct_sigpending :: ctype where
  "struct_sigpending = CStruct [
     Mem ''list'' struct_list_head, Mem ''signal'' t_sigset_t]"

lemma layout_struct_sigpending [layout_simps]:
  "sizeof struct_sigpending = 24" "alignof struct_sigpending = 8" "wf_ctype struct_sigpending"
  by (simp_all add: struct_sigpending_def layout_simps)

abbreviation t___kernel_ulong_t :: ctype where
  "t___kernel_ulong_t \<equiv> CU64"

abbreviation t___kernel_size_t :: ctype where
  "t___kernel_size_t \<equiv> t___kernel_ulong_t"

abbreviation t_size_t :: ctype where
  "t_size_t \<equiv> t___kernel_size_t"

abbreviation t___kernel_uid32_t :: ctype where
  "t___kernel_uid32_t \<equiv> CU32"

abbreviation t_uid_t :: ctype where
  "t_uid_t \<equiv> t___kernel_uid32_t"

definition t_kuid_t :: ctype where
  "t_kuid_t = CStruct [
     Mem ''val'' t_uid_t]"

lemma layout_t_kuid_t [layout_simps]:
  "sizeof t_kuid_t = 4" "alignof t_kuid_t = 4" "wf_ctype t_kuid_t"
  by (simp_all add: t_kuid_t_def layout_simps)

definition struct_seccomp :: ctype where
  "struct_seccomp = CStruct [
     Mem ''mode'' CU32, Mem ''filter_count'' t_atomic_t, Mem ''filter'' CPtr]"

lemma layout_struct_seccomp [layout_simps]:
  "sizeof struct_seccomp = 16" "alignof struct_seccomp = 8" "wf_ctype struct_seccomp"
  by (simp_all add: struct_seccomp_def layout_simps)

definition struct_syscall_user_dispatch :: ctype where
  "struct_syscall_user_dispatch = CStruct []"

lemma layout_struct_syscall_user_dispatch [layout_simps]:
  "sizeof struct_syscall_user_dispatch = 0" "alignof struct_syscall_user_dispatch = 1" "wf_ctype struct_syscall_user_dispatch"
  by (simp_all add: struct_syscall_user_dispatch_def layout_simps)

definition struct_spinlock :: ctype where
  "struct_spinlock = CStruct [
     Mem '''' (CUnion [Mem ''rlock'' struct_raw_spinlock])]"

lemma layout_struct_spinlock [layout_simps]:
  "sizeof struct_spinlock = 4" "alignof struct_spinlock = 4" "wf_ctype struct_spinlock"
  by (simp_all add: struct_spinlock_def layout_simps)

abbreviation t_spinlock_t :: ctype where
  "t_spinlock_t \<equiv> struct_spinlock"

definition struct_wake_q_node :: ctype where
  "struct_wake_q_node = CStruct [
     Mem ''next'' CPtr]"

lemma layout_struct_wake_q_node [layout_simps]:
  "sizeof struct_wake_q_node = 8" "alignof struct_wake_q_node = 8" "wf_ctype struct_wake_q_node"
  by (simp_all add: struct_wake_q_node_def layout_simps)

definition struct_task_io_accounting :: ctype where
  "struct_task_io_accounting = CStruct [
     Mem ''rchar'' t_u64, Mem ''wchar'' t_u64, Mem ''syscr'' t_u64, Mem ''syscw'' t_u64,
     Mem ''read_bytes'' t_u64, Mem ''write_bytes'' t_u64, Mem ''cancelled_write_bytes'' t_u64]"

lemma layout_struct_task_io_accounting [layout_simps]:
  "sizeof struct_task_io_accounting = 56" "alignof struct_task_io_accounting = 8" "wf_ctype struct_task_io_accounting"
  by (simp_all add: struct_task_io_accounting_def layout_simps)

definition t_nodemask_t :: ctype where
  "t_nodemask_t = CStruct [
     Mem ''bits'' (CArr CU64 1)]"

lemma layout_t_nodemask_t [layout_simps]:
  "sizeof t_nodemask_t = 8" "alignof t_nodemask_t = 8" "wf_ctype t_nodemask_t"
  by (simp_all add: t_nodemask_t_def layout_simps)

definition struct_seqcount_spinlock :: ctype where
  "struct_seqcount_spinlock = CStruct [
     Mem ''seqcount'' t_seqcount_t]"

lemma layout_struct_seqcount_spinlock [layout_simps]:
  "sizeof struct_seqcount_spinlock = 4" "alignof struct_seqcount_spinlock = 4" "wf_ctype struct_seqcount_spinlock"
  by (simp_all add: struct_seqcount_spinlock_def layout_simps)

abbreviation t_seqcount_spinlock_t :: ctype where
  "t_seqcount_spinlock_t \<equiv> struct_seqcount_spinlock"

definition struct_arch_tlbflush_unmap_batch :: ctype where
  "struct_arch_tlbflush_unmap_batch = CStruct []"

lemma layout_struct_arch_tlbflush_unmap_batch [layout_simps]:
  "sizeof struct_arch_tlbflush_unmap_batch = 0" "alignof struct_arch_tlbflush_unmap_batch = 1" "wf_ctype struct_arch_tlbflush_unmap_batch"
  by (simp_all add: struct_arch_tlbflush_unmap_batch_def layout_simps)

definition struct_tlbflush_unmap_batch :: ctype where
  "struct_tlbflush_unmap_batch = CStruct [
     Mem ''arch'' struct_arch_tlbflush_unmap_batch, Mem ''flush_required'' CU8,
     Mem ''writable'' CU8]"

lemma layout_struct_tlbflush_unmap_batch [layout_simps]:
  "sizeof struct_tlbflush_unmap_batch = 2" "alignof struct_tlbflush_unmap_batch = 1" "wf_ctype struct_tlbflush_unmap_batch"
  by (simp_all add: struct_tlbflush_unmap_batch_def layout_simps)

definition struct_page_frag :: ctype where
  "struct_page_frag = CStruct [
     Mem ''page'' CPtr, Mem ''offset'' t___u32, Mem ''size'' t___u32]"

lemma layout_struct_page_frag [layout_simps]:
  "sizeof struct_page_frag = 16" "alignof struct_page_frag = 8" "wf_ctype struct_page_frag"
  by (simp_all add: struct_page_frag_def layout_simps)

definition struct_latency_record :: ctype where
  "struct_latency_record = CStruct [
     Mem ''backtrace'' (CArr CU64 12), Mem ''count'' CU32, Mem ''time'' CU64, Mem ''max'' CU64]"

lemma layout_struct_latency_record [layout_simps]:
  "sizeof struct_latency_record = 120" "alignof struct_latency_record = 8" "wf_ctype struct_latency_record"
  by (simp_all add: struct_latency_record_def layout_simps)

definition struct_kmap_ctrl :: ctype where
  "struct_kmap_ctrl = CStruct []"

lemma layout_struct_kmap_ctrl [layout_simps]:
  "sizeof struct_kmap_ctrl = 0" "alignof struct_kmap_ctrl = 1" "wf_ctype struct_kmap_ctrl"
  by (simp_all add: struct_kmap_ctrl_def layout_simps)

definition struct_llist_head :: ctype where
  "struct_llist_head = CStruct [
     Mem ''first'' CPtr]"

lemma layout_struct_llist_head [layout_simps]:
  "sizeof struct_llist_head = 8" "alignof struct_llist_head = 8" "wf_ctype struct_llist_head"
  by (simp_all add: struct_llist_head_def layout_simps)

definition struct_cpu_context :: ctype where
  "struct_cpu_context = CStruct [
     Mem ''x19'' CU64, Mem ''x20'' CU64, Mem ''x21'' CU64, Mem ''x22'' CU64, Mem ''x23'' CU64,
     Mem ''x24'' CU64, Mem ''x25'' CU64, Mem ''x26'' CU64, Mem ''x27'' CU64, Mem ''x28'' CU64,
     Mem ''fp'' CU64, Mem ''sp'' CU64, Mem ''pc'' CU64]"

lemma layout_struct_cpu_context [layout_simps]:
  "sizeof struct_cpu_context = 104" "alignof struct_cpu_context = 8" "wf_ctype struct_cpu_context"
  by (simp_all add: struct_cpu_context_def layout_simps)

definition struct_user_fpsimd_state :: ctype where
  "struct_user_fpsimd_state = CStruct [
     Mem ''vregs'' (CArr (CInt 16) 32), Mem ''fpsr'' t___u32, Mem ''fpcr'' t___u32,
     Mem ''__reserved'' (CArr t___u32 2)]"

lemma layout_struct_user_fpsimd_state [layout_simps]:
  "sizeof struct_user_fpsimd_state = 528" "alignof struct_user_fpsimd_state = 16" "wf_ctype struct_user_fpsimd_state"
  by (simp_all add: struct_user_fpsimd_state_def layout_simps)

definition enum_fp_type :: "(string \<times> int) list" where
  "enum_fp_type = [
     (''FP_STATE_CURRENT'', 0), (''FP_STATE_FPSIMD'', 1), (''FP_STATE_SVE'', 2)]"

definition struct_debug_info :: ctype where
  "struct_debug_info = CStruct [
     Mem ''suspended_step'' CU32, Mem ''bps_disabled'' CU32, Mem ''wps_disabled'' CU32,
     Mem ''hbp_break'' (CArr CPtr 16), Mem ''hbp_watch'' (CArr CPtr 16)]"

lemma layout_struct_debug_info [layout_simps]:
  "sizeof struct_debug_info = 272" "alignof struct_debug_info = 8" "wf_ctype struct_debug_info"
  by (simp_all add: struct_debug_info_def layout_simps)

definition struct_ptrauth_key :: ctype where
  "struct_ptrauth_key = CStruct [
     Mem ''lo'' CU64, Mem ''hi'' CU64]"

lemma layout_struct_ptrauth_key [layout_simps]:
  "sizeof struct_ptrauth_key = 16" "alignof struct_ptrauth_key = 8" "wf_ctype struct_ptrauth_key"
  by (simp_all add: struct_ptrauth_key_def layout_simps)

definition struct_ptrauth_keys_user :: ctype where
  "struct_ptrauth_keys_user = CStruct [
     Mem ''apia'' struct_ptrauth_key, Mem ''apib'' struct_ptrauth_key,
     Mem ''apda'' struct_ptrauth_key, Mem ''apdb'' struct_ptrauth_key,
     Mem ''apga'' struct_ptrauth_key]"

lemma layout_struct_ptrauth_keys_user [layout_simps]:
  "sizeof struct_ptrauth_keys_user = 80" "alignof struct_ptrauth_keys_user = 8" "wf_ctype struct_ptrauth_keys_user"
  by (simp_all add: struct_ptrauth_keys_user_def layout_simps)

definition struct_ptrauth_keys_kernel :: ctype where
  "struct_ptrauth_keys_kernel = CStruct [
     Mem ''apia'' struct_ptrauth_key]"

lemma layout_struct_ptrauth_keys_kernel [layout_simps]:
  "sizeof struct_ptrauth_keys_kernel = 16" "alignof struct_ptrauth_keys_kernel = 8" "wf_ctype struct_ptrauth_keys_kernel"
  by (simp_all add: struct_ptrauth_keys_kernel_def layout_simps)

definition struct_thread_struct :: ctype where
  "struct_thread_struct = CStruct [
     Mem ''cpu_context'' struct_cpu_context, Bits '''' CU64 64,
     Mem ''uw'' (CStruct [
       Mem ''tp_value'' CU64, Mem ''tp2_value'' CU64, Mem ''fpmr'' t_u64, Mem ''pad'' CU64,
       Mem ''fpsimd_state'' struct_user_fpsimd_state]),
     Mem ''fp_type'' CEnum, Mem ''fpsimd_cpu'' CU32, Mem ''sve_state'' CPtr,
     Mem ''sme_state'' CPtr, Mem ''vl'' (CArr CU32 2), Mem ''vl_onexec'' (CArr CU32 2),
     Mem ''fault_address'' CU64, Mem ''fault_code'' CU64, Mem ''debug'' struct_debug_info,
     Bits '''' CU64 64, Mem ''kernel_fpsimd_state'' struct_user_fpsimd_state,
     Mem ''kernel_fpsimd_cpu'' CU32, Mem ''keys_user'' struct_ptrauth_keys_user,
     Mem ''keys_kernel'' struct_ptrauth_keys_kernel, Mem ''mte_ctrl'' t_u64,
     Mem ''sctlr_user'' t_u64, Mem ''svcr'' t_u64, Mem ''tpidr2_el0'' t_u64, Mem ''por_el0'' t_u64]"

lemma layout_struct_thread_struct [layout_simps]:
  "sizeof struct_thread_struct = 1680" "alignof struct_thread_struct = 16" "wf_ctype struct_thread_struct"
  by (simp_all add: struct_thread_struct_def layout_simps)

definition struct_task_struct_members_1 :: "cmember list" where
  "struct_task_struct_members_1 = [
     Mem ''thread_info'' struct_thread_info, Mem ''__state'' CU32, Mem ''saved_state'' CU32,
     Mem ''stack'' CPtr, Mem ''usage'' t_refcount_t, Mem ''flags'' CU32, Mem ''ptrace'' CU32,
     Mem ''on_cpu'' CU32, Mem ''wake_entry'' struct___call_single_node, Mem ''wakee_flips'' CU32,
     Mem ''wakee_flip_decay_ts'' CU64, Mem ''last_wakee'' CPtr, Mem ''recent_used_cpu'' CU32,
     Mem ''wake_cpu'' CU32, Mem ''on_rq'' CU32, Mem ''prio'' CU32, Mem ''static_prio'' CU32,
     Mem ''normal_prio'' CU32, Mem ''rt_priority'' CU32, Bits '''' CU64 64, Bits '''' CU64 64,
     Bits '''' CU64 64, Bits '''' CU64 64, Bits '''' CU64 64, Mem ''se'' struct_sched_entity,
     Mem ''rt'' struct_sched_rt_entity, Mem ''dl'' struct_sched_dl_entity, Mem ''dl_server'' CPtr,
     Mem ''scx'' struct_sched_ext_entity, Mem ''sched_class'' CPtr,
     Mem ''core_node'' struct_rb_node, Mem ''core_cookie'' CU64, Mem ''core_occupation'' CU32,
     Mem ''sched_task_group'' CPtr, Mem ''uclamp_req'' (CArr struct_uclamp_se 2),
     Mem ''uclamp'' (CArr struct_uclamp_se 2), Mem ''stats'' struct_sched_statistics,
     Mem ''preempt_notifiers'' struct_hlist_head, Mem ''btrace_seq'' CU32, Mem ''policy'' CU32,
     Mem ''max_allowed_capacity'' CU64, Mem ''nr_cpus_allowed'' CU32, Mem ''cpus_ptr'' CPtr,
     Mem ''user_cpus_ptr'' CPtr, Mem ''cpus_mask'' t_cpumask_t, Mem ''migration_pending'' CPtr,
     Mem ''migration_disabled'' CU16, Mem ''migration_flags'' CU16,
     Mem ''trc_reader_nesting'' CU32, Mem ''trc_ipi_to_cpu'' CU32,
     Mem ''trc_reader_special'' union_rcu_special, Mem ''trc_holdout_list'' struct_list_head,
     Mem ''trc_blkd_node'' struct_list_head, Mem ''trc_blkd_cpu'' CU32,
     Mem ''sched_info'' struct_sched_info, Mem ''tasks'' struct_list_head,
     Mem ''pushable_tasks'' struct_plist_node, Mem ''pushable_dl_tasks'' struct_rb_node,
     Mem ''mm'' CPtr, Mem ''active_mm'' CPtr, Mem ''faults_disabled_mapping'' CPtr,
     Mem ''exit_state'' CU32, Mem ''exit_code'' CU32, Mem ''exit_signal'' CU32,
     Mem ''pdeath_signal'' CU32, Mem ''jobctl'' CU64, Mem ''personality'' CU32,
     Bits ''sched_reset_on_fork'' CU32 1, Bits ''sched_contributes_to_load'' CU32 1,
     Bits ''sched_migrated'' CU32 1, Bits ''sched_task_hot'' CU32 1, Bits '''' CU64 28,
     Bits ''sched_remote_wakeup'' CU32 1, Bits ''sched_rt_mutex'' CU32 1,
     Bits ''user_dumpable'' CU32 1, Bits ''in_execve'' CU32 1, Bits ''in_iowait'' CU32 1,
     Bits ''in_user_fault'' CU32 1, Bits ''in_lru_fault'' CU32 1,
     Bits ''no_cgroup_migration'' CU32 1, Bits ''frozen'' CU32 1, Bits ''use_memdelay'' CU32 1,
     Bits ''in_memstall'' CU32 1, Bits ''in_eventfd'' CU32 1, Bits ''in_thrashing'' CU32 1,
     Bits ''in_nf_duplicate'' CU32 1, Mem ''atomic_flags'' CU64,
     Mem ''restart_block'' struct_restart_block, Mem ''pid'' t_pid_t, Mem ''tgid'' t_pid_t,
     Mem ''stack_canary'' CU64, Mem ''real_parent'' CPtr, Mem ''parent'' CPtr,
     Mem ''children'' struct_list_head, Mem ''sibling'' struct_list_head,
     Mem ''group_leader'' CPtr, Mem ''ptraced'' struct_list_head,
     Mem ''ptrace_entry'' struct_list_head, Mem ''thread_pid'' CPtr,
     Mem ''pid_links'' (CArr struct_hlist_node 4), Mem ''thread_node'' struct_list_head,
     Mem ''vfork_done'' CPtr, Mem ''set_child_tid'' CPtr, Mem ''clear_child_tid'' CPtr,
     Mem ''worker_private'' CPtr, Mem ''utime'' t_u64, Mem ''stime'' t_u64, Mem ''gtime'' t_u64,
     Mem ''prev_cputime'' struct_prev_cputime, Mem ''vtime'' struct_vtime,
     Mem ''tick_dep_mask'' t_atomic_t, Mem ''nvcsw'' CU64, Mem ''nivcsw'' CU64,
     Mem ''start_time'' t_u64, Mem ''start_boottime'' t_u64, Mem ''min_flt'' CU64,
     Mem ''maj_flt'' CU64, Mem ''posix_cputimers'' struct_posix_cputimers,
     Mem ''posix_cputimers_work'' struct_posix_cputimers_work, Mem ''ptracer_cred'' CPtr,
     Mem ''real_cred'' CPtr, Mem ''cred'' CPtr, Mem ''cached_requested_key'' CPtr,
     Mem ''comm'' (CArr CU8 16), Mem ''nameidata'' CPtr, Mem ''sysvsem'' struct_sysv_sem,
     Mem ''sysvshm'' struct_sysv_shm, Mem ''last_switch_count'' CU64,
     Mem ''last_switch_time'' CU64]"

definition struct_task_struct_members_2 :: "cmember list" where
  "struct_task_struct_members_2 = [
     Mem ''fs'' CPtr, Mem ''files'' CPtr, Mem ''io_uring'' CPtr, Mem ''nsproxy'' CPtr,
     Mem ''signal'' CPtr, Mem ''sighand'' CPtr, Mem ''blocked'' t_sigset_t,
     Mem ''real_blocked'' t_sigset_t, Mem ''saved_sigmask'' t_sigset_t,
     Mem ''pending'' struct_sigpending, Mem ''sas_ss_sp'' CU64, Mem ''sas_ss_size'' t_size_t,
     Mem ''sas_ss_flags'' CU32, Mem ''task_works'' CPtr, Mem ''audit_context'' CPtr,
     Mem ''loginuid'' t_kuid_t, Mem ''sessionid'' CU32, Mem ''seccomp'' struct_seccomp,
     Mem ''syscall_dispatch'' struct_syscall_user_dispatch, Mem ''parent_exec_id'' t_u64,
     Mem ''self_exec_id'' t_u64, Mem ''alloc_lock'' t_spinlock_t,
     Mem ''pi_lock'' t_raw_spinlock_t, Mem ''wake_q'' struct_wake_q_node,
     Mem ''pi_waiters'' struct_rb_root_cached, Mem ''pi_top_task'' CPtr,
     Mem ''pi_blocked_on'' CPtr, Mem ''blocked_on'' CPtr, Mem ''blocker'' CU64,
     Mem ''in_ubsan'' CU32, Mem ''journal_info'' CPtr, Mem ''bio_list'' CPtr, Mem ''plug'' CPtr,
     Mem ''reclaim_state'' CPtr, Mem ''io_context'' CPtr, Mem ''capture_control'' CPtr,
     Mem ''ptrace_message'' CU64, Mem ''last_siginfo'' CPtr,
     Mem ''ioac'' struct_task_io_accounting, Mem ''psi_flags'' CU32, Mem ''acct_rss_mem1'' t_u64,
     Mem ''acct_vm_mem1'' t_u64, Mem ''acct_timexpd'' t_u64, Mem ''mems_allowed'' t_nodemask_t,
     Mem ''mems_allowed_seq'' t_seqcount_spinlock_t, Mem ''cpuset_mem_spread_rotor'' CU32,
     Mem ''cgroups'' CPtr, Mem ''cg_list'' struct_list_head, Mem ''robust_list'' CPtr,
     Mem ''compat_robust_list'' CPtr, Mem ''pi_state_list'' struct_list_head,
     Mem ''pi_state_cache'' CPtr, Mem ''futex_exit_mutex'' struct_mutex, Mem ''futex_state'' CU32,
     Mem ''perf_recursion'' (CArr t_u8 4), Mem ''perf_event_ctxp'' CPtr,
     Mem ''perf_event_mutex'' struct_mutex, Mem ''perf_event_list'' struct_list_head,
     Mem ''perf_ctx_data'' CPtr, Mem ''mempolicy'' CPtr, Mem ''il_prev'' CU16,
     Mem ''il_weight'' t_u8, Mem ''pref_node_fork'' CU16, Mem ''numa_scan_seq'' CU32,
     Mem ''numa_scan_period'' CU32, Mem ''numa_scan_period_max'' CU32,
     Mem ''numa_preferred_nid'' CU32, Mem ''numa_migrate_retry'' CU64, Mem ''node_stamp'' t_u64,
     Mem ''last_task_numa_placement'' t_u64, Mem ''last_sum_exec_runtime'' t_u64,
     Mem ''numa_work'' struct_callback_head, Mem ''numa_group'' CPtr, Mem ''numa_faults'' CPtr,
     Mem ''total_numa_faults'' CU64, Mem ''numa_faults_locality'' (CArr CU64 3),
     Mem ''numa_pages_migrated'' CU64, Mem ''rseq'' CPtr, Mem ''rseq_len'' t_u32,
     Mem ''rseq_sig'' t_u32, Mem ''rseq_event_mask'' CU64, Mem ''mm_cid'' CU32,
     Mem ''last_mm_cid'' CU32, Mem ''migrate_from_cpu'' CU32, Mem ''mm_cid_active'' CU32,
     Mem ''cid_work'' struct_callback_head, Mem ''tlb_ubc'' struct_tlbflush_unmap_batch,
     Mem ''splice_pipe'' CPtr, Mem ''task_frag'' struct_page_frag, Mem ''delays'' CPtr,
     Mem ''nr_dirtied'' CU32, Mem ''nr_dirtied_pause'' CU32, Mem ''dirty_paused_when'' CU64,
     Mem ''latency_record_count'' CU32, Mem ''latency_record'' (CArr struct_latency_record 32),
     Mem ''timer_slack_ns'' t_u64, Mem ''default_timer_slack_ns'' t_u64,
     Mem ''curr_ret_stack'' CU32, Mem ''curr_ret_depth'' CU32, Mem ''ret_stack'' CPtr,
     Mem ''ftrace_timestamp'' CU64, Mem ''ftrace_sleeptime'' CU64,
     Mem ''trace_overrun'' t_atomic_t, Mem ''tracing_graph_pause'' t_atomic_t,
     Mem ''trace_recursion'' CU64, Mem ''memcg_in_oom'' CPtr,
     Mem ''memcg_nr_pages_over_high'' CU32, Mem ''active_memcg'' CPtr, Mem ''objcg'' CPtr,
     Mem ''throttle_disk'' CPtr, Mem ''utask'' CPtr, Mem ''sequential_io'' CU32,
     Mem ''sequential_io_avg'' CU32, Mem ''kmap_ctrl'' struct_kmap_ctrl,
     Mem ''rcu'' struct_callback_head, Mem ''rcu_users'' t_refcount_t,
     Mem ''pagefault_disabled'' CU32, Mem ''oom_reaper_list'' CPtr,
     Mem ''oom_reaper_timer'' struct_timer_list, Mem ''stack_vm_area'' CPtr,
     Mem ''stack_refcount'' t_refcount_t, Mem ''patch_state'' CU32, Mem ''security'' CPtr,
     Mem ''bpf_storage'' CPtr, Mem ''bpf_ctx'' CPtr, Mem ''bpf_net_context'' CPtr,
     Mem ''kretprobe_instances'' struct_llist_head, Mem ''user_event_mm'' CPtr, Bits '''' CU64 64,
     Mem ''thread'' struct_thread_struct]"

definition struct_task_struct_members_3 :: "cmember list" where
  "struct_task_struct_members_3 = [
     Bits '''' CU64 64, Bits '''' CU64 64]"

definition struct_task_struct :: ctype where
  "struct_task_struct = CStruct (struct_task_struct_members_1 @ struct_task_struct_members_2 @ struct_task_struct_members_3)"

lemma layout_struct_task_struct [layout_simps]:
  "sizeof struct_task_struct = 8960" "alignof struct_task_struct = 16" "wf_ctype struct_task_struct"
  by (simp_all add: struct_task_struct_def struct_task_struct_members_1_def struct_task_struct_members_2_def struct_task_struct_members_3_def layout_simps)

definition enum_perf_event_state :: "(string \<times> int) list" where
  "enum_perf_event_state = [
     (''PERF_EVENT_STATE_DEAD'', -5), (''PERF_EVENT_STATE_REVOKED'', -4),
     (''PERF_EVENT_STATE_EXIT'', -3), (''PERF_EVENT_STATE_ERROR'', -2),
     (''PERF_EVENT_STATE_OFF'', -1), (''PERF_EVENT_STATE_INACTIVE'', 0),
     (''PERF_EVENT_STATE_ACTIVE'', 1)]"

definition t_local_t :: ctype where
  "t_local_t = CStruct [
     Mem ''a'' t_atomic_long_t]"

lemma layout_t_local_t [layout_simps]:
  "sizeof t_local_t = 8" "alignof t_local_t = 8" "wf_ctype t_local_t"
  by (simp_all add: t_local_t_def layout_simps)

definition t_local64_t :: ctype where
  "t_local64_t = CStruct [
     Mem ''a'' t_local_t]"

lemma layout_t_local64_t [layout_simps]:
  "sizeof t_local64_t = 8" "alignof t_local64_t = 8" "wf_ctype t_local64_t"
  by (simp_all add: t_local64_t_def layout_simps)

definition struct_perf_event_attr :: ctype where
  "struct_perf_event_attr = CStruct [
     Mem ''type'' t___u32, Mem ''size'' t___u32, Mem ''config'' t___u64,
     Mem '''' (CUnion [
       Mem ''sample_period'' t___u64, Mem ''sample_freq'' t___u64]),
     Mem ''sample_type'' t___u64, Mem ''read_format'' t___u64, Bits ''disabled'' t___u64 1,
     Bits ''inherit'' t___u64 1, Bits ''pinned'' t___u64 1, Bits ''exclusive'' t___u64 1,
     Bits ''exclude_user'' t___u64 1, Bits ''exclude_kernel'' t___u64 1,
     Bits ''exclude_hv'' t___u64 1, Bits ''exclude_idle'' t___u64 1, Bits ''mmap'' t___u64 1,
     Bits ''comm'' t___u64 1, Bits ''freq'' t___u64 1, Bits ''inherit_stat'' t___u64 1,
     Bits ''enable_on_exec'' t___u64 1, Bits ''task'' t___u64 1, Bits ''watermark'' t___u64 1,
     Bits ''precise_ip'' t___u64 2, Bits ''mmap_data'' t___u64 1,
     Bits ''sample_id_all'' t___u64 1, Bits ''exclude_host'' t___u64 1,
     Bits ''exclude_guest'' t___u64 1, Bits ''exclude_callchain_kernel'' t___u64 1,
     Bits ''exclude_callchain_user'' t___u64 1, Bits ''mmap2'' t___u64 1,
     Bits ''comm_exec'' t___u64 1, Bits ''use_clockid'' t___u64 1,
     Bits ''context_switch'' t___u64 1, Bits ''write_backward'' t___u64 1,
     Bits ''namespaces'' t___u64 1, Bits ''ksymbol'' t___u64 1, Bits ''bpf_event'' t___u64 1,
     Bits ''aux_output'' t___u64 1, Bits ''cgroup'' t___u64 1, Bits ''text_poke'' t___u64 1,
     Bits ''build_id'' t___u64 1, Bits ''inherit_thread'' t___u64 1,
     Bits ''remove_on_exec'' t___u64 1, Bits ''sigtrap'' t___u64 1,
     Bits ''__reserved_1'' t___u64 26,
     Mem '''' (CUnion [
       Mem ''wakeup_events'' t___u32, Mem ''wakeup_watermark'' t___u32]),
     Mem ''bp_type'' t___u32,
     Mem '''' (CUnion [
       Mem ''bp_addr'' t___u64, Mem ''kprobe_func'' t___u64, Mem ''uprobe_path'' t___u64,
       Mem ''config1'' t___u64]),
     Mem '''' (CUnion [
       Mem ''bp_len'' t___u64, Mem ''kprobe_addr'' t___u64, Mem ''probe_offset'' t___u64,
       Mem ''config2'' t___u64]),
     Mem ''branch_sample_type'' t___u64, Mem ''sample_regs_user'' t___u64,
     Mem ''sample_stack_user'' t___u32, Mem ''clockid'' t___s32, Mem ''sample_regs_intr'' t___u64,
     Mem ''aux_watermark'' t___u32, Mem ''sample_max_stack'' t___u16,
     Mem ''__reserved_2'' t___u16, Mem ''aux_sample_size'' t___u32,
     Mem '''' (CUnion [
       Mem ''aux_action'' t___u32,
       Mem '''' (CStruct [
         Bits ''aux_start_paused'' t___u32 1, Bits ''aux_pause'' t___u32 1,
         Bits ''aux_resume'' t___u32 1, Bits ''__reserved_3'' t___u32 29])]),
     Mem ''sig_data'' t___u64, Mem ''config3'' t___u64]"

lemma layout_struct_perf_event_attr [layout_simps]:
  "sizeof struct_perf_event_attr = 136" "alignof struct_perf_event_attr = 8" "wf_ctype struct_perf_event_attr"
  by (simp_all add: struct_perf_event_attr_def layout_simps)

definition struct_hw_perf_event_extra :: ctype where
  "struct_hw_perf_event_extra = CStruct [
     Mem ''config'' t_u64, Mem ''reg'' CU32, Mem ''alloc'' CU32, Mem ''idx'' CU32]"

lemma layout_struct_hw_perf_event_extra [layout_simps]:
  "sizeof struct_hw_perf_event_extra = 24" "alignof struct_hw_perf_event_extra = 8" "wf_ctype struct_hw_perf_event_extra"
  by (simp_all add: struct_hw_perf_event_extra_def layout_simps)

definition struct_arch_hw_breakpoint_ctrl :: ctype where
  "struct_arch_hw_breakpoint_ctrl = CStruct [
     Bits ''__reserved'' t_u32 19, Bits ''len'' t_u32 8, Bits ''type'' t_u32 2,
     Bits ''privilege'' t_u32 2, Bits ''enabled'' t_u32 1]"

lemma layout_struct_arch_hw_breakpoint_ctrl [layout_simps]:
  "sizeof struct_arch_hw_breakpoint_ctrl = 4" "alignof struct_arch_hw_breakpoint_ctrl = 4" "wf_ctype struct_arch_hw_breakpoint_ctrl"
  by (simp_all add: struct_arch_hw_breakpoint_ctrl_def layout_simps)

definition struct_arch_hw_breakpoint :: ctype where
  "struct_arch_hw_breakpoint = CStruct [
     Mem ''address'' t_u64, Mem ''trigger'' t_u64, Mem ''ctrl'' struct_arch_hw_breakpoint_ctrl]"

lemma layout_struct_arch_hw_breakpoint [layout_simps]:
  "sizeof struct_arch_hw_breakpoint = 24" "alignof struct_arch_hw_breakpoint = 8" "wf_ctype struct_arch_hw_breakpoint"
  by (simp_all add: struct_arch_hw_breakpoint_def layout_simps)

definition struct_rhash_head :: ctype where
  "struct_rhash_head = CStruct [
     Mem ''next'' CPtr]"

lemma layout_struct_rhash_head [layout_simps]:
  "sizeof struct_rhash_head = 8" "alignof struct_rhash_head = 8" "wf_ctype struct_rhash_head"
  by (simp_all add: struct_rhash_head_def layout_simps)

definition struct_rhlist_head :: ctype where
  "struct_rhlist_head = CStruct [
     Mem ''rhead'' struct_rhash_head, Mem ''next'' CPtr]"

lemma layout_struct_rhlist_head [layout_simps]:
  "sizeof struct_rhlist_head = 16" "alignof struct_rhlist_head = 8" "wf_ctype struct_rhlist_head"
  by (simp_all add: struct_rhlist_head_def layout_simps)

definition struct_hw_perf_event :: ctype where
  "struct_hw_perf_event = CStruct [
     Mem '''' (CUnion [
       Mem '''' (CStruct [
         Mem ''config'' t_u64, Mem ''config1'' t_u64, Mem ''last_tag'' t_u64,
         Mem ''dyn_constraint'' t_u64, Mem ''config_base'' CU64, Mem ''event_base'' CU64,
         Mem ''event_base_rdpmc'' CU32, Mem ''idx'' CU32, Mem ''last_cpu'' CU32,
         Mem ''flags'' CU32, Mem ''extra_reg'' struct_hw_perf_event_extra,
         Mem ''branch_reg'' struct_hw_perf_event_extra]),
       Mem '''' (CStruct [Mem ''aux_config'' t_u64, Mem ''aux_paused'' CU32]),
       Mem '''' (CStruct [Mem ''hrtimer'' struct_hrtimer]),
       Mem '''' (CStruct [Mem ''tp_list'' struct_list_head]),
       Mem '''' (CStruct [Mem ''pwr_acc'' t_u64, Mem ''ptsc'' t_u64]),
       Mem '''' (CStruct [
         Mem ''info'' struct_arch_hw_breakpoint, Mem ''bp_list'' struct_rhlist_head]),
       Mem '''' (CStruct [
         Mem ''iommu_bank'' t_u8, Mem ''iommu_cntr'' t_u8, Mem ''padding'' t_u16,
         Mem ''conf'' t_u64, Mem ''conf1'' t_u64])]),
     Mem ''target'' CPtr, Mem ''addr_filters'' CPtr, Mem ''addr_filters_gen'' CU64,
     Mem ''state'' CU32, Mem ''prev_count'' t_local64_t, Mem ''sample_period'' t_u64,
     Mem '''' (CUnion [
       Mem '''' (CStruct [
         Mem ''last_period'' t_u64, Mem ''period_left'' t_local64_t]),
       Mem '''' (CStruct [
         Mem ''saved_metric'' t_u64, Mem ''saved_slots'' t_u64])]),
     Mem ''interrupts_seq'' t_u64, Mem ''interrupts'' t_u64, Mem ''freq_time_stamp'' t_u64,
     Mem ''freq_count_stamp'' t_u64]"

lemma layout_struct_hw_perf_event [layout_simps]:
  "sizeof struct_hw_perf_event = 208" "alignof struct_hw_perf_event = 8" "wf_ctype struct_hw_perf_event"
  by (simp_all add: struct_hw_perf_event_def layout_simps)

definition struct_wait_queue_head :: ctype where
  "struct_wait_queue_head = CStruct [
     Mem ''lock'' t_spinlock_t, Mem ''head'' struct_list_head]"

lemma layout_struct_wait_queue_head [layout_simps]:
  "sizeof struct_wait_queue_head = 24" "alignof struct_wait_queue_head = 8" "wf_ctype struct_wait_queue_head"
  by (simp_all add: struct_wait_queue_head_def layout_simps)

abbreviation t_wait_queue_head_t :: ctype where
  "t_wait_queue_head_t \<equiv> struct_wait_queue_head"

definition struct_rcuwait :: ctype where
  "struct_rcuwait = CStruct [
     Mem ''task'' CPtr]"

lemma layout_struct_rcuwait [layout_simps]:
  "sizeof struct_rcuwait = 8" "alignof struct_rcuwait = 8" "wf_ctype struct_rcuwait"
  by (simp_all add: struct_rcuwait_def layout_simps)

definition struct_irq_work :: ctype where
  "struct_irq_work = CStruct [
     Mem ''node'' struct___call_single_node, Mem ''func'' CPtr, Mem ''irqwait'' struct_rcuwait]"

lemma layout_struct_irq_work [layout_simps]:
  "sizeof struct_irq_work = 32" "alignof struct_irq_work = 8" "wf_ctype struct_irq_work"
  by (simp_all add: struct_irq_work_def layout_simps)

definition struct_perf_addr_filters_head :: ctype where
  "struct_perf_addr_filters_head = CStruct [
     Mem ''list'' struct_list_head, Mem ''lock'' t_raw_spinlock_t, Mem ''nr_file_filters'' CU32]"

lemma layout_struct_perf_addr_filters_head [layout_simps]:
  "sizeof struct_perf_addr_filters_head = 24" "alignof struct_perf_addr_filters_head = 8" "wf_ctype struct_perf_addr_filters_head"
  by (simp_all add: struct_perf_addr_filters_head_def layout_simps)

abbreviation t_perf_overflow_handler_t :: ctype where
  "t_perf_overflow_handler_t \<equiv> CPtr"

abbreviation t_ftrace_func_t :: ctype where
  "t_ftrace_func_t \<equiv> CPtr"

definition struct_ftrace_ops_hash :: ctype where
  "struct_ftrace_ops_hash = CStruct [
     Mem ''notrace_hash'' CPtr, Mem ''filter_hash'' CPtr, Mem ''regex_lock'' struct_mutex]"

lemma layout_struct_ftrace_ops_hash [layout_simps]:
  "sizeof struct_ftrace_ops_hash = 48" "alignof struct_ftrace_ops_hash = 8" "wf_ctype struct_ftrace_ops_hash"
  by (simp_all add: struct_ftrace_ops_hash_def layout_simps)

abbreviation t_ftrace_ops_func_t :: ctype where
  "t_ftrace_ops_func_t \<equiv> CPtr"

definition struct_ftrace_ops :: ctype where
  "struct_ftrace_ops = CStruct [
     Mem ''func'' t_ftrace_func_t, Mem ''next'' CPtr, Mem ''flags'' CU64, Mem ''private'' CPtr,
     Mem ''saved_func'' t_ftrace_func_t, Mem ''local_hash'' struct_ftrace_ops_hash,
     Mem ''func_hash'' CPtr, Mem ''old_hash'' struct_ftrace_ops_hash, Mem ''trampoline'' CU64,
     Mem ''trampoline_size'' CU64, Mem ''list'' struct_list_head,
     Mem ''subop_list'' struct_list_head, Mem ''ops_func'' t_ftrace_ops_func_t,
     Mem ''managed'' CPtr, Mem ''direct_call'' CU64]"

lemma layout_struct_ftrace_ops [layout_simps]:
  "sizeof struct_ftrace_ops = 216" "alignof struct_ftrace_ops = 8" "wf_ctype struct_ftrace_ops"
  by (simp_all add: struct_ftrace_ops_def layout_simps)

definition struct_perf_event :: ctype where
  "struct_perf_event = CStruct [
     Mem ''event_entry'' struct_list_head, Mem ''sibling_list'' struct_list_head,
     Mem ''active_list'' struct_list_head, Mem ''group_node'' struct_rb_node,
     Mem ''group_index'' t_u64, Mem ''migrate_entry'' struct_list_head,
     Mem ''hlist_entry'' struct_hlist_node, Mem ''active_entry'' struct_list_head,
     Mem ''nr_siblings'' CU32, Mem ''event_caps'' CU32, Mem ''group_caps'' CU32,
     Mem ''group_generation'' CU32, Mem ''group_leader'' CPtr, Mem ''pmu'' CPtr,
     Mem ''pmu_private'' CPtr, Mem ''state'' CEnum, Mem ''attach_state'' CU32,
     Mem ''count'' t_local64_t, Mem ''child_count'' t_atomic64_t,
     Mem ''total_time_enabled'' t_u64, Mem ''total_time_running'' t_u64, Mem ''tstamp'' t_u64,
     Mem ''attr'' struct_perf_event_attr, Mem ''header_size'' t_u16, Mem ''id_header_size'' t_u16,
     Mem ''read_size'' t_u16, Mem ''hw'' struct_hw_perf_event, Mem ''ctx'' CPtr,
     Mem ''pmu_ctx'' CPtr, Mem ''refcount'' t_atomic_long_t,
     Mem ''child_total_time_enabled'' t_atomic64_t, Mem ''child_total_time_running'' t_atomic64_t,
     Mem ''child_mutex'' struct_mutex, Mem ''child_list'' struct_list_head, Mem ''parent'' CPtr,
     Mem ''oncpu'' CU32, Mem ''cpu'' CU32, Mem ''owner_entry'' struct_list_head,
     Mem ''owner'' CPtr, Mem ''mmap_mutex'' struct_mutex, Mem ''mmap_count'' t_atomic_t,
     Mem ''rb'' CPtr, Mem ''rb_entry'' struct_list_head, Mem ''rcu_batches'' CU64,
     Mem ''rcu_pending'' CU32, Mem ''waitq'' t_wait_queue_head_t, Mem ''fasync'' CPtr,
     Mem ''pending_wakeup'' CU32, Mem ''pending_kill'' CU32, Mem ''pending_disable'' CU32,
     Mem ''pending_addr'' CU64, Mem ''pending_irq'' struct_irq_work,
     Mem ''pending_disable_irq'' struct_irq_work, Mem ''pending_task'' struct_callback_head,
     Mem ''pending_work'' CU32, Mem ''event_limit'' t_atomic_t,
     Mem ''addr_filters'' struct_perf_addr_filters_head, Mem ''addr_filter_ranges'' CPtr,
     Mem ''addr_filters_gen'' CU64, Mem ''aux_event'' CPtr, Mem ''destroy'' CPtr,
     Mem ''callback_head'' struct_callback_head, Mem ''ns'' CPtr, Mem ''id'' t_u64,
     Mem ''lost_samples'' t_atomic64_t, Mem ''clock'' CPtr,
     Mem ''overflow_handler'' t_perf_overflow_handler_t, Mem ''overflow_handler_context'' CPtr,
     Mem ''prog'' CPtr, Mem ''bpf_cookie'' t_u64, Mem ''tp_event'' CPtr, Mem ''filter'' CPtr,
     Mem ''ftrace_ops'' struct_ftrace_ops, Mem ''cgrp'' CPtr, Mem ''security'' CPtr,
     Mem ''sb_list'' struct_list_head, Mem ''pmu_list'' struct_list_head, Mem ''orig_type'' t_u32]"

lemma layout_struct_perf_event [layout_simps]:
  "sizeof struct_perf_event = 1344" "alignof struct_perf_event = 8" "wf_ctype struct_perf_event"
  by (simp_all add: struct_perf_event_def layout_simps)

definition struct_perf_event_groups :: ctype where
  "struct_perf_event_groups = CStruct [
     Mem ''tree'' struct_rb_root, Mem ''index'' t_u64]"

lemma layout_struct_perf_event_groups [layout_simps]:
  "sizeof struct_perf_event_groups = 16" "alignof struct_perf_event_groups = 8" "wf_ctype struct_perf_event_groups"
  by (simp_all add: struct_perf_event_groups_def layout_simps)

definition struct_perf_event_context :: ctype where
  "struct_perf_event_context = CStruct [
     Mem ''lock'' t_raw_spinlock_t, Mem ''mutex'' struct_mutex,
     Mem ''pmu_ctx_list'' struct_list_head, Mem ''pinned_groups'' struct_perf_event_groups,
     Mem ''flexible_groups'' struct_perf_event_groups, Mem ''event_list'' struct_list_head,
     Mem ''nr_events'' CU32, Mem ''nr_user'' CU32, Mem ''is_active'' CU32, Mem ''nr_stat'' CU32,
     Mem ''nr_freq'' CU32, Mem ''rotate_disable'' CU32, Mem ''refcount'' t_refcount_t,
     Mem ''task'' CPtr, Mem ''time'' t_u64, Mem ''timestamp'' t_u64, Mem ''timeoffset'' t_u64,
     Mem ''parent_ctx'' CPtr, Mem ''parent_gen'' t_u64, Mem ''generation'' t_u64,
     Mem ''pin_count'' CU32, Mem ''nr_cgroups'' CU32, Mem ''callback_head'' struct_callback_head,
     Mem ''nr_no_switch_fast'' t_local_t]"

lemma layout_struct_perf_event_context [layout_simps]:
  "sizeof struct_perf_event_context = 224" "alignof struct_perf_event_context = 8" "wf_ctype struct_perf_event_context"
  by (simp_all add: struct_perf_event_context_def layout_simps)

end
