(* ===== verification/Kernel_Bpf.thy ===== *)
theory Kernel_Bpf
  imports Kernel_Task
begin

text \<open>
  The kernel objects behind the programs' maps, from \<^verbatim>\<open>src/pkg/capture/bpf/vmlinux.h\<close>: array
  and hash maps, the BPF ring buffer, loaded programs, the argument union of the bpf system
  call, and the enumerations that number map types, program types, attach types and helpers.
  The runs of \<^verbatim>\<open>long: 64\<close> padding lines in \<^verbatim>\<open>struct bpf_ringbuf\<close> are written with
  \<open>replicate\<close>.
\<close>

definition enum_bpf_map_type :: "(string \<times> int) list" where
  "enum_bpf_map_type = [
     (''BPF_MAP_TYPE_UNSPEC'', 0), (''BPF_MAP_TYPE_HASH'', 1), (''BPF_MAP_TYPE_ARRAY'', 2),
     (''BPF_MAP_TYPE_PROG_ARRAY'', 3), (''BPF_MAP_TYPE_PERF_EVENT_ARRAY'', 4),
     (''BPF_MAP_TYPE_PERCPU_HASH'', 5), (''BPF_MAP_TYPE_PERCPU_ARRAY'', 6),
     (''BPF_MAP_TYPE_STACK_TRACE'', 7), (''BPF_MAP_TYPE_CGROUP_ARRAY'', 8),
     (''BPF_MAP_TYPE_LRU_HASH'', 9), (''BPF_MAP_TYPE_LRU_PERCPU_HASH'', 10),
     (''BPF_MAP_TYPE_LPM_TRIE'', 11), (''BPF_MAP_TYPE_ARRAY_OF_MAPS'', 12),
     (''BPF_MAP_TYPE_HASH_OF_MAPS'', 13), (''BPF_MAP_TYPE_DEVMAP'', 14),
     (''BPF_MAP_TYPE_SOCKMAP'', 15), (''BPF_MAP_TYPE_CPUMAP'', 16), (''BPF_MAP_TYPE_XSKMAP'', 17),
     (''BPF_MAP_TYPE_SOCKHASH'', 18), (''BPF_MAP_TYPE_CGROUP_STORAGE_DEPRECATED'', 19),
     (''BPF_MAP_TYPE_CGROUP_STORAGE'', 19), (''BPF_MAP_TYPE_REUSEPORT_SOCKARRAY'', 20),
     (''BPF_MAP_TYPE_PERCPU_CGROUP_STORAGE_DEPRECATED'', 21),
     (''BPF_MAP_TYPE_PERCPU_CGROUP_STORAGE'', 21), (''BPF_MAP_TYPE_QUEUE'', 22),
     (''BPF_MAP_TYPE_STACK'', 23), (''BPF_MAP_TYPE_SK_STORAGE'', 24),
     (''BPF_MAP_TYPE_DEVMAP_HASH'', 25), (''BPF_MAP_TYPE_STRUCT_OPS'', 26),
     (''BPF_MAP_TYPE_RINGBUF'', 27), (''BPF_MAP_TYPE_INODE_STORAGE'', 28),
     (''BPF_MAP_TYPE_TASK_STORAGE'', 29), (''BPF_MAP_TYPE_BLOOM_FILTER'', 30),
     (''BPF_MAP_TYPE_USER_RINGBUF'', 31), (''BPF_MAP_TYPE_CGRP_STORAGE'', 32),
     (''BPF_MAP_TYPE_ARENA'', 33), (''__MAX_BPF_MAP_TYPE'', 34)]"

definition struct_bpf_map :: ctype where
  "struct_bpf_map = CStruct [
     Mem ''ops'' CPtr, Mem ''inner_map_meta'' CPtr, Mem ''security'' CPtr, Mem ''map_type'' CEnum,
     Mem ''key_size'' t_u32, Mem ''value_size'' t_u32, Mem ''max_entries'' t_u32,
     Mem ''map_extra'' t_u64, Mem ''map_flags'' t_u32, Mem ''id'' t_u32, Mem ''record'' CPtr,
     Mem ''numa_node'' CU32, Mem ''btf_key_type_id'' t_u32, Mem ''btf_value_type_id'' t_u32,
     Mem ''btf_vmlinux_value_type_id'' t_u32, Mem ''btf'' CPtr, Mem ''objcg'' CPtr,
     Mem ''name'' (CArr CU8 16), Mem ''freeze_mutex'' struct_mutex, Mem ''refcnt'' t_atomic64_t,
     Mem ''usercnt'' t_atomic64_t,
     Mem '''' (CUnion [
       Mem ''work'' struct_work_struct, Mem ''rcu'' struct_callback_head]),
     Mem ''writecnt'' t_atomic64_t, Mem ''owner_lock'' t_spinlock_t, Mem ''owner'' CPtr,
     Mem ''bypass_spec_v1'' CU8, Mem ''frozen'' CU8, Mem ''free_after_mult_rcu_gp'' CU8,
     Mem ''free_after_rcu_gp'' CU8, Mem ''sleepable_refcnt'' t_atomic64_t,
     Mem ''elem_count'' CPtr, Mem ''cookie'' t_u64]"

lemma layout_struct_bpf_map [layout_simps]:
  "sizeof struct_bpf_map = 248" "alignof struct_bpf_map = 8" "wf_ctype struct_bpf_map"
  by (simp_all add: struct_bpf_map_def layout_simps)

definition struct_bpf_array :: ctype where
  "struct_bpf_array = CStruct [
     Mem ''map'' struct_bpf_map, Mem ''elem_size'' t_u32, Mem ''index_mask'' t_u32,
     Mem ''aux'' CPtr,
     Mem '''' (CUnion [
       Mem '''' (CStruct [
         Mem ''__empty_value'' (CStruct []), Mem ''value'' (CArr CU8 0)]),
       Mem '''' (CStruct [
         Mem ''__empty_ptrs'' (CStruct []), Mem ''ptrs'' (CArr CPtr 0)]),
       Mem '''' (CStruct [
         Mem ''__empty_pptrs'' (CStruct []), Mem ''pptrs'' (CArr CPtr 0)])])]"

lemma layout_struct_bpf_array [layout_simps]:
  "sizeof struct_bpf_array = 264" "alignof struct_bpf_array = 8" "wf_ctype struct_bpf_array"
  by (simp_all add: struct_bpf_array_def layout_simps)

definition struct_bpf_mem_alloc :: ctype where
  "struct_bpf_mem_alloc = CStruct [
     Mem ''caches'' CPtr, Mem ''cache'' CPtr, Mem ''objcg'' CPtr, Mem ''percpu'' CU8,
     Mem ''work'' struct_work_struct]"

lemma layout_struct_bpf_mem_alloc [layout_simps]:
  "sizeof struct_bpf_mem_alloc = 64" "alignof struct_bpf_mem_alloc = 8" "wf_ctype struct_bpf_mem_alloc"
  by (simp_all add: struct_bpf_mem_alloc_def layout_simps)

definition struct_pcpu_freelist :: ctype where
  "struct_pcpu_freelist = CStruct [
     Mem ''freelist'' CPtr]"

lemma layout_struct_pcpu_freelist [layout_simps]:
  "sizeof struct_pcpu_freelist = 8" "alignof struct_pcpu_freelist = 8" "wf_ctype struct_pcpu_freelist"
  by (simp_all add: struct_pcpu_freelist_def layout_simps)

definition struct_bpf_lru_list :: ctype where
  "struct_bpf_lru_list = CStruct [
     Mem ''lists'' (CArr struct_list_head 3), Mem ''counts'' (CArr CU32 2),
     Mem ''next_inactive_rotation'' CPtr, Mem ''lock'' t_raw_spinlock_t, Bits '''' CU64 64,
     Bits '''' CU64 64, Bits '''' CU64 64, Bits '''' CU64 64, Bits '''' CU64 64,
     Bits '''' CU64 64, Bits '''' CU64 64]"

lemma layout_struct_bpf_lru_list [layout_simps]:
  "sizeof struct_bpf_lru_list = 128" "alignof struct_bpf_lru_list = 8" "wf_ctype struct_bpf_lru_list"
  by (simp_all add: struct_bpf_lru_list_def layout_simps)

definition struct_bpf_common_lru :: ctype where
  "struct_bpf_common_lru = CStruct [
     Mem ''lru_list'' struct_bpf_lru_list, Mem ''local_list'' CPtr, Bits '''' CU64 64,
     Bits '''' CU64 64, Bits '''' CU64 64, Bits '''' CU64 64, Bits '''' CU64 64,
     Bits '''' CU64 64, Bits '''' CU64 64]"

lemma layout_struct_bpf_common_lru [layout_simps]:
  "sizeof struct_bpf_common_lru = 192" "alignof struct_bpf_common_lru = 8" "wf_ctype struct_bpf_common_lru"
  by (simp_all add: struct_bpf_common_lru_def layout_simps)

abbreviation t_del_from_htab_func :: ctype where
  "t_del_from_htab_func \<equiv> CPtr"

definition struct_bpf_lru :: ctype where
  "struct_bpf_lru = CStruct [
     Mem '''' (CUnion [
       Mem ''common_lru'' struct_bpf_common_lru, Mem ''percpu_lru'' CPtr]),
     Mem ''del_from_htab'' t_del_from_htab_func, Mem ''del_arg'' CPtr, Mem ''hash_offset'' CU32,
     Mem ''target_free'' CU32, Mem ''nr_scans'' CU32, Mem ''percpu'' CU8, Bits '''' CU64 64,
     Bits '''' CU64 64, Bits '''' CU64 64, Bits '''' CU64 64]"

lemma layout_struct_bpf_lru [layout_simps]:
  "sizeof struct_bpf_lru = 256" "alignof struct_bpf_lru = 8" "wf_ctype struct_bpf_lru"
  by (simp_all add: struct_bpf_lru_def layout_simps)

definition struct_percpu_counter :: ctype where
  "struct_percpu_counter = CStruct [
     Mem ''lock'' t_raw_spinlock_t, Mem ''count'' t_s64, Mem ''list'' struct_list_head,
     Mem ''counters'' CPtr]"

lemma layout_struct_percpu_counter [layout_simps]:
  "sizeof struct_percpu_counter = 40" "alignof struct_percpu_counter = 8" "wf_ctype struct_percpu_counter"
  by (simp_all add: struct_percpu_counter_def layout_simps)

definition struct_bpf_htab :: ctype where
  "struct_bpf_htab = CStruct [
     Mem ''map'' struct_bpf_map, Mem ''ma'' struct_bpf_mem_alloc,
     Mem ''pcpu_ma'' struct_bpf_mem_alloc, Mem ''buckets'' CPtr, Mem ''elems'' CPtr,
     Bits '''' CU64 64, Bits '''' CU64 64, Bits '''' CU64 64, Bits '''' CU64 64,
     Bits '''' CU64 64, Bits '''' CU64 64, Bits '''' CU64 64,
     Mem '''' (CUnion [
       Mem ''freelist'' struct_pcpu_freelist, Mem ''lru'' struct_bpf_lru]),
     Mem ''extra_elems'' CPtr, Mem ''pcount'' struct_percpu_counter, Mem ''count'' t_atomic_t,
     Mem ''use_percpu_counter'' CU8, Mem ''n_buckets'' t_u32, Mem ''elem_size'' t_u32,
     Mem ''hashrnd'' t_u32, Bits '''' CU64 64, Bits '''' CU64 64, Bits '''' CU64 64,
     Bits '''' CU64 64, Bits '''' CU64 64, Bits '''' CU64 64, Bits '''' CU64 64]"

lemma layout_struct_bpf_htab [layout_simps]:
  "sizeof struct_bpf_htab = 832" "alignof struct_bpf_htab = 8" "wf_ctype struct_bpf_htab"
  by (simp_all add: struct_bpf_htab_def layout_simps)

definition struct_hlist_nulls_node :: ctype where
  "struct_hlist_nulls_node = CStruct [
     Mem ''next'' CPtr, Mem ''pprev'' CPtr]"

lemma layout_struct_hlist_nulls_node [layout_simps]:
  "sizeof struct_hlist_nulls_node = 16" "alignof struct_hlist_nulls_node = 8" "wf_ctype struct_hlist_nulls_node"
  by (simp_all add: struct_hlist_nulls_node_def layout_simps)

definition struct_pcpu_freelist_node :: ctype where
  "struct_pcpu_freelist_node = CStruct [
     Mem ''next'' CPtr]"

lemma layout_struct_pcpu_freelist_node [layout_simps]:
  "sizeof struct_pcpu_freelist_node = 8" "alignof struct_pcpu_freelist_node = 8" "wf_ctype struct_pcpu_freelist_node"
  by (simp_all add: struct_pcpu_freelist_node_def layout_simps)

definition struct_bpf_lru_node :: ctype where
  "struct_bpf_lru_node = CStruct [
     Mem ''list'' struct_list_head, Mem ''cpu'' t_u16, Mem ''type'' t_u8, Mem ''ref'' t_u8]"

lemma layout_struct_bpf_lru_node [layout_simps]:
  "sizeof struct_bpf_lru_node = 24" "alignof struct_bpf_lru_node = 8" "wf_ctype struct_bpf_lru_node"
  by (simp_all add: struct_bpf_lru_node_def layout_simps)

definition struct_htab_elem :: ctype where
  "struct_htab_elem = CStruct [
     Mem '''' (CUnion [
       Mem ''hash_node'' struct_hlist_nulls_node,
       Mem '''' (CStruct [
         Mem ''padding'' CPtr,
         Mem '''' (CUnion [
           Mem ''fnode'' struct_pcpu_freelist_node, Mem ''batch_flink'' CPtr])])]),
     Mem '''' (CUnion [
       Mem ''ptr_to_pptr'' CPtr, Mem ''lru_node'' struct_bpf_lru_node]),
     Mem ''hash'' t_u32, Bits '''' CU64 0, Mem ''key'' (CArr CU8 0)]"

lemma layout_struct_htab_elem [layout_simps]:
  "sizeof struct_htab_elem = 48" "alignof struct_htab_elem = 8" "wf_ctype struct_htab_elem"
  by (simp_all add: struct_htab_elem_def layout_simps)

definition struct_hlist_nulls_head :: ctype where
  "struct_hlist_nulls_head = CStruct [
     Mem ''first'' CPtr]"

lemma layout_struct_hlist_nulls_head [layout_simps]:
  "sizeof struct_hlist_nulls_head = 8" "alignof struct_hlist_nulls_head = 8" "wf_ctype struct_hlist_nulls_head"
  by (simp_all add: struct_hlist_nulls_head_def layout_simps)

abbreviation t_rqspinlock_t :: ctype where
  "t_rqspinlock_t \<equiv> struct_qspinlock"

definition struct_bucket :: ctype where
  "struct_bucket = CStruct [
     Mem ''head'' struct_hlist_nulls_head, Mem ''raw_lock'' t_rqspinlock_t]"

lemma layout_struct_bucket [layout_simps]:
  "sizeof struct_bucket = 16" "alignof struct_bucket = 8" "wf_ctype struct_bucket"
  by (simp_all add: struct_bucket_def layout_simps)

definition struct_bpf_ringbuf :: ctype where
  "struct_bpf_ringbuf = CStruct ([
     Mem ''waitq'' t_wait_queue_head_t, Mem ''work'' struct_irq_work, Mem ''mask'' t_u64,
     Mem ''pages'' CPtr, Mem ''nr_pages'' CU32, Bits '''' CU64 64, Bits '''' CU64 64,
     Bits '''' CU64 64, Bits '''' CU64 64, Bits '''' CU64 64, Bits '''' CU64 64,
     Mem ''spinlock'' t_rqspinlock_t, Bits '''' CU64 64, Bits '''' CU64 64, Bits '''' CU64 64,
     Bits '''' CU64 64, Bits '''' CU64 64, Bits '''' CU64 64, Bits '''' CU64 64,
     Mem ''busy'' t_atomic_t] @ replicate 487 (Bits '''' CU64 64) @ [
     Mem ''consumer_pos'' CU64] @ replicate 511 (Bits '''' CU64 64) @ [
     Mem ''producer_pos'' CU64, Mem ''pending_pos'' CU64] @ replicate 510 (Bits '''' CU64 64) @ [
     Mem ''data'' (CArr CU8 0)])"

lemma layout_struct_bpf_ringbuf [layout_simps]:
  "sizeof struct_bpf_ringbuf = 12288" "alignof struct_bpf_ringbuf = 8"
  "wf_ctype struct_bpf_ringbuf"
  by (simp_all add: struct_bpf_ringbuf_def layout_simps)

definition struct_bpf_ringbuf_map :: ctype where
  "struct_bpf_ringbuf_map = CStruct [
     Mem ''map'' struct_bpf_map, Mem ''rb'' CPtr]"

lemma layout_struct_bpf_ringbuf_map [layout_simps]:
  "sizeof struct_bpf_ringbuf_map = 256" "alignof struct_bpf_ringbuf_map = 8" "wf_ctype struct_bpf_ringbuf_map"
  by (simp_all add: struct_bpf_ringbuf_map_def layout_simps)

definition struct_bpf_ringbuf_hdr :: ctype where
  "struct_bpf_ringbuf_hdr = CStruct [
     Mem ''len'' t_u32, Mem ''pg_off'' t_u32]"

lemma layout_struct_bpf_ringbuf_hdr [layout_simps]:
  "sizeof struct_bpf_ringbuf_hdr = 8" "alignof struct_bpf_ringbuf_hdr = 4" "wf_ctype struct_bpf_ringbuf_hdr"
  by (simp_all add: struct_bpf_ringbuf_hdr_def layout_simps)

definition struct_bpf_map_ops :: ctype where
  "struct_bpf_map_ops = CStruct [
     Mem ''map_alloc_check'' CPtr, Mem ''map_alloc'' CPtr, Mem ''map_release'' CPtr,
     Mem ''map_free'' CPtr, Mem ''map_get_next_key'' CPtr, Mem ''map_release_uref'' CPtr,
     Mem ''map_lookup_elem_sys_only'' CPtr, Mem ''map_lookup_batch'' CPtr,
     Mem ''map_lookup_and_delete_elem'' CPtr, Mem ''map_lookup_and_delete_batch'' CPtr,
     Mem ''map_update_batch'' CPtr, Mem ''map_delete_batch'' CPtr, Mem ''map_lookup_elem'' CPtr,
     Mem ''map_update_elem'' CPtr, Mem ''map_delete_elem'' CPtr, Mem ''map_push_elem'' CPtr,
     Mem ''map_pop_elem'' CPtr, Mem ''map_peek_elem'' CPtr, Mem ''map_lookup_percpu_elem'' CPtr,
     Mem ''map_fd_get_ptr'' CPtr, Mem ''map_fd_put_ptr'' CPtr, Mem ''map_gen_lookup'' CPtr,
     Mem ''map_fd_sys_lookup_elem'' CPtr, Mem ''map_seq_show_elem'' CPtr,
     Mem ''map_check_btf'' CPtr, Mem ''map_poke_track'' CPtr, Mem ''map_poke_untrack'' CPtr,
     Mem ''map_poke_run'' CPtr, Mem ''map_direct_value_addr'' CPtr,
     Mem ''map_direct_value_meta'' CPtr, Mem ''map_mmap'' CPtr, Mem ''map_poll'' CPtr,
     Mem ''map_get_unmapped_area'' CPtr, Mem ''map_local_storage_charge'' CPtr,
     Mem ''map_local_storage_uncharge'' CPtr, Mem ''map_owner_storage_ptr'' CPtr,
     Mem ''map_redirect'' CPtr, Mem ''map_meta_equal'' CPtr,
     Mem ''map_set_for_each_callback_args'' CPtr, Mem ''map_for_each_callback'' CPtr,
     Mem ''map_mem_usage'' CPtr, Mem ''map_btf_id'' CPtr, Mem ''iter_seq_info'' CPtr]"

lemma layout_struct_bpf_map_ops [layout_simps]:
  "sizeof struct_bpf_map_ops = 344" "alignof struct_bpf_map_ops = 8" "wf_ctype struct_bpf_map_ops"
  by (simp_all add: struct_bpf_map_ops_def layout_simps)

definition enum_bpf_prog_type :: "(string \<times> int) list" where
  "enum_bpf_prog_type = [
     (''BPF_PROG_TYPE_UNSPEC'', 0), (''BPF_PROG_TYPE_SOCKET_FILTER'', 1),
     (''BPF_PROG_TYPE_KPROBE'', 2), (''BPF_PROG_TYPE_SCHED_CLS'', 3),
     (''BPF_PROG_TYPE_SCHED_ACT'', 4), (''BPF_PROG_TYPE_TRACEPOINT'', 5),
     (''BPF_PROG_TYPE_XDP'', 6), (''BPF_PROG_TYPE_PERF_EVENT'', 7),
     (''BPF_PROG_TYPE_CGROUP_SKB'', 8), (''BPF_PROG_TYPE_CGROUP_SOCK'', 9),
     (''BPF_PROG_TYPE_LWT_IN'', 10), (''BPF_PROG_TYPE_LWT_OUT'', 11),
     (''BPF_PROG_TYPE_LWT_XMIT'', 12), (''BPF_PROG_TYPE_SOCK_OPS'', 13),
     (''BPF_PROG_TYPE_SK_SKB'', 14), (''BPF_PROG_TYPE_CGROUP_DEVICE'', 15),
     (''BPF_PROG_TYPE_SK_MSG'', 16), (''BPF_PROG_TYPE_RAW_TRACEPOINT'', 17),
     (''BPF_PROG_TYPE_CGROUP_SOCK_ADDR'', 18), (''BPF_PROG_TYPE_LWT_SEG6LOCAL'', 19),
     (''BPF_PROG_TYPE_LIRC_MODE2'', 20), (''BPF_PROG_TYPE_SK_REUSEPORT'', 21),
     (''BPF_PROG_TYPE_FLOW_DISSECTOR'', 22), (''BPF_PROG_TYPE_CGROUP_SYSCTL'', 23),
     (''BPF_PROG_TYPE_RAW_TRACEPOINT_WRITABLE'', 24), (''BPF_PROG_TYPE_CGROUP_SOCKOPT'', 25),
     (''BPF_PROG_TYPE_TRACING'', 26), (''BPF_PROG_TYPE_STRUCT_OPS'', 27),
     (''BPF_PROG_TYPE_EXT'', 28), (''BPF_PROG_TYPE_LSM'', 29), (''BPF_PROG_TYPE_SK_LOOKUP'', 30),
     (''BPF_PROG_TYPE_SYSCALL'', 31), (''BPF_PROG_TYPE_NETFILTER'', 32),
     (''__MAX_BPF_PROG_TYPE'', 33)]"

definition enum_bpf_attach_type :: "(string \<times> int) list" where
  "enum_bpf_attach_type = [
     (''BPF_CGROUP_INET_INGRESS'', 0), (''BPF_CGROUP_INET_EGRESS'', 1),
     (''BPF_CGROUP_INET_SOCK_CREATE'', 2), (''BPF_CGROUP_SOCK_OPS'', 3),
     (''BPF_SK_SKB_STREAM_PARSER'', 4), (''BPF_SK_SKB_STREAM_VERDICT'', 5),
     (''BPF_CGROUP_DEVICE'', 6), (''BPF_SK_MSG_VERDICT'', 7), (''BPF_CGROUP_INET4_BIND'', 8),
     (''BPF_CGROUP_INET6_BIND'', 9), (''BPF_CGROUP_INET4_CONNECT'', 10),
     (''BPF_CGROUP_INET6_CONNECT'', 11), (''BPF_CGROUP_INET4_POST_BIND'', 12),
     (''BPF_CGROUP_INET6_POST_BIND'', 13), (''BPF_CGROUP_UDP4_SENDMSG'', 14),
     (''BPF_CGROUP_UDP6_SENDMSG'', 15), (''BPF_LIRC_MODE2'', 16), (''BPF_FLOW_DISSECTOR'', 17),
     (''BPF_CGROUP_SYSCTL'', 18), (''BPF_CGROUP_UDP4_RECVMSG'', 19),
     (''BPF_CGROUP_UDP6_RECVMSG'', 20), (''BPF_CGROUP_GETSOCKOPT'', 21),
     (''BPF_CGROUP_SETSOCKOPT'', 22), (''BPF_TRACE_RAW_TP'', 23), (''BPF_TRACE_FENTRY'', 24),
     (''BPF_TRACE_FEXIT'', 25), (''BPF_MODIFY_RETURN'', 26), (''BPF_LSM_MAC'', 27),
     (''BPF_TRACE_ITER'', 28), (''BPF_CGROUP_INET4_GETPEERNAME'', 29),
     (''BPF_CGROUP_INET6_GETPEERNAME'', 30), (''BPF_CGROUP_INET4_GETSOCKNAME'', 31),
     (''BPF_CGROUP_INET6_GETSOCKNAME'', 32), (''BPF_XDP_DEVMAP'', 33),
     (''BPF_CGROUP_INET_SOCK_RELEASE'', 34), (''BPF_XDP_CPUMAP'', 35), (''BPF_SK_LOOKUP'', 36),
     (''BPF_XDP'', 37), (''BPF_SK_SKB_VERDICT'', 38), (''BPF_SK_REUSEPORT_SELECT'', 39),
     (''BPF_SK_REUSEPORT_SELECT_OR_MIGRATE'', 40), (''BPF_PERF_EVENT'', 41),
     (''BPF_TRACE_KPROBE_MULTI'', 42), (''BPF_LSM_CGROUP'', 43), (''BPF_STRUCT_OPS'', 44),
     (''BPF_NETFILTER'', 45), (''BPF_TCX_INGRESS'', 46), (''BPF_TCX_EGRESS'', 47),
     (''BPF_TRACE_UPROBE_MULTI'', 48), (''BPF_CGROUP_UNIX_CONNECT'', 49),
     (''BPF_CGROUP_UNIX_SENDMSG'', 50), (''BPF_CGROUP_UNIX_RECVMSG'', 51),
     (''BPF_CGROUP_UNIX_GETPEERNAME'', 52), (''BPF_CGROUP_UNIX_GETSOCKNAME'', 53),
     (''BPF_NETKIT_PRIMARY'', 54), (''BPF_NETKIT_PEER'', 55), (''BPF_TRACE_KPROBE_SESSION'', 56),
     (''BPF_TRACE_UPROBE_SESSION'', 57), (''__MAX_BPF_ATTACH_TYPE'', 58)]"

definition struct_sock_filter :: ctype where
  "struct_sock_filter = CStruct [
     Mem ''code'' t___u16, Mem ''jt'' t___u8, Mem ''jf'' t___u8, Mem ''k'' t___u32]"

lemma layout_struct_sock_filter [layout_simps]:
  "sizeof struct_sock_filter = 8" "alignof struct_sock_filter = 4" "wf_ctype struct_sock_filter"
  by (simp_all add: struct_sock_filter_def layout_simps)

abbreviation t___s16 :: ctype where
  "t___s16 \<equiv> CU16"

definition struct_bpf_insn :: ctype where
  "struct_bpf_insn = CStruct [
     Mem ''code'' t___u8, Bits ''dst_reg'' t___u8 4, Bits ''src_reg'' t___u8 4,
     Mem ''off'' t___s16, Mem ''imm'' t___s32]"

lemma layout_struct_bpf_insn [layout_simps]:
  "sizeof struct_bpf_insn = 8" "alignof struct_bpf_insn = 4" "wf_ctype struct_bpf_insn"
  by (simp_all add: struct_bpf_insn_def layout_simps)

definition struct_bpf_prog :: ctype where
  "struct_bpf_prog = CStruct [
     Mem ''pages'' t_u16, Bits ''jited'' t_u16 1, Bits ''jit_requested'' t_u16 1,
     Bits ''gpl_compatible'' t_u16 1, Bits ''cb_access'' t_u16 1, Bits ''dst_needed'' t_u16 1,
     Bits ''blinding_requested'' t_u16 1, Bits ''blinded'' t_u16 1, Bits ''is_func'' t_u16 1,
     Bits ''kprobe_override'' t_u16 1, Bits ''has_callchain_buf'' t_u16 1,
     Bits ''enforce_expected_attach_type'' t_u16 1, Bits ''call_get_stack'' t_u16 1,
     Bits ''call_get_func_ip'' t_u16 1, Bits ''tstamp_type_access'' t_u16 1,
     Bits ''sleepable'' t_u16 1, Mem ''type'' CEnum, Mem ''expected_attach_type'' CEnum,
     Mem ''len'' t_u32, Mem ''jited_len'' t_u32, Mem ''tag'' (CArr t_u8 8), Mem ''stats'' CPtr,
     Mem ''active'' CPtr, Mem ''bpf_func'' CPtr, Mem ''aux'' CPtr, Mem ''orig_prog'' CPtr,
     Mem '''' (CUnion [
       Mem '''' (CStruct [
         Mem ''__empty_insns'' (CStruct []), Mem ''insns'' (CArr struct_sock_filter 0)]),
       Mem '''' (CStruct [
         Mem ''__empty_insnsi'' (CStruct []), Mem ''insnsi'' (CArr struct_bpf_insn 0)])])]"

lemma layout_struct_bpf_prog [layout_simps]:
  "sizeof struct_bpf_prog = 72" "alignof struct_bpf_prog = 8" "wf_ctype struct_bpf_prog"
  by (simp_all add: struct_bpf_prog_def layout_simps)

definition struct_latch_tree_node :: ctype where
  "struct_latch_tree_node = CStruct [
     Mem ''node'' (CArr struct_rb_node 2)]"

lemma layout_struct_latch_tree_node [layout_simps]:
  "sizeof struct_latch_tree_node = 48" "alignof struct_latch_tree_node = 8" "wf_ctype struct_latch_tree_node"
  by (simp_all add: struct_latch_tree_node_def layout_simps)

definition struct_bpf_ksym :: ctype where
  "struct_bpf_ksym = CStruct [
     Mem ''start'' CU64, Mem ''end'' CU64, Mem ''name'' (CArr CU8 512),
     Mem ''lnode'' struct_list_head, Mem ''tnode'' struct_latch_tree_node, Mem ''prog'' CU8]"

lemma layout_struct_bpf_ksym [layout_simps]:
  "sizeof struct_bpf_ksym = 600" "alignof struct_bpf_ksym = 8" "wf_ctype struct_bpf_ksym"
  by (simp_all add: struct_bpf_ksym_def layout_simps)

definition struct_bpf_stream :: ctype where
  "struct_bpf_stream = CStruct [
     Mem ''capacity'' t_atomic_t, Mem ''log'' struct_llist_head, Mem ''lock'' struct_mutex,
     Mem ''backlog_head'' CPtr, Mem ''backlog_tail'' CPtr]"

lemma layout_struct_bpf_stream [layout_simps]:
  "sizeof struct_bpf_stream = 64" "alignof struct_bpf_stream = 8" "wf_ctype struct_bpf_stream"
  by (simp_all add: struct_bpf_stream_def layout_simps)

definition struct_bpf_prog_aux :: ctype where
  "struct_bpf_prog_aux = CStruct [
     Mem ''refcnt'' t_atomic64_t, Mem ''used_map_cnt'' t_u32, Mem ''used_btf_cnt'' t_u32,
     Mem ''max_ctx_offset'' t_u32, Mem ''max_pkt_offset'' t_u32, Mem ''max_tp_access'' t_u32,
     Mem ''stack_depth'' t_u32, Mem ''id'' t_u32, Mem ''func_cnt'' t_u32,
     Mem ''real_func_cnt'' t_u32, Mem ''func_idx'' t_u32, Mem ''attach_btf_id'' t_u32,
     Mem ''attach_st_ops_member_off'' t_u32, Mem ''ctx_arg_info_size'' t_u32,
     Mem ''max_rdonly_access'' t_u32, Mem ''max_rdwr_access'' t_u32, Mem ''attach_btf'' CPtr,
     Mem ''ctx_arg_info'' CPtr, Mem ''priv_stack_ptr'' CPtr, Mem ''dst_mutex'' struct_mutex,
     Mem ''dst_prog'' CPtr, Mem ''dst_trampoline'' CPtr, Mem ''saved_dst_prog_type'' CEnum,
     Mem ''saved_dst_attach_type'' CEnum, Mem ''verifier_zext'' CU8, Mem ''dev_bound'' CU8,
     Mem ''offload_requested'' CU8, Mem ''attach_btf_trace'' CU8, Mem ''attach_tracing_prog'' CU8,
     Mem ''func_proto_unreliable'' CU8, Mem ''tail_call_reachable'' CU8,
     Mem ''xdp_has_frags'' CU8, Mem ''exception_cb'' CU8, Mem ''exception_boundary'' CU8,
     Mem ''is_extended'' CU8, Mem ''jits_use_priv_stack'' CU8, Mem ''priv_stack_requested'' CU8,
     Mem ''changes_pkt_data'' CU8, Mem ''might_sleep'' CU8, Mem ''prog_array_member_cnt'' t_u64,
     Mem ''ext_mutex'' struct_mutex, Mem ''arena'' CPtr, Mem ''recursion_detected'' CPtr,
     Mem ''attach_func_proto'' CPtr, Mem ''attach_func_name'' CPtr, Mem ''func'' CPtr,
     Mem ''jit_data'' CPtr, Mem ''poke_tab'' CPtr, Mem ''kfunc_tab'' CPtr,
     Mem ''kfunc_btf_tab'' CPtr, Mem ''size_poke_tab'' t_u32, Mem ''ksym'' struct_bpf_ksym,
     Mem ''ops'' CPtr, Mem ''st_ops'' CPtr, Mem ''used_maps'' CPtr,
     Mem ''used_maps_mutex'' struct_mutex, Mem ''used_btfs'' CPtr, Mem ''prog'' CPtr,
     Mem ''user'' CPtr, Mem ''load_time'' t_u64, Mem ''verified_insns'' t_u32,
     Mem ''cgroup_atype'' CU32, Mem ''cgroup_storage'' (CArr CPtr 2), Mem ''name'' (CArr CU8 16),
     Mem ''bpf_exception_cb'' CPtr, Mem ''security'' CPtr, Mem ''token'' CPtr,
     Mem ''offload'' CPtr, Mem ''btf'' CPtr, Mem ''func_info'' CPtr, Mem ''func_info_aux'' CPtr,
     Mem ''linfo'' CPtr, Mem ''jited_linfo'' CPtr, Mem ''func_info_cnt'' t_u32,
     Mem ''nr_linfo'' t_u32, Mem ''linfo_idx'' t_u32, Mem ''mod'' CPtr,
     Mem ''num_exentries'' t_u32, Mem ''extable'' CPtr,
     Mem '''' (CUnion [
       Mem ''work'' struct_work_struct, Mem ''rcu'' struct_callback_head]),
     Mem ''stream'' (CArr struct_bpf_stream 2)]"

lemma layout_struct_bpf_prog_aux [layout_simps]:
  "sizeof struct_bpf_prog_aux = 1288" "alignof struct_bpf_prog_aux = 8" "wf_ctype struct_bpf_prog_aux"
  by (simp_all add: struct_bpf_prog_aux_def layout_simps)

definition union_bpf_attr_members_1 :: "cmember list" where
  "union_bpf_attr_members_1 = [
     Mem '''' (CStruct [
       Mem ''map_type'' t___u32, Mem ''key_size'' t___u32, Mem ''value_size'' t___u32,
       Mem ''max_entries'' t___u32, Mem ''map_flags'' t___u32, Mem ''inner_map_fd'' t___u32,
       Mem ''numa_node'' t___u32, Mem ''map_name'' (CArr CU8 16), Mem ''map_ifindex'' t___u32,
       Mem ''btf_fd'' t___u32, Mem ''btf_key_type_id'' t___u32, Mem ''btf_value_type_id'' t___u32,
       Mem ''btf_vmlinux_value_type_id'' t___u32, Mem ''map_extra'' t___u64,
       Mem ''value_type_btf_obj_fd'' t___s32, Mem ''map_token_fd'' t___s32]),
     Mem '''' (CStruct [
       Mem ''map_fd'' t___u32, Mem ''key'' t___u64,
       Mem '''' (CUnion [Mem ''value'' t___u64, Mem ''next_key'' t___u64]), Mem ''flags'' t___u64]),
     Mem ''batch'' (CStruct [
       Mem ''in_batch'' t___u64, Mem ''out_batch'' t___u64, Mem ''keys'' t___u64,
       Mem ''values'' t___u64, Mem ''count'' t___u32, Mem ''map_fd'' t___u32,
       Mem ''elem_flags'' t___u64, Mem ''flags'' t___u64]),
     Mem '''' (CStruct [
       Mem ''prog_type'' t___u32, Mem ''insn_cnt'' t___u32, Mem ''insns'' t___u64,
       Mem ''license'' t___u64, Mem ''log_level'' t___u32, Mem ''log_size'' t___u32,
       Mem ''log_buf'' t___u64, Mem ''kern_version'' t___u32, Mem ''prog_flags'' t___u32,
       Mem ''prog_name'' (CArr CU8 16), Mem ''prog_ifindex'' t___u32,
       Mem ''expected_attach_type'' t___u32, Mem ''prog_btf_fd'' t___u32,
       Mem ''func_info_rec_size'' t___u32, Mem ''func_info'' t___u64,
       Mem ''func_info_cnt'' t___u32, Mem ''line_info_rec_size'' t___u32,
       Mem ''line_info'' t___u64, Mem ''line_info_cnt'' t___u32, Mem ''attach_btf_id'' t___u32,
       Mem '''' (CUnion [
         Mem ''attach_prog_fd'' t___u32, Mem ''attach_btf_obj_fd'' t___u32]),
       Mem ''core_relo_cnt'' t___u32, Mem ''fd_array'' t___u64, Mem ''core_relos'' t___u64,
       Mem ''core_relo_rec_size'' t___u32, Mem ''log_true_size'' t___u32,
       Mem ''prog_token_fd'' t___s32, Mem ''fd_array_cnt'' t___u32]),
     Mem '''' (CStruct [
       Mem ''pathname'' t___u64, Mem ''bpf_fd'' t___u32, Mem ''file_flags'' t___u32,
       Mem ''path_fd'' t___s32]),
     Mem '''' (CStruct [
       Mem '''' (CUnion [
         Mem ''target_fd'' t___u32, Mem ''target_ifindex'' t___u32]),
       Mem ''attach_bpf_fd'' t___u32, Mem ''attach_type'' t___u32, Mem ''attach_flags'' t___u32,
       Mem ''replace_bpf_fd'' t___u32,
       Mem '''' (CUnion [
         Mem ''relative_fd'' t___u32, Mem ''relative_id'' t___u32]),
       Mem ''expected_revision'' t___u64]),
     Mem ''test'' (CStruct [
       Mem ''prog_fd'' t___u32, Mem ''retval'' t___u32, Mem ''data_size_in'' t___u32,
       Mem ''data_size_out'' t___u32, Mem ''data_in'' t___u64, Mem ''data_out'' t___u64,
       Mem ''repeat'' t___u32, Mem ''duration'' t___u32, Mem ''ctx_size_in'' t___u32,
       Mem ''ctx_size_out'' t___u32, Mem ''ctx_in'' t___u64, Mem ''ctx_out'' t___u64,
       Mem ''flags'' t___u32, Mem ''cpu'' t___u32, Mem ''batch_size'' t___u32]),
     Mem '''' (CStruct [
       Mem '''' (CUnion [
         Mem ''start_id'' t___u32, Mem ''prog_id'' t___u32, Mem ''map_id'' t___u32,
         Mem ''btf_id'' t___u32, Mem ''link_id'' t___u32]),
       Mem ''next_id'' t___u32, Mem ''open_flags'' t___u32, Mem ''fd_by_id_token_fd'' t___s32]),
     Mem ''info'' (CStruct [
       Mem ''bpf_fd'' t___u32, Mem ''info_len'' t___u32, Mem ''info'' t___u64]),
     Mem ''query'' (CStruct [
       Mem '''' (CUnion [
         Mem ''target_fd'' t___u32, Mem ''target_ifindex'' t___u32]),
       Mem ''attach_type'' t___u32, Mem ''query_flags'' t___u32, Mem ''attach_flags'' t___u32,
       Mem ''prog_ids'' t___u64,
       Mem '''' (CUnion [Mem ''prog_cnt'' t___u32, Mem ''count'' t___u32]),
       Mem ''prog_attach_flags'' t___u64, Mem ''link_ids'' t___u64,
       Mem ''link_attach_flags'' t___u64, Mem ''revision'' t___u64])]"

definition union_bpf_attr_members_2 :: "cmember list" where
  "union_bpf_attr_members_2 = [
     Mem ''raw_tracepoint'' (CStruct [
       Mem ''name'' t___u64, Mem ''prog_fd'' t___u32, Mem ''cookie'' t___u64]),
     Mem '''' (CStruct [
       Mem ''btf'' t___u64, Mem ''btf_log_buf'' t___u64, Mem ''btf_size'' t___u32,
       Mem ''btf_log_size'' t___u32, Mem ''btf_log_level'' t___u32,
       Mem ''btf_log_true_size'' t___u32, Mem ''btf_flags'' t___u32, Mem ''btf_token_fd'' t___s32]),
     Mem ''task_fd_query'' (CStruct [
       Mem ''pid'' t___u32, Mem ''fd'' t___u32, Mem ''flags'' t___u32, Mem ''buf_len'' t___u32,
       Mem ''buf'' t___u64, Mem ''prog_id'' t___u32, Mem ''fd_type'' t___u32,
       Mem ''probe_offset'' t___u64, Mem ''probe_addr'' t___u64]),
     Mem ''link_create'' (CStruct [
       Mem '''' (CUnion [Mem ''prog_fd'' t___u32, Mem ''map_fd'' t___u32]),
       Mem '''' (CUnion [
         Mem ''target_fd'' t___u32, Mem ''target_ifindex'' t___u32]),
       Mem ''attach_type'' t___u32, Mem ''flags'' t___u32,
       Mem '''' (CUnion [
         Mem ''target_btf_id'' t___u32,
         Mem '''' (CStruct [
           Mem ''iter_info'' t___u64, Mem ''iter_info_len'' t___u32]),
         Mem ''perf_event'' (CStruct [Mem ''bpf_cookie'' t___u64]),
         Mem ''kprobe_multi'' (CStruct [
           Mem ''flags'' t___u32, Mem ''cnt'' t___u32, Mem ''syms'' t___u64,
           Mem ''addrs'' t___u64, Mem ''cookies'' t___u64]),
         Mem ''tracing'' (CStruct [
           Mem ''target_btf_id'' t___u32, Mem ''cookie'' t___u64]),
         Mem ''netfilter'' (CStruct [
           Mem ''pf'' t___u32, Mem ''hooknum'' t___u32, Mem ''priority'' t___s32,
           Mem ''flags'' t___u32]),
         Mem ''tcx'' (CStruct [
           Mem '''' (CUnion [
             Mem ''relative_fd'' t___u32, Mem ''relative_id'' t___u32]),
           Mem ''expected_revision'' t___u64]),
         Mem ''uprobe_multi'' (CStruct [
           Mem ''path'' t___u64, Mem ''offsets'' t___u64, Mem ''ref_ctr_offsets'' t___u64,
           Mem ''cookies'' t___u64, Mem ''cnt'' t___u32, Mem ''flags'' t___u32,
           Mem ''pid'' t___u32]),
         Mem ''netkit'' (CStruct [
           Mem '''' (CUnion [
             Mem ''relative_fd'' t___u32, Mem ''relative_id'' t___u32]),
           Mem ''expected_revision'' t___u64]),
         Mem ''cgroup'' (CStruct [
           Mem '''' (CUnion [
             Mem ''relative_fd'' t___u32, Mem ''relative_id'' t___u32]),
           Mem ''expected_revision'' t___u64])])]),
     Mem ''link_update'' (CStruct [
       Mem ''link_fd'' t___u32,
       Mem '''' (CUnion [
         Mem ''new_prog_fd'' t___u32, Mem ''new_map_fd'' t___u32]),
       Mem ''flags'' t___u32,
       Mem '''' (CUnion [
         Mem ''old_prog_fd'' t___u32, Mem ''old_map_fd'' t___u32])]),
     Mem ''link_detach'' (CStruct [Mem ''link_fd'' t___u32]),
     Mem ''enable_stats'' (CStruct [Mem ''type'' t___u32]),
     Mem ''iter_create'' (CStruct [
       Mem ''link_fd'' t___u32, Mem ''flags'' t___u32]),
     Mem ''prog_bind_map'' (CStruct [
       Mem ''prog_fd'' t___u32, Mem ''map_fd'' t___u32, Mem ''flags'' t___u32]),
     Mem ''token_create'' (CStruct [
       Mem ''flags'' t___u32, Mem ''bpffs_fd'' t___u32]),
     Mem ''prog_stream_read'' (CStruct [
       Mem ''stream_buf'' t___u64, Mem ''stream_buf_len'' t___u32, Mem ''stream_id'' t___u32,
       Mem ''prog_fd'' t___u32])]"

definition union_bpf_attr :: ctype where
  "union_bpf_attr = CUnion (union_bpf_attr_members_1 @ union_bpf_attr_members_2)"

lemma layout_union_bpf_attr [layout_simps]:
  "sizeof union_bpf_attr = 152" "alignof union_bpf_attr = 8" "wf_ctype union_bpf_attr"
  by (simp_all add: union_bpf_attr_def union_bpf_attr_members_1_def union_bpf_attr_members_2_def layout_simps)

definition enum_bpf_cmd :: "(string \<times> int) list" where
  "enum_bpf_cmd = [
     (''BPF_MAP_CREATE'', 0), (''BPF_MAP_LOOKUP_ELEM'', 1), (''BPF_MAP_UPDATE_ELEM'', 2),
     (''BPF_MAP_DELETE_ELEM'', 3), (''BPF_MAP_GET_NEXT_KEY'', 4), (''BPF_PROG_LOAD'', 5),
     (''BPF_OBJ_PIN'', 6), (''BPF_OBJ_GET'', 7), (''BPF_PROG_ATTACH'', 8),
     (''BPF_PROG_DETACH'', 9), (''BPF_PROG_TEST_RUN'', 10), (''BPF_PROG_RUN'', 10),
     (''BPF_PROG_GET_NEXT_ID'', 11), (''BPF_MAP_GET_NEXT_ID'', 12),
     (''BPF_PROG_GET_FD_BY_ID'', 13), (''BPF_MAP_GET_FD_BY_ID'', 14),
     (''BPF_OBJ_GET_INFO_BY_FD'', 15), (''BPF_PROG_QUERY'', 16), (''BPF_RAW_TRACEPOINT_OPEN'', 17),
     (''BPF_BTF_LOAD'', 18), (''BPF_BTF_GET_FD_BY_ID'', 19), (''BPF_TASK_FD_QUERY'', 20),
     (''BPF_MAP_LOOKUP_AND_DELETE_ELEM'', 21), (''BPF_MAP_FREEZE'', 22),
     (''BPF_BTF_GET_NEXT_ID'', 23), (''BPF_MAP_LOOKUP_BATCH'', 24),
     (''BPF_MAP_LOOKUP_AND_DELETE_BATCH'', 25), (''BPF_MAP_UPDATE_BATCH'', 26),
     (''BPF_MAP_DELETE_BATCH'', 27), (''BPF_LINK_CREATE'', 28), (''BPF_LINK_UPDATE'', 29),
     (''BPF_LINK_GET_FD_BY_ID'', 30), (''BPF_LINK_GET_NEXT_ID'', 31), (''BPF_ENABLE_STATS'', 32),
     (''BPF_ITER_CREATE'', 33), (''BPF_LINK_DETACH'', 34), (''BPF_PROG_BIND_MAP'', 35),
     (''BPF_TOKEN_CREATE'', 36), (''BPF_PROG_STREAM_READ_BY_FD'', 37), (''__MAX_BPF_CMD'', 38)]"

definition enum_bpf_func_id :: "(string \<times> int) list" where
  "enum_bpf_func_id = [
     (''BPF_FUNC_unspec'', 0), (''BPF_FUNC_map_lookup_elem'', 1),
     (''BPF_FUNC_map_update_elem'', 2), (''BPF_FUNC_map_delete_elem'', 3),
     (''BPF_FUNC_probe_read'', 4), (''BPF_FUNC_ktime_get_ns'', 5), (''BPF_FUNC_trace_printk'', 6),
     (''BPF_FUNC_get_prandom_u32'', 7), (''BPF_FUNC_get_smp_processor_id'', 8),
     (''BPF_FUNC_skb_store_bytes'', 9), (''BPF_FUNC_l3_csum_replace'', 10),
     (''BPF_FUNC_l4_csum_replace'', 11), (''BPF_FUNC_tail_call'', 12),
     (''BPF_FUNC_clone_redirect'', 13), (''BPF_FUNC_get_current_pid_tgid'', 14),
     (''BPF_FUNC_get_current_uid_gid'', 15), (''BPF_FUNC_get_current_comm'', 16),
     (''BPF_FUNC_get_cgroup_classid'', 17), (''BPF_FUNC_skb_vlan_push'', 18),
     (''BPF_FUNC_skb_vlan_pop'', 19), (''BPF_FUNC_skb_get_tunnel_key'', 20),
     (''BPF_FUNC_skb_set_tunnel_key'', 21), (''BPF_FUNC_perf_event_read'', 22),
     (''BPF_FUNC_redirect'', 23), (''BPF_FUNC_get_route_realm'', 24),
     (''BPF_FUNC_perf_event_output'', 25), (''BPF_FUNC_skb_load_bytes'', 26),
     (''BPF_FUNC_get_stackid'', 27), (''BPF_FUNC_csum_diff'', 28),
     (''BPF_FUNC_skb_get_tunnel_opt'', 29), (''BPF_FUNC_skb_set_tunnel_opt'', 30),
     (''BPF_FUNC_skb_change_proto'', 31), (''BPF_FUNC_skb_change_type'', 32),
     (''BPF_FUNC_skb_under_cgroup'', 33), (''BPF_FUNC_get_hash_recalc'', 34),
     (''BPF_FUNC_get_current_task'', 35), (''BPF_FUNC_probe_write_user'', 36),
     (''BPF_FUNC_current_task_under_cgroup'', 37), (''BPF_FUNC_skb_change_tail'', 38),
     (''BPF_FUNC_skb_pull_data'', 39), (''BPF_FUNC_csum_update'', 40),
     (''BPF_FUNC_set_hash_invalid'', 41), (''BPF_FUNC_get_numa_node_id'', 42),
     (''BPF_FUNC_skb_change_head'', 43), (''BPF_FUNC_xdp_adjust_head'', 44),
     (''BPF_FUNC_probe_read_str'', 45), (''BPF_FUNC_get_socket_cookie'', 46),
     (''BPF_FUNC_get_socket_uid'', 47), (''BPF_FUNC_set_hash'', 48), (''BPF_FUNC_setsockopt'', 49),
     (''BPF_FUNC_skb_adjust_room'', 50), (''BPF_FUNC_redirect_map'', 51),
     (''BPF_FUNC_sk_redirect_map'', 52), (''BPF_FUNC_sock_map_update'', 53),
     (''BPF_FUNC_xdp_adjust_meta'', 54), (''BPF_FUNC_perf_event_read_value'', 55),
     (''BPF_FUNC_perf_prog_read_value'', 56), (''BPF_FUNC_getsockopt'', 57),
     (''BPF_FUNC_override_return'', 58), (''BPF_FUNC_sock_ops_cb_flags_set'', 59),
     (''BPF_FUNC_msg_redirect_map'', 60), (''BPF_FUNC_msg_apply_bytes'', 61),
     (''BPF_FUNC_msg_cork_bytes'', 62), (''BPF_FUNC_msg_pull_data'', 63), (''BPF_FUNC_bind'', 64),
     (''BPF_FUNC_xdp_adjust_tail'', 65), (''BPF_FUNC_skb_get_xfrm_state'', 66),
     (''BPF_FUNC_get_stack'', 67), (''BPF_FUNC_skb_load_bytes_relative'', 68),
     (''BPF_FUNC_fib_lookup'', 69), (''BPF_FUNC_sock_hash_update'', 70),
     (''BPF_FUNC_msg_redirect_hash'', 71), (''BPF_FUNC_sk_redirect_hash'', 72),
     (''BPF_FUNC_lwt_push_encap'', 73), (''BPF_FUNC_lwt_seg6_store_bytes'', 74),
     (''BPF_FUNC_lwt_seg6_adjust_srh'', 75), (''BPF_FUNC_lwt_seg6_action'', 76),
     (''BPF_FUNC_rc_repeat'', 77), (''BPF_FUNC_rc_keydown'', 78), (''BPF_FUNC_skb_cgroup_id'', 79),
     (''BPF_FUNC_get_current_cgroup_id'', 80), (''BPF_FUNC_get_local_storage'', 81),
     (''BPF_FUNC_sk_select_reuseport'', 82), (''BPF_FUNC_skb_ancestor_cgroup_id'', 83),
     (''BPF_FUNC_sk_lookup_tcp'', 84), (''BPF_FUNC_sk_lookup_udp'', 85),
     (''BPF_FUNC_sk_release'', 86), (''BPF_FUNC_map_push_elem'', 87),
     (''BPF_FUNC_map_pop_elem'', 88), (''BPF_FUNC_map_peek_elem'', 89),
     (''BPF_FUNC_msg_push_data'', 90), (''BPF_FUNC_msg_pop_data'', 91),
     (''BPF_FUNC_rc_pointer_rel'', 92), (''BPF_FUNC_spin_lock'', 93),
     (''BPF_FUNC_spin_unlock'', 94), (''BPF_FUNC_sk_fullsock'', 95), (''BPF_FUNC_tcp_sock'', 96),
     (''BPF_FUNC_skb_ecn_set_ce'', 97), (''BPF_FUNC_get_listener_sock'', 98),
     (''BPF_FUNC_skc_lookup_tcp'', 99), (''BPF_FUNC_tcp_check_syncookie'', 100),
     (''BPF_FUNC_sysctl_get_name'', 101), (''BPF_FUNC_sysctl_get_current_value'', 102),
     (''BPF_FUNC_sysctl_get_new_value'', 103), (''BPF_FUNC_sysctl_set_new_value'', 104),
     (''BPF_FUNC_strtol'', 105), (''BPF_FUNC_strtoul'', 106), (''BPF_FUNC_sk_storage_get'', 107),
     (''BPF_FUNC_sk_storage_delete'', 108), (''BPF_FUNC_send_signal'', 109),
     (''BPF_FUNC_tcp_gen_syncookie'', 110), (''BPF_FUNC_skb_output'', 111),
     (''BPF_FUNC_probe_read_user'', 112), (''BPF_FUNC_probe_read_kernel'', 113),
     (''BPF_FUNC_probe_read_user_str'', 114), (''BPF_FUNC_probe_read_kernel_str'', 115),
     (''BPF_FUNC_tcp_send_ack'', 116), (''BPF_FUNC_send_signal_thread'', 117),
     (''BPF_FUNC_jiffies64'', 118), (''BPF_FUNC_read_branch_records'', 119),
     (''BPF_FUNC_get_ns_current_pid_tgid'', 120), (''BPF_FUNC_xdp_output'', 121),
     (''BPF_FUNC_get_netns_cookie'', 122), (''BPF_FUNC_get_current_ancestor_cgroup_id'', 123),
     (''BPF_FUNC_sk_assign'', 124), (''BPF_FUNC_ktime_get_boot_ns'', 125),
     (''BPF_FUNC_seq_printf'', 126), (''BPF_FUNC_seq_write'', 127),
     (''BPF_FUNC_sk_cgroup_id'', 128), (''BPF_FUNC_sk_ancestor_cgroup_id'', 129),
     (''BPF_FUNC_ringbuf_output'', 130), (''BPF_FUNC_ringbuf_reserve'', 131),
     (''BPF_FUNC_ringbuf_submit'', 132), (''BPF_FUNC_ringbuf_discard'', 133),
     (''BPF_FUNC_ringbuf_query'', 134), (''BPF_FUNC_csum_level'', 135),
     (''BPF_FUNC_skc_to_tcp6_sock'', 136), (''BPF_FUNC_skc_to_tcp_sock'', 137),
     (''BPF_FUNC_skc_to_tcp_timewait_sock'', 138), (''BPF_FUNC_skc_to_tcp_request_sock'', 139),
     (''BPF_FUNC_skc_to_udp6_sock'', 140), (''BPF_FUNC_get_task_stack'', 141),
     (''BPF_FUNC_load_hdr_opt'', 142), (''BPF_FUNC_store_hdr_opt'', 143),
     (''BPF_FUNC_reserve_hdr_opt'', 144), (''BPF_FUNC_inode_storage_get'', 145),
     (''BPF_FUNC_inode_storage_delete'', 146), (''BPF_FUNC_d_path'', 147),
     (''BPF_FUNC_copy_from_user'', 148), (''BPF_FUNC_snprintf_btf'', 149),
     (''BPF_FUNC_seq_printf_btf'', 150), (''BPF_FUNC_skb_cgroup_classid'', 151),
     (''BPF_FUNC_redirect_neigh'', 152), (''BPF_FUNC_per_cpu_ptr'', 153),
     (''BPF_FUNC_this_cpu_ptr'', 154), (''BPF_FUNC_redirect_peer'', 155),
     (''BPF_FUNC_task_storage_get'', 156), (''BPF_FUNC_task_storage_delete'', 157),
     (''BPF_FUNC_get_current_task_btf'', 158), (''BPF_FUNC_bprm_opts_set'', 159),
     (''BPF_FUNC_ktime_get_coarse_ns'', 160), (''BPF_FUNC_ima_inode_hash'', 161),
     (''BPF_FUNC_sock_from_file'', 162), (''BPF_FUNC_check_mtu'', 163),
     (''BPF_FUNC_for_each_map_elem'', 164), (''BPF_FUNC_snprintf'', 165),
     (''BPF_FUNC_sys_bpf'', 166), (''BPF_FUNC_btf_find_by_name_kind'', 167),
     (''BPF_FUNC_sys_close'', 168), (''BPF_FUNC_timer_init'', 169),
     (''BPF_FUNC_timer_set_callback'', 170), (''BPF_FUNC_timer_start'', 171),
     (''BPF_FUNC_timer_cancel'', 172), (''BPF_FUNC_get_func_ip'', 173),
     (''BPF_FUNC_get_attach_cookie'', 174), (''BPF_FUNC_task_pt_regs'', 175),
     (''BPF_FUNC_get_branch_snapshot'', 176), (''BPF_FUNC_trace_vprintk'', 177),
     (''BPF_FUNC_skc_to_unix_sock'', 178), (''BPF_FUNC_kallsyms_lookup_name'', 179),
     (''BPF_FUNC_find_vma'', 180), (''BPF_FUNC_loop'', 181), (''BPF_FUNC_strncmp'', 182),
     (''BPF_FUNC_get_func_arg'', 183), (''BPF_FUNC_get_func_ret'', 184),
     (''BPF_FUNC_get_func_arg_cnt'', 185), (''BPF_FUNC_get_retval'', 186),
     (''BPF_FUNC_set_retval'', 187), (''BPF_FUNC_xdp_get_buff_len'', 188),
     (''BPF_FUNC_xdp_load_bytes'', 189), (''BPF_FUNC_xdp_store_bytes'', 190),
     (''BPF_FUNC_copy_from_user_task'', 191), (''BPF_FUNC_skb_set_tstamp'', 192),
     (''BPF_FUNC_ima_file_hash'', 193), (''BPF_FUNC_kptr_xchg'', 194),
     (''BPF_FUNC_map_lookup_percpu_elem'', 195), (''BPF_FUNC_skc_to_mptcp_sock'', 196),
     (''BPF_FUNC_dynptr_from_mem'', 197), (''BPF_FUNC_ringbuf_reserve_dynptr'', 198),
     (''BPF_FUNC_ringbuf_submit_dynptr'', 199), (''BPF_FUNC_ringbuf_discard_dynptr'', 200),
     (''BPF_FUNC_dynptr_read'', 201), (''BPF_FUNC_dynptr_write'', 202),
     (''BPF_FUNC_dynptr_data'', 203), (''BPF_FUNC_tcp_raw_gen_syncookie_ipv4'', 204),
     (''BPF_FUNC_tcp_raw_gen_syncookie_ipv6'', 205),
     (''BPF_FUNC_tcp_raw_check_syncookie_ipv4'', 206),
     (''BPF_FUNC_tcp_raw_check_syncookie_ipv6'', 207), (''BPF_FUNC_ktime_get_tai_ns'', 208),
     (''BPF_FUNC_user_ringbuf_drain'', 209), (''BPF_FUNC_cgrp_storage_get'', 210),
     (''BPF_FUNC_cgrp_storage_delete'', 211), (''__BPF_FUNC_MAX_ID'', 212)]"

definition enum_bpf_update_flags :: "(string \<times> int) list" where
  "enum_bpf_update_flags = [
     (''BPF_ANY'', 0), (''BPF_NOEXIST'', 1), (''BPF_EXIST'', 2), (''BPF_F_LOCK'', 4)]"

definition enum_bpf_rb_flags :: "(string \<times> int) list" where
  "enum_bpf_rb_flags = [
     (''BPF_RB_NO_WAKEUP'', 1), (''BPF_RB_FORCE_WAKEUP'', 2)]"

definition enum_bpf_ringbuf_consts :: "(string \<times> int) list" where
  "enum_bpf_ringbuf_consts = [
     (''BPF_RINGBUF_BUSY_BIT'', 2147483648), (''BPF_RINGBUF_DISCARD_BIT'', 1073741824),
     (''BPF_RINGBUF_HDR_SZ'', 8)]"

end
