(* ===== verification/Kernel_Dev.thy ===== *)
theory Kernel_Dev
  imports Kernel_Bpf
begin

text \<open>
  Socket buffers and network devices, from \<^verbatim>\<open>src/pkg/capture/bpf/vmlinux.h\<close>: what the XDP
  program is attached to, and what carries a frame when it runs in generic mode.
\<close>

abbreviation t___wsum :: ctype where
  "t___wsum \<equiv> t___u32"

abbreviation t_sk_buff_data_t :: ctype where
  "t_sk_buff_data_t \<equiv> CU32"

definition struct_sk_buff_members_1 :: "cmember list" where
  "struct_sk_buff_members_1 = [
     Mem '''' (CUnion [
       Mem '''' (CStruct [
         Mem ''next'' CPtr, Mem ''prev'' CPtr,
         Mem '''' (CUnion [Mem ''dev'' CPtr, Mem ''dev_scratch'' CU64])]),
       Mem ''rbnode'' struct_rb_node, Mem ''list'' struct_list_head,
       Mem ''ll_node'' struct_llist_node]),
     Mem ''sk'' CPtr, Mem '''' (CUnion [Mem ''tstamp'' t_ktime_t, Mem ''skb_mstamp_ns'' t_u64]),
     Mem ''cb'' (CArr CU8 48),
     Mem '''' (CUnion [
       Mem '''' (CStruct [Mem ''_skb_refdst'' CU64, Mem ''destructor'' CPtr]),
       Mem ''tcp_tsorted_anchor'' struct_list_head, Mem ''_sk_redir'' CU64]),
     Mem ''_nfct'' CU64, Mem ''len'' CU32, Mem ''data_len'' CU32, Mem ''mac_len'' t___u16,
     Mem ''hdr_len'' t___u16, Mem ''queue_mapping'' t___u16,
     Mem ''__cloned_offset'' (CArr t___u8 0), Bits ''cloned'' t___u8 1, Bits ''nohdr'' t___u8 1,
     Bits ''fclone'' t___u8 2, Bits ''peeked'' t___u8 1, Bits ''head_frag'' t___u8 1,
     Bits ''pfmemalloc'' t___u8 1, Bits ''pp_recycle'' t___u8 1, Mem ''active_extensions'' t___u8,
     Mem '''' (CUnion [
       Mem '''' (CStruct [
         Mem ''__pkt_type_offset'' (CArr t___u8 0), Bits ''pkt_type'' t___u8 3,
         Bits ''ignore_df'' t___u8 1, Bits ''dst_pending_confirm'' t___u8 1,
         Bits ''ip_summed'' t___u8 2, Bits ''ooo_okay'' t___u8 1,
         Mem ''__mono_tc_offset'' (CArr t___u8 0), Bits ''tstamp_type'' t___u8 2,
         Bits ''tc_at_ingress'' t___u8 1, Bits ''tc_skip_classify'' t___u8 1,
         Bits ''remcsum_offload'' t___u8 1, Bits ''csum_complete_sw'' t___u8 1,
         Bits ''csum_level'' t___u8 2, Bits ''inner_protocol_type'' t___u8 1,
         Bits ''l4_hash'' t___u8 1, Bits ''sw_hash'' t___u8 1, Bits ''wifi_acked_valid'' t___u8 1,
         Bits ''wifi_acked'' t___u8 1, Bits ''no_fcs'' t___u8 1, Bits ''encapsulation'' t___u8 1,
         Bits ''encap_hdr_csum'' t___u8 1, Bits ''csum_valid'' t___u8 1,
         Bits ''ndisc_nodetype'' t___u8 2, Bits ''ipvs_property'' t___u8 1,
         Bits ''nf_trace'' t___u8 1, Bits ''offload_fwd_mark'' t___u8 1,
         Bits ''offload_l3_fwd_mark'' t___u8 1, Bits ''redirected'' t___u8 1,
         Bits ''from_ingress'' t___u8 1, Bits ''nf_skip_egress'' t___u8 1,
         Bits ''decrypted'' t___u8 1, Bits ''slow_gro'' t___u8 1, Bits ''csum_not_inet'' t___u8 1,
         Bits ''unreadable'' t___u8 1, Mem ''tc_index'' t___u16, Mem ''alloc_cpu'' t_u16,
         Mem '''' (CUnion [
           Mem ''csum'' t___wsum,
           Mem '''' (CStruct [
             Mem ''csum_start'' t___u16, Mem ''csum_offset'' t___u16])]),
         Mem ''priority'' t___u32, Mem ''skb_iif'' CU32, Mem ''hash'' t___u32,
         Mem '''' (CUnion [
           Mem ''vlan_all'' t_u32,
           Mem '''' (CStruct [
             Mem ''vlan_proto'' t___be16, Mem ''vlan_tci'' t___u16])]),
         Mem '''' (CUnion [Mem ''napi_id'' CU32, Mem ''sender_cpu'' CU32]),
         Mem ''secmark'' t___u32,
         Mem '''' (CUnion [
           Mem ''mark'' t___u32, Mem ''reserved_tailroom'' t___u32]),
         Mem '''' (CUnion [
           Mem ''inner_protocol'' t___be16, Mem ''inner_ipproto'' t___u8]),
         Mem ''inner_transport_header'' t___u16, Mem ''inner_network_header'' t___u16,
         Mem ''inner_mac_header'' t___u16, Mem ''protocol'' t___be16,
         Mem ''transport_header'' t___u16, Mem ''network_header'' t___u16,
         Mem ''mac_header'' t___u16]),
       Mem ''headers'' (CStruct [
         Mem ''__pkt_type_offset'' (CArr t___u8 0), Bits ''pkt_type'' t___u8 3,
         Bits ''ignore_df'' t___u8 1, Bits ''dst_pending_confirm'' t___u8 1,
         Bits ''ip_summed'' t___u8 2, Bits ''ooo_okay'' t___u8 1,
         Mem ''__mono_tc_offset'' (CArr t___u8 0), Bits ''tstamp_type'' t___u8 2,
         Bits ''tc_at_ingress'' t___u8 1, Bits ''tc_skip_classify'' t___u8 1,
         Bits ''remcsum_offload'' t___u8 1, Bits ''csum_complete_sw'' t___u8 1,
         Bits ''csum_level'' t___u8 2, Bits ''inner_protocol_type'' t___u8 1,
         Bits ''l4_hash'' t___u8 1, Bits ''sw_hash'' t___u8 1, Bits ''wifi_acked_valid'' t___u8 1,
         Bits ''wifi_acked'' t___u8 1, Bits ''no_fcs'' t___u8 1, Bits ''encapsulation'' t___u8 1,
         Bits ''encap_hdr_csum'' t___u8 1, Bits ''csum_valid'' t___u8 1,
         Bits ''ndisc_nodetype'' t___u8 2, Bits ''ipvs_property'' t___u8 1,
         Bits ''nf_trace'' t___u8 1, Bits ''offload_fwd_mark'' t___u8 1,
         Bits ''offload_l3_fwd_mark'' t___u8 1, Bits ''redirected'' t___u8 1,
         Bits ''from_ingress'' t___u8 1, Bits ''nf_skip_egress'' t___u8 1,
         Bits ''decrypted'' t___u8 1, Bits ''slow_gro'' t___u8 1, Bits ''csum_not_inet'' t___u8 1,
         Bits ''unreadable'' t___u8 1, Mem ''tc_index'' t___u16, Mem ''alloc_cpu'' t_u16,
         Mem '''' (CUnion [
           Mem ''csum'' t___wsum,
           Mem '''' (CStruct [
             Mem ''csum_start'' t___u16, Mem ''csum_offset'' t___u16])]),
         Mem ''priority'' t___u32, Mem ''skb_iif'' CU32, Mem ''hash'' t___u32,
         Mem '''' (CUnion [
           Mem ''vlan_all'' t_u32,
           Mem '''' (CStruct [
             Mem ''vlan_proto'' t___be16, Mem ''vlan_tci'' t___u16])]),
         Mem '''' (CUnion [Mem ''napi_id'' CU32, Mem ''sender_cpu'' CU32]),
         Mem ''secmark'' t___u32,
         Mem '''' (CUnion [
           Mem ''mark'' t___u32, Mem ''reserved_tailroom'' t___u32]),
         Mem '''' (CUnion [
           Mem ''inner_protocol'' t___be16, Mem ''inner_ipproto'' t___u8]),
         Mem ''inner_transport_header'' t___u16, Mem ''inner_network_header'' t___u16,
         Mem ''inner_mac_header'' t___u16, Mem ''protocol'' t___be16,
         Mem ''transport_header'' t___u16, Mem ''network_header'' t___u16,
         Mem ''mac_header'' t___u16])])]"

definition struct_sk_buff_members_2 :: "cmember list" where
  "struct_sk_buff_members_2 = [
     Mem ''tail'' t_sk_buff_data_t, Mem ''end'' t_sk_buff_data_t, Mem ''head'' CPtr,
     Mem ''data'' CPtr, Mem ''truesize'' CU32, Mem ''users'' t_refcount_t, Mem ''extensions'' CPtr]"

definition struct_sk_buff :: ctype where
  "struct_sk_buff = CStruct (struct_sk_buff_members_1 @ struct_sk_buff_members_2)"

lemma layout_struct_sk_buff [layout_simps]:
  "sizeof struct_sk_buff = 232" "alignof struct_sk_buff = 8" "wf_ctype struct_sk_buff"
  by (simp_all add: struct_sk_buff_def struct_sk_buff_members_1_def struct_sk_buff_members_2_def layout_simps)

definition struct_skb_shared_hwtstamps :: ctype where
  "struct_skb_shared_hwtstamps = CStruct [
     Mem '''' (CUnion [Mem ''hwtstamp'' t_ktime_t, Mem ''netdev_data'' CPtr])]"

lemma layout_struct_skb_shared_hwtstamps [layout_simps]:
  "sizeof struct_skb_shared_hwtstamps = 8" "alignof struct_skb_shared_hwtstamps = 8" "wf_ctype struct_skb_shared_hwtstamps"
  by (simp_all add: struct_skb_shared_hwtstamps_def layout_simps)

definition struct_xsk_tx_metadata_compl :: ctype where
  "struct_xsk_tx_metadata_compl = CStruct [
     Mem ''tx_timestamp'' CPtr]"

lemma layout_struct_xsk_tx_metadata_compl [layout_simps]:
  "sizeof struct_xsk_tx_metadata_compl = 8" "alignof struct_xsk_tx_metadata_compl = 8" "wf_ctype struct_xsk_tx_metadata_compl"
  by (simp_all add: struct_xsk_tx_metadata_compl_def layout_simps)

abbreviation t_netmem_ref :: ctype where
  "t_netmem_ref \<equiv> CU64"

definition struct_skb_frag :: ctype where
  "struct_skb_frag = CStruct [
     Mem ''netmem'' t_netmem_ref, Mem ''len'' CU32, Mem ''offset'' CU32]"

lemma layout_struct_skb_frag [layout_simps]:
  "sizeof struct_skb_frag = 16" "alignof struct_skb_frag = 8" "wf_ctype struct_skb_frag"
  by (simp_all add: struct_skb_frag_def layout_simps)

abbreviation t_skb_frag_t :: ctype where
  "t_skb_frag_t \<equiv> struct_skb_frag"

definition struct_skb_shared_info :: ctype where
  "struct_skb_shared_info = CStruct [
     Mem ''flags'' t___u8, Mem ''meta_len'' t___u8, Mem ''nr_frags'' t___u8,
     Mem ''tx_flags'' t___u8, Mem ''gso_size'' CU16, Mem ''gso_segs'' CU16,
     Mem ''frag_list'' CPtr,
     Mem '''' (CUnion [
       Mem ''hwtstamps'' struct_skb_shared_hwtstamps,
       Mem ''xsk_meta'' struct_xsk_tx_metadata_compl]),
     Mem ''gso_type'' CU32, Mem ''tskey'' t_u32, Mem ''dataref'' t_atomic_t,
     Mem '''' (CUnion [
       Mem '''' (CStruct [
         Mem ''xdp_frags_size'' t_u32, Mem ''xdp_frags_truesize'' t_u32]),
       Mem ''destructor_arg'' CPtr]),
     Mem ''frags'' (CArr t_skb_frag_t 17)]"

lemma layout_struct_skb_shared_info [layout_simps]:
  "sizeof struct_skb_shared_info = 320" "alignof struct_skb_shared_info = 8" "wf_ctype struct_skb_shared_info"
  by (simp_all add: struct_skb_shared_info_def layout_simps)

abbreviation t_netdev_features_t :: ctype where
  "t_netdev_features_t \<equiv> t_u64"

abbreviation t_s16 :: ctype where
  "t_s16 \<equiv> t___s16"

definition struct_netdev_tc_txq :: ctype where
  "struct_netdev_tc_txq = CStruct [
     Mem ''count'' t_u16, Mem ''offset'' t_u16]"

lemma layout_struct_netdev_tc_txq [layout_simps]:
  "sizeof struct_netdev_tc_txq = 4" "alignof struct_netdev_tc_txq = 2" "wf_ctype struct_netdev_tc_txq"
  by (simp_all add: struct_netdev_tc_txq_def layout_simps)

definition t_possible_net_t :: ctype where
  "t_possible_net_t = CStruct [
     Mem ''net'' CPtr]"

lemma layout_t_possible_net_t [layout_simps]:
  "sizeof t_possible_net_t = 8" "alignof t_possible_net_t = 8" "wf_ctype t_possible_net_t"
  by (simp_all add: t_possible_net_t_def layout_simps)

abbreviation t_xdp_features_t :: ctype where
  "t_xdp_features_t \<equiv> t_u32"

definition struct_net_device_stats :: ctype where
  "struct_net_device_stats = CStruct [
     Mem '''' (CUnion [
       Mem ''rx_packets'' CU64, Mem ''__rx_packets'' t_atomic_long_t]),
     Mem '''' (CUnion [
       Mem ''tx_packets'' CU64, Mem ''__tx_packets'' t_atomic_long_t]),
     Mem '''' (CUnion [
       Mem ''rx_bytes'' CU64, Mem ''__rx_bytes'' t_atomic_long_t]),
     Mem '''' (CUnion [
       Mem ''tx_bytes'' CU64, Mem ''__tx_bytes'' t_atomic_long_t]),
     Mem '''' (CUnion [
       Mem ''rx_errors'' CU64, Mem ''__rx_errors'' t_atomic_long_t]),
     Mem '''' (CUnion [
       Mem ''tx_errors'' CU64, Mem ''__tx_errors'' t_atomic_long_t]),
     Mem '''' (CUnion [
       Mem ''rx_dropped'' CU64, Mem ''__rx_dropped'' t_atomic_long_t]),
     Mem '''' (CUnion [
       Mem ''tx_dropped'' CU64, Mem ''__tx_dropped'' t_atomic_long_t]),
     Mem '''' (CUnion [
       Mem ''multicast'' CU64, Mem ''__multicast'' t_atomic_long_t]),
     Mem '''' (CUnion [
       Mem ''collisions'' CU64, Mem ''__collisions'' t_atomic_long_t]),
     Mem '''' (CUnion [
       Mem ''rx_length_errors'' CU64, Mem ''__rx_length_errors'' t_atomic_long_t]),
     Mem '''' (CUnion [
       Mem ''rx_over_errors'' CU64, Mem ''__rx_over_errors'' t_atomic_long_t]),
     Mem '''' (CUnion [
       Mem ''rx_crc_errors'' CU64, Mem ''__rx_crc_errors'' t_atomic_long_t]),
     Mem '''' (CUnion [
       Mem ''rx_frame_errors'' CU64, Mem ''__rx_frame_errors'' t_atomic_long_t]),
     Mem '''' (CUnion [
       Mem ''rx_fifo_errors'' CU64, Mem ''__rx_fifo_errors'' t_atomic_long_t]),
     Mem '''' (CUnion [
       Mem ''rx_missed_errors'' CU64, Mem ''__rx_missed_errors'' t_atomic_long_t]),
     Mem '''' (CUnion [
       Mem ''tx_aborted_errors'' CU64, Mem ''__tx_aborted_errors'' t_atomic_long_t]),
     Mem '''' (CUnion [
       Mem ''tx_carrier_errors'' CU64, Mem ''__tx_carrier_errors'' t_atomic_long_t]),
     Mem '''' (CUnion [
       Mem ''tx_fifo_errors'' CU64, Mem ''__tx_fifo_errors'' t_atomic_long_t]),
     Mem '''' (CUnion [
       Mem ''tx_heartbeat_errors'' CU64, Mem ''__tx_heartbeat_errors'' t_atomic_long_t]),
     Mem '''' (CUnion [
       Mem ''tx_window_errors'' CU64, Mem ''__tx_window_errors'' t_atomic_long_t]),
     Mem '''' (CUnion [
       Mem ''rx_compressed'' CU64, Mem ''__rx_compressed'' t_atomic_long_t]),
     Mem '''' (CUnion [
       Mem ''tx_compressed'' CU64, Mem ''__tx_compressed'' t_atomic_long_t])]"

lemma layout_struct_net_device_stats [layout_simps]:
  "sizeof struct_net_device_stats = 184" "alignof struct_net_device_stats = 8" "wf_ctype struct_net_device_stats"
  by (simp_all add: struct_net_device_stats_def layout_simps)

definition struct_netdev_hw_addr_list :: ctype where
  "struct_netdev_hw_addr_list = CStruct [
     Mem ''list'' struct_list_head, Mem ''count'' CU32, Mem ''tree'' struct_rb_root]"

lemma layout_struct_netdev_hw_addr_list [layout_simps]:
  "sizeof struct_netdev_hw_addr_list = 32" "alignof struct_netdev_hw_addr_list = 8" "wf_ctype struct_netdev_hw_addr_list"
  by (simp_all add: struct_netdev_hw_addr_list_def layout_simps)

definition struct_ref_tracker_dir :: ctype where
  "struct_ref_tracker_dir = CStruct []"

lemma layout_struct_ref_tracker_dir [layout_simps]:
  "sizeof struct_ref_tracker_dir = 0" "alignof struct_ref_tracker_dir = 1" "wf_ctype struct_ref_tracker_dir"
  by (simp_all add: struct_ref_tracker_dir_def layout_simps)

definition enum_netdev_ml_priv_type :: "(string \<times> int) list" where
  "enum_netdev_ml_priv_type = [
     (''ML_PRIV_NONE'', 0), (''ML_PRIV_CAN'', 1)]"

definition enum_netdev_stat_type :: "(string \<times> int) list" where
  "enum_netdev_stat_type = [
     (''NETDEV_PCPU_STAT_NONE'', 0), (''NETDEV_PCPU_STAT_LSTATS'', 1),
     (''NETDEV_PCPU_STAT_TSTATS'', 2), (''NETDEV_PCPU_STAT_DSTATS'', 3)]"

definition struct_kref :: ctype where
  "struct_kref = CStruct [
     Mem ''refcount'' t_refcount_t]"

lemma layout_struct_kref [layout_simps]:
  "sizeof struct_kref = 4" "alignof struct_kref = 4" "wf_ctype struct_kref"
  by (simp_all add: struct_kref_def layout_simps)

definition struct_kobject :: ctype where
  "struct_kobject = CStruct [
     Mem ''name'' CPtr, Mem ''entry'' struct_list_head, Mem ''parent'' CPtr, Mem ''kset'' CPtr,
     Mem ''ktype'' CPtr, Mem ''sd'' CPtr, Mem ''kref'' struct_kref,
     Bits ''state_initialized'' CU32 1, Bits ''state_in_sysfs'' CU32 1,
     Bits ''state_add_uevent_sent'' CU32 1, Bits ''state_remove_uevent_sent'' CU32 1,
     Bits ''uevent_suppress'' CU32 1]"

lemma layout_struct_kobject [layout_simps]:
  "sizeof struct_kobject = 64" "alignof struct_kobject = 8" "wf_ctype struct_kobject"
  by (simp_all add: struct_kobject_def layout_simps)

definition enum_dl_dev_state :: "(string \<times> int) list" where
  "enum_dl_dev_state = [
     (''DL_DEV_NO_DRIVER'', 0), (''DL_DEV_PROBING'', 1), (''DL_DEV_DRIVER_BOUND'', 2),
     (''DL_DEV_UNBINDING'', 3)]"

definition struct_dev_links_info :: ctype where
  "struct_dev_links_info = CStruct [
     Mem ''suppliers'' struct_list_head, Mem ''consumers'' struct_list_head,
     Mem ''defer_sync'' struct_list_head, Mem ''status'' CEnum]"

lemma layout_struct_dev_links_info [layout_simps]:
  "sizeof struct_dev_links_info = 56" "alignof struct_dev_links_info = 8" "wf_ctype struct_dev_links_info"
  by (simp_all add: struct_dev_links_info_def layout_simps)

definition struct_pm_message :: ctype where
  "struct_pm_message = CStruct [
     Mem ''event'' CU32]"

lemma layout_struct_pm_message [layout_simps]:
  "sizeof struct_pm_message = 4" "alignof struct_pm_message = 4" "wf_ctype struct_pm_message"
  by (simp_all add: struct_pm_message_def layout_simps)

abbreviation t_pm_message_t :: ctype where
  "t_pm_message_t \<equiv> struct_pm_message"

definition struct_swait_queue_head :: ctype where
  "struct_swait_queue_head = CStruct [
     Mem ''lock'' t_raw_spinlock_t, Mem ''task_list'' struct_list_head]"

lemma layout_struct_swait_queue_head [layout_simps]:
  "sizeof struct_swait_queue_head = 24" "alignof struct_swait_queue_head = 8" "wf_ctype struct_swait_queue_head"
  by (simp_all add: struct_swait_queue_head_def layout_simps)

definition struct_completion :: ctype where
  "struct_completion = CStruct [
     Mem ''done'' CU32, Mem ''wait'' struct_swait_queue_head]"

lemma layout_struct_completion [layout_simps]:
  "sizeof struct_completion = 32" "alignof struct_completion = 8" "wf_ctype struct_completion"
  by (simp_all add: struct_completion_def layout_simps)

definition enum_rpm_request :: "(string \<times> int) list" where
  "enum_rpm_request = [
     (''RPM_REQ_NONE'', 0), (''RPM_REQ_IDLE'', 1), (''RPM_REQ_SUSPEND'', 2),
     (''RPM_REQ_AUTOSUSPEND'', 3), (''RPM_REQ_RESUME'', 4)]"

definition enum_rpm_status :: "(string \<times> int) list" where
  "enum_rpm_status = [
     (''RPM_INVALID'', -1), (''RPM_ACTIVE'', 0), (''RPM_RESUMING'', 1), (''RPM_SUSPENDED'', 2),
     (''RPM_SUSPENDING'', 3), (''RPM_BLOCKED'', 4)]"

definition struct_dev_pm_info :: ctype where
  "struct_dev_pm_info = CStruct [
     Mem ''power_state'' t_pm_message_t, Bits ''can_wakeup'' CU8 1, Bits ''async_suspend'' CU8 1,
     Bits ''in_dpm_list'' CU8 1, Bits ''is_prepared'' CU8 1, Bits ''is_suspended'' CU8 1,
     Bits ''is_noirq_suspended'' CU8 1, Bits ''is_late_suspended'' CU8 1, Bits ''no_pm'' CU8 1,
     Bits ''early_init'' CU8 1, Bits ''direct_complete'' CU8 1, Mem ''driver_flags'' t_u32,
     Mem ''lock'' t_spinlock_t, Mem ''entry'' struct_list_head,
     Mem ''completion'' struct_completion, Mem ''wakeup'' CPtr, Bits ''wakeup_path'' CU8 1,
     Bits ''syscore'' CU8 1, Bits ''no_pm_callbacks'' CU8 1, Bits ''work_in_progress'' CU8 1,
     Bits ''smart_suspend'' CU8 1, Bits ''must_resume'' CU8 1, Bits ''may_skip_resume'' CU8 1,
     Bits ''strict_midlayer'' CU8 1, Mem ''suspend_timer'' struct_hrtimer,
     Mem ''timer_expires'' t_u64, Mem ''work'' struct_work_struct,
     Mem ''wait_queue'' t_wait_queue_head_t, Mem ''wakeirq'' CPtr, Mem ''usage_count'' t_atomic_t,
     Mem ''child_count'' t_atomic_t, Bits ''disable_depth'' CU32 3,
     Bits ''idle_notification'' CU8 1, Bits ''request_pending'' CU8 1,
     Bits ''deferred_resume'' CU8 1, Bits ''needs_force_resume'' CU8 1,
     Bits ''runtime_auto'' CU8 1, Bits ''ignore_children'' CU8 1, Bits ''no_callbacks'' CU8 1,
     Bits ''irq_safe'' CU8 1, Bits ''use_autosuspend'' CU8 1, Bits ''timer_autosuspends'' CU8 1,
     Bits ''memalloc_noio'' CU8 1, Mem ''links_count'' CU32, Mem ''request'' CEnum,
     Mem ''runtime_status'' CEnum, Mem ''last_status'' CEnum, Mem ''runtime_error'' CU32,
     Mem ''autosuspend_delay'' CU32, Mem ''last_busy'' t_u64, Mem ''active_time'' t_u64,
     Mem ''suspended_time'' t_u64, Mem ''accounting_timestamp'' t_u64, Mem ''subsys_data'' CPtr,
     Mem ''set_latency_tolerance'' CPtr, Mem ''qos'' CPtr, Bits ''detach_power_off'' CU8 1]"

lemma layout_struct_dev_pm_info [layout_simps]:
  "sizeof struct_dev_pm_info = 320" "alignof struct_dev_pm_info = 8" "wf_ctype struct_dev_pm_info"
  by (simp_all add: struct_dev_pm_info_def layout_simps)

definition struct_dev_msi_info :: ctype where
  "struct_dev_msi_info = CStruct [
     Mem ''domain'' CPtr, Mem ''data'' CPtr]"

lemma layout_struct_dev_msi_info [layout_simps]:
  "sizeof struct_dev_msi_info = 16" "alignof struct_dev_msi_info = 8" "wf_ctype struct_dev_msi_info"
  by (simp_all add: struct_dev_msi_info_def layout_simps)

definition struct_dev_archdata :: ctype where
  "struct_dev_archdata = CStruct []"

lemma layout_struct_dev_archdata [layout_simps]:
  "sizeof struct_dev_archdata = 0" "alignof struct_dev_archdata = 1" "wf_ctype struct_dev_archdata"
  by (simp_all add: struct_dev_archdata_def layout_simps)

abbreviation t___kernel_dev_t :: ctype where
  "t___kernel_dev_t \<equiv> t_u32"

abbreviation t_dev_t :: ctype where
  "t_dev_t \<equiv> t___kernel_dev_t"

definition enum_device_removable :: "(string \<times> int) list" where
  "enum_device_removable = [
     (''DEVICE_REMOVABLE_NOT_SUPPORTED'', 0), (''DEVICE_REMOVABLE_UNKNOWN'', 1),
     (''DEVICE_FIXED'', 2), (''DEVICE_REMOVABLE'', 3)]"

definition struct_device :: ctype where
  "struct_device = CStruct [
     Mem ''kobj'' struct_kobject, Mem ''parent'' CPtr, Mem ''p'' CPtr, Mem ''init_name'' CPtr,
     Mem ''type'' CPtr, Mem ''bus'' CPtr, Mem ''driver'' CPtr, Mem ''platform_data'' CPtr,
     Mem ''driver_data'' CPtr, Mem ''mutex'' struct_mutex, Mem ''links'' struct_dev_links_info,
     Mem ''power'' struct_dev_pm_info, Mem ''pm_domain'' CPtr, Mem ''em_pd'' CPtr,
     Mem ''pins'' CPtr, Mem ''msi'' struct_dev_msi_info, Mem ''dma_ops'' CPtr,
     Mem ''dma_mask'' CPtr, Mem ''coherent_dma_mask'' t_u64, Mem ''bus_dma_limit'' t_u64,
     Mem ''dma_range_map'' CPtr, Mem ''dma_parms'' CPtr, Mem ''dma_pools'' struct_list_head,
     Mem ''dma_mem'' CPtr, Mem ''cma_area'' CPtr, Mem ''dma_io_tlb_mem'' CPtr,
     Mem ''dma_io_tlb_pools'' struct_list_head, Mem ''dma_io_tlb_lock'' t_spinlock_t,
     Mem ''dma_uses_io_tlb'' CU8, Mem ''archdata'' struct_dev_archdata, Mem ''of_node'' CPtr,
     Mem ''fwnode'' CPtr, Mem ''numa_node'' CU32, Mem ''devt'' t_dev_t, Mem ''id'' t_u32,
     Mem ''devres_lock'' t_spinlock_t, Mem ''devres_head'' struct_list_head, Mem ''class'' CPtr,
     Mem ''groups'' CPtr, Mem ''release'' CPtr, Mem ''iommu_group'' CPtr, Mem ''iommu'' CPtr,
     Mem ''physical_location'' CPtr, Mem ''removable'' CEnum, Bits ''offline_disabled'' CU8 1,
     Bits ''offline'' CU8 1, Bits ''of_node_reused'' CU8 1, Bits ''state_synced'' CU8 1,
     Bits ''can_match'' CU8 1, Bits ''dma_coherent'' CU8 1, Bits ''dma_skip_sync'' CU8 1,
     Bits ''dma_iommu'' CU8 1]"

lemma layout_struct_device [layout_simps]:
  "sizeof struct_device = 792" "alignof struct_device = 8" "wf_ctype struct_device"
  by (simp_all add: struct_device_def layout_simps)

definition struct_bpf_xdp_entity :: ctype where
  "struct_bpf_xdp_entity = CStruct [
     Mem ''prog'' CPtr, Mem ''link'' CPtr]"

lemma layout_struct_bpf_xdp_entity [layout_simps]:
  "sizeof struct_bpf_xdp_entity = 16" "alignof struct_bpf_xdp_entity = 8" "wf_ctype struct_bpf_xdp_entity"
  by (simp_all add: struct_bpf_xdp_entity_def layout_simps)

definition t_netdevice_tracker :: ctype where
  "t_netdevice_tracker = CStruct []"

lemma layout_t_netdevice_tracker [layout_simps]:
  "sizeof t_netdevice_tracker = 0" "alignof t_netdevice_tracker = 1" "wf_ctype t_netdevice_tracker"
  by (simp_all add: t_netdevice_tracker_def layout_simps)

definition struct_net_device_members_1 :: "cmember list" where
  "struct_net_device_members_1 = [
     Mem ''__cacheline_group_begin__net_device_read_tx'' (CArr t___u8 0),
     Mem '''' (CUnion [
       Mem '''' (CStruct [
         Bits ''priv_flags'' CU64 32, Bits ''lltx'' CU64 1, Bits ''netmem_tx'' CU64 1]),
       Mem ''priv_flags_fast'' (CStruct [
         Bits ''priv_flags'' CU64 32, Bits ''lltx'' CU64 1, Bits ''netmem_tx'' CU64 1])]),
     Mem ''netdev_ops'' CPtr, Mem ''header_ops'' CPtr, Mem ''_tx'' CPtr,
     Mem ''gso_partial_features'' t_netdev_features_t, Mem ''real_num_tx_queues'' CU32,
     Mem ''gso_max_size'' CU32, Mem ''gso_ipv4_max_size'' CU32, Mem ''gso_max_segs'' t_u16,
     Mem ''num_tc'' t_s16, Mem ''mtu'' CU32, Mem ''needed_headroom'' CU16,
     Mem ''tc_to_txq'' (CArr struct_netdev_tc_txq 16), Mem ''xps_maps'' (CArr CPtr 2),
     Mem ''nf_hooks_egress'' CPtr, Mem ''tcx_egress'' CPtr,
     Mem ''__cacheline_group_end__net_device_read_tx'' (CArr t___u8 0),
     Mem ''__cacheline_group_begin__net_device_read_txrx'' (CArr t___u8 0),
     Mem '''' (CUnion [
       Mem ''lstats'' CPtr, Mem ''tstats'' CPtr, Mem ''dstats'' CPtr]),
     Mem ''state'' CU64, Mem ''flags'' CU32, Mem ''hard_header_len'' CU16,
     Mem ''features'' t_netdev_features_t, Mem ''ip6_ptr'' CPtr,
     Mem ''__cacheline_group_end__net_device_read_txrx'' (CArr t___u8 0),
     Mem ''__cacheline_group_begin__net_device_read_rx'' (CArr t___u8 0), Mem ''xdp_prog'' CPtr,
     Mem ''ptype_specific'' struct_list_head, Mem ''ifindex'' CU32,
     Mem ''real_num_rx_queues'' CU32, Mem ''_rx'' CPtr, Mem ''gro_max_size'' CU32,
     Mem ''gro_ipv4_max_size'' CU32, Mem ''rx_handler'' CPtr, Mem ''rx_handler_data'' CPtr,
     Mem ''nd_net'' t_possible_net_t, Mem ''npinfo'' CPtr, Mem ''tcx_ingress'' CPtr,
     Mem ''__cacheline_group_end__net_device_read_rx'' (CArr t___u8 0),
     Mem ''name'' (CArr CU8 16), Mem ''name_node'' CPtr, Mem ''ifalias'' CPtr,
     Mem ''mem_end'' CU64, Mem ''mem_start'' CU64, Mem ''base_addr'' CU64,
     Mem ''dev_list'' struct_list_head, Mem ''napi_list'' struct_list_head,
     Mem ''unreg_list'' struct_list_head, Mem ''close_list'' struct_list_head,
     Mem ''ptype_all'' struct_list_head,
     Mem ''adj_list'' (CStruct [
       Mem ''upper'' struct_list_head, Mem ''lower'' struct_list_head]),
     Mem ''xdp_features'' t_xdp_features_t, Mem ''xdp_metadata_ops'' CPtr,
     Mem ''xsk_tx_metadata_ops'' CPtr, Mem ''gflags'' CU16, Mem ''needed_tailroom'' CU16,
     Mem ''hw_features'' t_netdev_features_t, Mem ''wanted_features'' t_netdev_features_t,
     Mem ''vlan_features'' t_netdev_features_t, Mem ''hw_enc_features'' t_netdev_features_t,
     Mem ''mpls_features'' t_netdev_features_t, Mem ''min_mtu'' CU32, Mem ''max_mtu'' CU32,
     Mem ''type'' CU16, Mem ''min_header_len'' CU8, Mem ''name_assign_type'' CU8,
     Mem ''group'' CU32, Mem ''stats'' struct_net_device_stats, Mem ''core_stats'' CPtr,
     Mem ''carrier_up_count'' t_atomic_t, Mem ''carrier_down_count'' t_atomic_t,
     Mem ''wireless_handlers'' CPtr, Mem ''ethtool_ops'' CPtr, Mem ''l3mdev_ops'' CPtr,
     Mem ''ndisc_ops'' CPtr, Mem ''xfrmdev_ops'' CPtr, Mem ''tlsdev_ops'' CPtr,
     Mem ''operstate'' CU32, Mem ''link_mode'' CU8, Mem ''if_port'' CU8, Mem ''dma'' CU8,
     Mem ''perm_addr'' (CArr CU8 32), Mem ''addr_assign_type'' CU8, Mem ''addr_len'' CU8,
     Mem ''upper_level'' CU8, Mem ''lower_level'' CU8, Mem ''threaded'' t_u8,
     Mem ''neigh_priv_len'' CU16, Mem ''dev_id'' CU16, Mem ''dev_port'' CU16, Mem ''irq'' CU32,
     Mem ''priv_len'' t_u32, Mem ''addr_list_lock'' t_spinlock_t,
     Mem ''uc'' struct_netdev_hw_addr_list, Mem ''mc'' struct_netdev_hw_addr_list,
     Mem ''dev_addrs'' struct_netdev_hw_addr_list, Mem ''queues_kset'' CPtr,
     Mem ''promiscuity'' CU32, Mem ''allmulti'' CU32, Mem ''uc_promisc'' CU8, Mem ''ip_ptr'' CPtr,
     Mem ''fib_nh_head'' struct_hlist_head, Mem ''vlan_info'' CPtr, Mem ''dsa_ptr'' CPtr,
     Mem ''tipc_ptr'' CPtr, Mem ''atalk_ptr'' CPtr, Mem ''ax25_ptr'' CPtr,
     Mem ''ieee80211_ptr'' CPtr, Mem ''ieee802154_ptr'' CPtr, Mem ''mpls_ptr'' CPtr]"

definition struct_net_device_members_2 :: "cmember list" where
  "struct_net_device_members_2 = [
     Mem ''mctp_ptr'' CPtr, Mem ''dev_addr'' CPtr, Mem ''num_rx_queues'' CU32,
     Mem ''xdp_zc_max_segs'' CU32, Mem ''ingress_queue'' CPtr, Mem ''nf_hooks_ingress'' CPtr,
     Mem ''broadcast'' (CArr CU8 32), Mem ''rx_cpu_rmap'' CPtr,
     Mem ''index_hlist'' struct_hlist_node, Mem ''num_tx_queues'' CU32, Mem ''qdisc'' CPtr,
     Mem ''tx_queue_len'' CU32, Mem ''tx_global_lock'' t_spinlock_t, Mem ''xdp_bulkq'' CPtr,
     Mem ''qdisc_hash'' (CArr struct_hlist_head 16), Mem ''watchdog_timer'' struct_timer_list,
     Mem ''watchdog_timeo'' CU32, Mem ''proto_down_reason'' t_u32,
     Mem ''todo_list'' struct_list_head, Mem ''pcpu_refcnt'' CPtr,
     Mem ''refcnt_tracker'' struct_ref_tracker_dir, Mem ''link_watch_list'' struct_list_head,
     Mem ''reg_state'' t_u8, Mem ''dismantle'' CU8, Mem ''moving_ns'' CU8,
     Mem ''rtnl_link_initializing'' CU8, Mem ''needs_free_netdev'' CU8,
     Mem ''priv_destructor'' CPtr, Mem ''ml_priv'' CPtr, Mem ''ml_priv_type'' CEnum,
     Bits ''pcpu_stat_type'' CEnum 8, Mem ''garp_port'' CPtr, Mem ''mrp_port'' CPtr,
     Mem ''dm_private'' CPtr, Mem ''dev'' struct_device, Mem ''sysfs_groups'' (CArr CPtr 5),
     Mem ''sysfs_rx_queue_group'' CPtr, Mem ''rtnl_link_ops'' CPtr, Mem ''stat_ops'' CPtr,
     Mem ''queue_mgmt_ops'' CPtr, Mem ''tso_max_size'' CU32, Mem ''tso_max_segs'' t_u16,
     Mem ''dcbnl_ops'' CPtr, Mem ''prio_tc_map'' (CArr t_u8 16), Mem ''fcoe_ddp_xid'' CU32,
     Mem ''priomap'' CPtr, Mem ''link_topo'' CPtr, Mem ''phydev'' CPtr, Mem ''sfp_bus'' CPtr,
     Mem ''qdisc_tx_busylock'' CPtr, Mem ''proto_down'' CU8, Mem ''irq_affinity_auto'' CU8,
     Mem ''rx_cpu_rmap_auto'' CU8, Bits ''see_all_hwtstamp_requests'' CU64 1,
     Bits ''change_proto_down'' CU64 1, Bits ''netns_immutable'' CU64 1, Bits ''fcoe_mtu'' CU64 1,
     Mem ''net_notifier_list'' struct_list_head, Mem ''macsec_ops'' CPtr,
     Mem ''udp_tunnel_nic_info'' CPtr, Mem ''udp_tunnel_nic'' CPtr, Mem ''cfg'' CPtr,
     Mem ''cfg_pending'' CPtr, Mem ''ethtool'' CPtr,
     Mem ''xdp_state'' (CArr struct_bpf_xdp_entity 3), Mem ''dev_addr_shadow'' (CArr t_u8 32),
     Mem ''linkwatch_dev_tracker'' t_netdevice_tracker,
     Mem ''watchdog_dev_tracker'' t_netdevice_tracker,
     Mem ''dev_registered_tracker'' t_netdevice_tracker, Mem ''offload_xstats_l3'' CPtr,
     Mem ''devlink_port'' CPtr, Mem ''dpll_pin'' CPtr, Mem ''page_pools'' struct_hlist_head,
     Mem ''irq_moder'' CPtr, Mem ''max_pacing_offload_horizon'' t_u64, Mem ''napi_config'' CPtr,
     Mem ''num_napi_configs'' t_u32, Mem ''napi_defer_hard_irqs'' t_u32,
     Mem ''gro_flush_timeout'' CU64, Mem ''up'' CU8, Mem ''request_ops_lock'' CU8,
     Mem ''lock'' struct_mutex, Mem ''net_shaper_hierarchy'' CPtr,
     Mem ''neighbours'' (CArr struct_hlist_head 2), Mem ''hwprov'' CPtr, Bits '''' CU64 64,
     Bits '''' CU64 64, Bits '''' CU64 64, Bits '''' CU64 64, Bits '''' CU64 64,
     Bits '''' CU64 64, Bits '''' CU64 64, Mem ''priv'' (CArr t_u8 0)]"

definition struct_net_device :: ctype where
  "struct_net_device = CStruct (struct_net_device_members_1 @ struct_net_device_members_2)"

lemma layout_struct_net_device [layout_simps]:
  "sizeof struct_net_device = 2752" "alignof struct_net_device = 8" "wf_ctype struct_net_device"
  by (simp_all add: struct_net_device_def struct_net_device_members_1_def struct_net_device_members_2_def layout_simps)

end
