(* ===== verification/Kernel_Facts.thy ===== *)
theory Kernel_Facts
  imports Kernel_Dev
begin

text \<open>
  What the declarations of \<^verbatim>\<open>vmlinux.h\<close> amount to once laid out: every record obeys the
  layout discipline, the header fields the XDP program reads and the registers the uprobe
  programs read are where the wire formats and the calling convention put them, and the
  kernel's ring buffer keeps its two positions on pages of their own.
\<close>

section \<open>All records\<close>

definition kernel_types :: "ctype list" where
  "kernel_types = [
     struct_ethhdr, struct_iphdr, struct_in6_addr, struct_ipv6hdr, struct_tcphdr, struct_xdp_md,
     struct_xdp_buff, struct_xdp_mem_info, struct_xdp_rxq_info, struct_xdp_txq_info,
     struct_xdp_frame, struct_user_pt_regs, struct_frame_record, struct_frame_record_meta,
     struct_pt_regs, struct_rb_node, t_atomic_t, struct_refcount_struct, t_atomic64_t,
     struct_optimistic_spin_queue, struct_qspinlock, struct_raw_spinlock, struct_list_head,
     struct_rw_semaphore, struct_callback_head, struct_work_struct, struct_arch_probe_insn,
     struct_arch_uprobe, struct_uprobe, struct_uprobe_consumer, struct_hlist_node,
     struct_timer_list, struct_seqcount, struct_arch_uprobe_task, struct_uprobe_task,
     struct_hprobe, struct_return_consumer, struct_return_instance, struct_thread_info,
     struct_llist_node, struct___call_single_node, struct_load_weight, struct_sched_avg,
     struct_sched_entity, struct_sched_rt_entity, struct_timerqueue_node, struct_hrtimer,
     struct_sched_dl_entity, struct_scx_dsq_list_node, struct_sched_ext_entity,
     struct_uclamp_se, struct_sched_statistics, struct_hlist_head, struct_cpumask,
     union_rcu_special, struct_sched_info, struct_plist_node, struct_restart_block,
     struct_prev_cputime, struct_vtime, struct_rb_root, struct_rb_root_cached,
     struct_timerqueue_head, struct_posix_cputimer_base, struct_posix_cputimers, struct_mutex,
     struct_posix_cputimers_work, struct_sysv_sem, struct_sysv_shm, t_sigset_t,
     struct_sigpending, t_kuid_t, struct_seccomp, struct_syscall_user_dispatch, struct_spinlock,
     struct_wake_q_node, struct_task_io_accounting, t_nodemask_t, struct_seqcount_spinlock,
     struct_arch_tlbflush_unmap_batch, struct_tlbflush_unmap_batch, struct_page_frag,
     struct_latency_record, struct_kmap_ctrl, struct_llist_head, struct_cpu_context,
     struct_user_fpsimd_state, struct_debug_info, struct_ptrauth_key, struct_ptrauth_keys_user,
     struct_ptrauth_keys_kernel, struct_thread_struct, struct_task_struct, t_local_t,
     t_local64_t, struct_perf_event_attr, struct_hw_perf_event_extra,
     struct_arch_hw_breakpoint_ctrl, struct_arch_hw_breakpoint, struct_rhash_head,
     struct_rhlist_head, struct_hw_perf_event, struct_wait_queue_head, struct_rcuwait,
     struct_irq_work, struct_perf_addr_filters_head, struct_ftrace_ops_hash, struct_ftrace_ops,
     struct_perf_event, struct_perf_event_groups, struct_perf_event_context, struct_bpf_map,
     struct_bpf_array, struct_bpf_mem_alloc, struct_pcpu_freelist, struct_bpf_lru_list,
     struct_bpf_common_lru, struct_bpf_lru, struct_percpu_counter, struct_bpf_htab,
     struct_hlist_nulls_node, struct_pcpu_freelist_node, struct_bpf_lru_node, struct_htab_elem,
     struct_hlist_nulls_head, struct_bucket, struct_bpf_ringbuf, struct_bpf_ringbuf_map,
     struct_bpf_ringbuf_hdr, struct_bpf_map_ops, struct_sock_filter, struct_bpf_insn,
     struct_bpf_prog, struct_latch_tree_node, struct_bpf_ksym, struct_bpf_stream,
     struct_bpf_prog_aux, union_bpf_attr, struct_sk_buff, struct_skb_shared_hwtstamps,
     struct_xsk_tx_metadata_compl, struct_skb_frag, struct_skb_shared_info,
     struct_netdev_tc_txq, t_possible_net_t, struct_net_device_stats,
     struct_netdev_hw_addr_list, struct_ref_tracker_dir, struct_kref, struct_kobject,
     struct_dev_links_info, struct_pm_message, struct_swait_queue_head, struct_completion,
     struct_dev_pm_info, struct_dev_msi_info, struct_dev_archdata, struct_device,
     struct_bpf_xdp_entity, t_netdevice_tracker, struct_net_device]"

lemma kernel_types_wf: "list_all wf_ctype kernel_types"
  by (simp add: kernel_types_def layout_simps)


section \<open>Where the programs look\<close>

lemmas field_simps_of = field_of_def layout_simps

lemma ethhdr_fields [mem_simps]:
  "field_of ''h_proto'' struct_ethhdr = Some (96, Mem ''h_proto'' CU16)"
  by (simp add: struct_ethhdr_def field_simps_of)

lemma iphdr_fields [mem_simps]:
  "field_of ''protocol'' struct_iphdr = Some (72, Mem ''protocol'' CU8)"
  "field_of ''ihl'' struct_iphdr = Some (0, Bits ''ihl'' CU8 4)"
  by (simp_all add: struct_iphdr_def field_simps_of)

lemma ipv6hdr_fields [mem_simps]:
  "field_of ''nexthdr'' struct_ipv6hdr = Some (48, Mem ''nexthdr'' CU8)"
  by (simp_all add: struct_ipv6hdr_def field_simps_of)

lemma tcphdr_fields [mem_simps]:
  "field_of ''source'' struct_tcphdr = Some (0, Mem ''source'' CU16)"
  "field_of ''dest'' struct_tcphdr = Some (16, Mem ''dest'' CU16)"
  by (simp_all add: struct_tcphdr_def field_simps_of)

lemma pt_regs_fields [mem_simps]:
  "field_of ''regs'' struct_user_pt_regs = Some (0, Mem ''regs'' (CArr CU64 31))"
  by (simp_all add: struct_user_pt_regs_def field_simps_of)

lemma ringbuf_fields:
  "map_option fst (field_of ''consumer_pos'' struct_bpf_ringbuf) = Some (8 * 4096)"
  "map_option fst (field_of ''producer_pos'' struct_bpf_ringbuf) = Some (8 * 8192)"
  "map_option fst (field_of ''data'' struct_bpf_ringbuf) = Some (8 * 12288)"
  "map_option fst (field_of ''spinlock'' struct_bpf_ringbuf) = Some (8 * 128)"
  "map_option fst (field_of ''busy'' struct_bpf_ringbuf) = Some (8 * 192)"
  by (simp_all add: struct_bpf_ringbuf_def field_simps_of)

text \<open>
  The kernel's ring buffer object puts the consumer position, the producer position
  and the data area on pages of their own, at 4096, 8192 and 12288 bytes, which is what
  lets user space map the consumer page writable and the others read-only; the wait queue,
  the lock and the busy counter start cache lines; and the record header has the size the
  header constant announces.
\<close>

theorem ringbuf_pages:
  "map_option fst (field_of ''consumer_pos'' struct_bpf_ringbuf) = Some (8 * 4096)
   \<and> map_option fst (field_of ''producer_pos'' struct_bpf_ringbuf) = Some (8 * 8192)
   \<and> map_option fst (field_of ''data'' struct_bpf_ringbuf) = Some (8 * 12288)
   \<and> map_option fst (field_of ''spinlock'' struct_bpf_ringbuf) = Some (8 * 128)
   \<and> map_option fst (field_of ''busy'' struct_bpf_ringbuf) = Some (8 * 192)
   \<and> sizeof struct_bpf_ringbuf = 12288
   \<and> map_of enum_bpf_ringbuf_consts ''BPF_RINGBUF_HDR_SZ''
       = Some (int (sizeof struct_bpf_ringbuf_hdr))"
  by (simp add: ringbuf_fields enum_bpf_ringbuf_consts_def layout_simps)

lemma task_ids:
  "map_option fst (field_of ''pid'' struct_task_struct) = Some (8 * 1712)"
  "map_option fst (field_of ''tgid'' struct_task_struct) = Some (8 * 1716)"
  by (simp_all add: struct_task_struct_def struct_task_struct_members_1_def
      struct_task_struct_members_2_def field_simps_of)

end
