(* ===== verification/Bpf_Machine.thy ===== *)
theory Bpf_Machine
  imports Kernel_Facts
begin

text \<open>
  The machine the kernel programs run on. Memory is a collection of objects, as in the C
  standard: a pointer is an object and a byte offset, a load or store outside a live object
  is a fault (\<open>None\<close>), and objects do not overlap. Fields are addressed through the layout
  of their declaration.

  The kernel's BPF helpers are not part of the repository. They are a record of functions,
  an argument of every program that calls them, and locale \<open>bpf_kernel\<close> states what their
  documentation promises. Theory \<open>Reference_Kernel\<close> is one implementation of that
  contract, with the declared map sizes and a bounded ring; it shows the contract can be met
  and lets programs be run on concrete inputs.
\<close>

section \<open>Objects, loads and stores\<close>

type_synonym block = nat
type_synonym ptr = "nat \<times> nat"

record 'k machine =
  heap :: "block \<Rightarrow> bytes option"
  kern :: 'k

definition padd :: "ptr \<Rightarrow> nat \<Rightarrow> ptr" where
  "padd p n = (fst p, snd p + n)"

text \<open>The C comparison \<open>p > q\<close> of two pointers into the same object.\<close>

definition past :: "ptr \<Rightarrow> ptr \<Rightarrow> bool" where
  "past p q \<longleftrightarrow> snd q < snd p"

definition mload :: "ptr \<Rightarrow> nat \<Rightarrow> 'k machine \<Rightarrow> bytes option" where
  "mload p n s = (case heap s (fst p) of None \<Rightarrow> None
     | Some bs \<Rightarrow> if snd p + n \<le> length bs then Some (slice_at (snd p) n bs) else None)"

definition mstore :: "ptr \<Rightarrow> bytes \<Rightarrow> 'k machine \<Rightarrow> 'k machine option" where
  "mstore p ys s = (case heap s (fst p) of None \<Rightarrow> None
     | Some bs \<Rightarrow> if snd p + length ys \<le> length bs
         then Some (s\<lparr>heap := (heap s)(fst p \<mapsto> splice_at (snd p) ys bs)\<rparr>) else None)"

text \<open>
  Reading and writing \<open>p->x\<close> for a pointer to a record of type \<open>t\<close>: the value of a member is
  the little-endian number its bytes spell, the value of a bit-field the bits of its unit.
\<close>

definition ld_field :: "ctype \<Rightarrow> string \<Rightarrow> ptr \<Rightarrow> 'k machine \<Rightarrow> nat option" where
  "ld_field t x p s = (case field_of x t of
       None \<Rightarrow> None
     | Some (q, Mem _ ft) \<Rightarrow> map_option le_val (mload (padd p (q div 8)) (sizeof ft) s)
     | Some (q, Bits _ ft w) \<Rightarrow>
         map_option (\<lambda>bs. le_val bs div 2 ^ (q mod (8 * sizeof ft)) mod 2 ^ w)
           (mload (padd p (q div (8 * sizeof ft) * sizeof ft)) (sizeof ft) s))"

definition st_field :: "ctype \<Rightarrow> string \<Rightarrow> bytes \<Rightarrow> ptr \<Rightarrow> 'k machine \<Rightarrow> 'k machine option" where
  "st_field t x bs p s = (case field_of x t of
       Some (q, Mem _ ft) \<Rightarrow>
         if length bs = sizeof ft then mstore (padd p (q div 8)) bs s else None
     | _ \<Rightarrow> None)"

lemma kern_mstore: "mstore p ys s = Some s' \<Longrightarrow> kern s' = kern s"
  by (auto simp: mstore_def split: option.splits if_splits)

lemma mstore_Some_iff:
  "mstore (b, off) ys s = Some s' \<longleftrightarrow>
     (\<exists>bs. heap s b = Some bs \<and> off + length ys \<le> length bs
        \<and> s' = s\<lparr>heap := (heap s)(b \<mapsto> splice_at off ys bs)\<rparr>)"
  by (auto simp: mstore_def split: option.splits)

lemma heap_mstore_other: "mstore (b, off) ys s = Some s' \<Longrightarrow> c \<noteq> b \<Longrightarrow> heap s' c = heap s c"
  by (auto simp: mstore_Some_iff)

lemma mload_Some_iff:
  "mload (b, off) n s = Some v \<longleftrightarrow>
     (\<exists>bs. heap s b = Some bs \<and> off + n \<le> length bs \<and> v = slice_at off n bs)"
  by (auto simp: mload_def split: option.splits)

section \<open>The helper functions\<close>

record map_def =
  map_type :: string
  key_size :: nat
  value_size :: nat
  max_entries :: nat

record ('m, 'k) bpf_helpers =
  map_lookup_elem :: "'m \<Rightarrow> bytes \<Rightarrow> 'k machine \<Rightarrow> ptr option"
  map_update_elem :: "'m \<Rightarrow> bytes \<Rightarrow> bytes \<Rightarrow> u64 \<Rightarrow> 'k machine \<Rightarrow> int \<times> 'k machine"
  map_delete_elem :: "'m \<Rightarrow> bytes \<Rightarrow> 'k machine \<Rightarrow> int \<times> 'k machine"
  ringbuf_reserve :: "'m \<Rightarrow> nat \<Rightarrow> 'k machine \<Rightarrow> ptr option \<times> 'k machine"
  ringbuf_submit :: "ptr \<Rightarrow> 'k machine \<Rightarrow> 'k machine"
  ringbuf_discard :: "ptr \<Rightarrow> 'k machine \<Rightarrow> 'k machine"
  probe_read_kernel :: "ptr \<Rightarrow> nat \<Rightarrow> ptr \<Rightarrow> 'k machine \<Rightarrow> int \<times> 'k machine"
  probe_read_user :: "ptr \<Rightarrow> nat \<Rightarrow> u64 \<Rightarrow> 'k machine \<Rightarrow> int \<times> 'k machine"
  get_current_pid_tgid :: "'k machine \<Rightarrow> u64"
  ktime_get_ns :: "'k machine \<Rightarrow> u64"

text \<open>
  \<open>if (cnt) __sync_fetch_and_add(cnt, 1)\<close> on the counter that \<open>key\<close> selects.
\<close>

definition bump_counter ::
  "('m, 'k) bpf_helpers \<Rightarrow> 'm \<Rightarrow> u32 \<Rightarrow> 'k machine \<Rightarrow> 'k machine option" where
  "bump_counter h m key s = (case map_lookup_elem h m (le_put key) s of
       None \<Rightarrow> Some s
     | Some p \<Rightarrow> do {
         bs \<leftarrow> mload p 8 s;
         mstore p (le_put ((le_get bs :: u64) + 1)) s
       })"

section \<open>The contract of the helpers\<close>

text \<open>
  A kernel implements the helpers over its own state. \<open>inv\<close> is its invariant, \<open>vblk m k\<close> the
  object that holds the value of key \<open>k\<close> of map \<open>m\<close>, \<open>reserved m\<close> the ring-buffer records handed
  out and not yet submitted, \<open>out m\<close> the records submitted to ring \<open>m\<close> so far, \<open>umem\<close> the
  readable user memory of the current task.
\<close>

definition is_array :: "map_def \<Rightarrow> bool" where
  "is_array d \<longleftrightarrow> map_type d \<in> {''BPF_MAP_TYPE_ARRAY'', ''BPF_MAP_TYPE_PERCPU_ARRAY''}"

definition mval ::
  "('m \<Rightarrow> bytes \<Rightarrow> 'k \<Rightarrow> block option) \<Rightarrow> 'm \<Rightarrow> bytes \<Rightarrow> 'k machine \<Rightarrow> bytes option" where
  "mval vblk m key s = Option.bind (vblk m key (kern s)) (heap s)"

definition counter_of ::
  "('m \<Rightarrow> bytes \<Rightarrow> 'k \<Rightarrow> block option) \<Rightarrow> 'm \<Rightarrow> u32 \<Rightarrow> 'k machine \<Rightarrow> u64 option" where
  "counter_of vblk m key s = map_option le_get (mval vblk m (le_put key) s)"

text \<open>
  \<open>apart_from_values b s\<close>: the object \<open>b\<close> is not a map value, as a packet never is.
\<close>

definition apart_from_values ::
  "('m \<Rightarrow> bytes \<Rightarrow> 'k \<Rightarrow> block option) \<Rightarrow> block \<Rightarrow> 'k machine \<Rightarrow> bool" where
  "apart_from_values vblk b s \<longleftrightarrow> (\<forall>m key. vblk m key (kern s) \<noteq> Some b)"

locale bpf_kernel =
  fixes h :: "('m, 'k) bpf_helpers"
    and mdef :: "'m \<Rightarrow> map_def"
    and inv :: "'k machine \<Rightarrow> bool"
    and vblk :: "'m \<Rightarrow> bytes \<Rightarrow> 'k \<Rightarrow> block option"
    and reserved :: "'m \<Rightarrow> 'k \<Rightarrow> block set"
    and out :: "'m \<Rightarrow> 'k \<Rightarrow> bytes list"
    and umem :: "'k \<Rightarrow> u64 \<Rightarrow> nat \<Rightarrow> bytes option"
  assumes lookup: "inv s \<Longrightarrow>
      map_lookup_elem h m key s = map_option (\<lambda>b. (b, 0)) (vblk m key (kern s))"
    and value_live: "inv s \<Longrightarrow> vblk m key (kern s) = Some b \<Longrightarrow>
      \<exists>bs. heap s b = Some bs \<and> length bs = value_size (mdef m)"
    and value_apart: "inv s \<Longrightarrow> vblk m key (kern s) = Some b \<Longrightarrow>
      vblk m' key' (kern s) = Some b \<Longrightarrow> m = m' \<and> key = key'"
    and array_present: "inv s \<Longrightarrow> is_array (mdef m) \<Longrightarrow> length key = key_size (mdef m) \<Longrightarrow>
      le_val key < max_entries (mdef m) \<Longrightarrow> vblk m key (kern s) \<noteq> None"
    and store_keeps: "inv s \<Longrightarrow> mstore p ys s = Some s' \<Longrightarrow> inv s'"
    and update: "inv s \<Longrightarrow> \<not> is_array (mdef m) \<Longrightarrow> length key = key_size (mdef m) \<Longrightarrow>
      length v = value_size (mdef m) \<Longrightarrow> map_update_elem h m key v 0 s = (r, s') \<Longrightarrow>
      (r = 0 \<and> inv s' \<and> umem (kern s') = umem (kern s)
         \<and> (\<forall>m'. out m' (kern s') = out m' (kern s))
         \<and> (\<forall>m' key'. mval vblk m' key' s'
              = (if m' = m \<and> key' = key then Some v else mval vblk m' key' s)))
      \<or> (r < 0 \<and> s' = s \<and> vblk m key (kern s) = None
         \<and> max_entries (mdef m) \<le> card {k. vblk m k (kern s) \<noteq> None})"
    and delete: "inv s \<Longrightarrow> \<not> is_array (mdef m) \<Longrightarrow> vblk m key (kern s) = Some b \<Longrightarrow>
      map_delete_elem h m key s = (r, s') \<Longrightarrow>
      inv s' \<and> umem (kern s') = umem (kern s)
      \<and> (\<forall>m'. out m' (kern s') = out m' (kern s))
      \<and> (\<forall>m' key'. mval vblk m' key' s'
           = (if m' = m \<and> key' = key then None else mval vblk m' key' s))
      \<and> (\<exists>bs. heap s' b = Some bs \<and> length bs = value_size (mdef m))"
    and reserve_null: "inv s \<Longrightarrow> ringbuf_reserve h m n s = (None, s') \<Longrightarrow> s' = s"
    and reserve_record: "inv s \<Longrightarrow> ringbuf_reserve h m n s = (Some p, s') \<Longrightarrow>
      inv s' \<and> umem (kern s') = umem (kern s)
      \<and> (\<forall>m'. out m' (kern s') = out m' (kern s))
      \<and> (\<forall>m' key. vblk m' key (kern s') = vblk m' key (kern s))
      \<and> (\<exists>b bs. p = (b, 0) \<and> heap s b = None \<and> length bs = n
           \<and> heap s' = (heap s)(b \<mapsto> bs) \<and> b \<in> reserved m (kern s'))"
    and submit: "inv s \<Longrightarrow> b \<in> reserved m (kern s) \<Longrightarrow> heap s b = Some bs \<Longrightarrow>
      ringbuf_submit h (b, 0) s = s' \<Longrightarrow>
      inv s' \<and> heap s' = (heap s)(b := None)
      \<and> (\<forall>m'. out m' (kern s') = (if m' = m then out m (kern s) @ [bs] else out m' (kern s)))
      \<and> (\<forall>m' key. vblk m' key (kern s') = vblk m' key (kern s))"
    and discard: "inv s \<Longrightarrow> b \<in> reserved m (kern s) \<Longrightarrow> heap s b = Some bs \<Longrightarrow>
      ringbuf_discard h (b, 0) s = s' \<Longrightarrow>
      inv s' \<and> heap s' = (heap s)(b := None)
      \<and> (\<forall>m'. out m' (kern s') = out m' (kern s))
      \<and> (\<forall>m' key. vblk m' key (kern s') = vblk m' key (kern s))"
    and read_kernel: "inv s \<Longrightarrow> mload src n s = Some bs \<Longrightarrow> mstore dst bs s = Some s1 \<Longrightarrow>
      probe_read_kernel h dst n src s = (r, s') \<Longrightarrow>
      (r = 0 \<and> s' = s1) \<or> (r < 0 \<and> (\<exists>zs. length zs = n \<and> mstore dst zs s = Some s'))"
    and read_user: "inv s \<Longrightarrow> mstore dst (replicate n 0) s = Some s0 \<Longrightarrow>
      probe_read_user h dst n a s = (r, s') \<Longrightarrow>
      (case umem (kern s) a n of
         Some bs \<Rightarrow> length bs = n \<and> r = 0 \<and> mstore dst bs s = Some s'
       | None \<Rightarrow> r < 0 \<and> s' = s0)"
begin

lemma fresh_not_value:
  "inv s \<Longrightarrow> heap s b = None \<Longrightarrow> vblk m key (kern s) \<noteq> Some b"
  using value_live by fastforce

lemma bump_counter_ok:
  assumes "inv s" and "is_array (mdef m)" and "value_size (mdef m) = 8"
    and "key_size (mdef m) = 4" and "unat key < max_entries (mdef m)"
  shows "\<exists>b v. vblk m (le_put key) (kern s) = Some b \<and> heap s b = Some v \<and> length v = 8
    \<and> bump_counter h m key s
        = Some (s\<lparr>heap := (heap s)(b \<mapsto> le_put ((le_get v :: u64) + 1))\<rparr>)
    \<and> inv (s\<lparr>heap := (heap s)(b \<mapsto> le_put ((le_get v :: u64) + 1))\<rparr>)"
proof -
  obtain b where b: "vblk m (le_put key) (kern s) = Some b"
    using array_present [of s m "le_put key"] assms by (auto simp: le_val_le_put)
  with assms obtain v where v: "heap s b = Some v" "length v = 8"
    using value_live by metis
  let ?w = "le_put ((le_get v :: u64) + 1)"
  let ?s = "s\<lparr>heap := (heap s)(b \<mapsto> ?w)\<rparr>"
  have st: "mstore (b, 0) ?w s = Some ?s"
    using v by (simp add: mstore_def splice_at_def)
  then have "bump_counter h m key s = Some ?s"
    using v b assms(1) by (simp add: bump_counter_def lookup mload_def slice_at_def)
  moreover have "inv ?s"
    using store_keeps [OF assms(1) st] .
  ultimately show ?thesis using b v by blast
qed

lemma bump_ok:
  assumes "inv s" and "is_array (mdef m)" and "value_size (mdef m) = 8"
    and "key_size (mdef m) = 4" and "unat key < max_entries (mdef m)"
  shows "\<exists>s'. bump_counter h m key s = Some s' \<and> inv s' \<and> kern s' = kern s
    \<and> (\<forall>b. apart_from_values vblk b s \<longrightarrow> heap s' b = heap s b)
    \<and> counter_of vblk m key s' = map_option (\<lambda>c. c + 1) (counter_of vblk m key s)
    \<and> (\<forall>m' key'. (m', key') \<noteq> (m, le_put key) \<longrightarrow> mval vblk m' key' s' = mval vblk m' key' s)"
proof -
  obtain b v where b: "vblk m (le_put key) (kern s) = Some b" "heap s b = Some v" "length v = 8"
    and s': "bump_counter h m key s = Some (s\<lparr>heap := (heap s)(b \<mapsto> le_put ((le_get v :: u64) + 1))\<rparr>)"
      "inv (s\<lparr>heap := (heap s)(b \<mapsto> le_put ((le_get v :: u64) + 1))\<rparr>)"
    using bump_counter_ok [OF assms] by auto
  have other: "vblk m' key' (kern s) \<noteq> Some b" if "(m', key') \<noteq> (m, le_put key)" for m' key'
    using value_apart [OF assms(1) b(1), of m' key'] that by auto
  have "mval vblk m' key' (s\<lparr>heap := (heap s)(b \<mapsto> w)\<rparr>) = mval vblk m' key' s"
    if "(m', key') \<noteq> (m, le_put key)" for m' key' w
    using other [OF that] by (auto simp: mval_def split: Option.bind_splits)
  moreover have "pb \<noteq> b" if "apart_from_values vblk pb s" for pb
    using that b(1) by (auto simp: apart_from_values_def)
  ultimately show ?thesis
    using s' b by (auto simp: counter_of_def mval_def le_put_inj le_get_put)
qed

end

end
