(* ===== verification/Reference_Kernel.thy ===== *)
theory Reference_Kernel
  imports Bpf_Machine "HOL-Library.AList"
begin

text \<open>
  An implementation of the helper contract: map values live in objects of their own, an
  update allocates the new value before it replaces the old one, a full hash map refuses new
  keys, a ring hands out records while it has room for the record and its header, reserved
  memory holds whatever the ring memory held before. The programs are run on it wherever a
  theorem about them is applied to a concrete input.
\<close>

record 'm rkern =
  rk_vals :: "'m \<Rightarrow> (bytes \<times> block) list"
  rk_next :: block
  rk_ring :: "block \<Rightarrow> 'm option"
  rk_out :: "'m \<Rightarrow> bytes list"
  rk_room :: "'m \<Rightarrow> nat"
  rk_stale :: byte
  rk_user :: "u64 \<Rightarrow> byte option"
  rk_pid_tgid :: u64
  rk_time :: u64

definition rk_vblk :: "'m \<Rightarrow> bytes \<Rightarrow> 'm rkern \<Rightarrow> block option" where
  "rk_vblk m key k = map_of (rk_vals k m) key"

definition rk_reserved :: "'m \<Rightarrow> 'm rkern \<Rightarrow> block set" where
  "rk_reserved m k = {b. rk_ring k b = Some m}"

definition rk_outs :: "'m \<Rightarrow> 'm rkern \<Rightarrow> bytes list" where
  "rk_outs m k = rk_out k m"

definition rk_umem :: "'m rkern \<Rightarrow> u64 \<Rightarrow> nat \<Rightarrow> bytes option" where
  "rk_umem k a n = those (map (\<lambda>i. rk_user k (a + of_nat i)) [0..<n])"

definition rk_lookup :: "'m \<Rightarrow> bytes \<Rightarrow> 'm rkern machine \<Rightarrow> ptr option" where
  "rk_lookup m key s = map_option (\<lambda>b. (b, 0)) (map_of (rk_vals (kern s) m) key)"

definition rk_update ::
  "('m \<Rightarrow> map_def) \<Rightarrow> 'm \<Rightarrow> bytes \<Rightarrow> bytes \<Rightarrow> u64 \<Rightarrow> 'm rkern machine \<Rightarrow> int \<times> 'm rkern machine" where
  "rk_update mdef m key v flags s =
     (if map_of (rk_vals (kern s) m) key = None
         \<and> max_entries (mdef m) \<le> length (rk_vals (kern s) m)
      then (- 7, s)
      else (0, \<lparr>heap = (heap s)(rk_next (kern s) \<mapsto> v),
                kern = (kern s)\<lparr>rk_vals := (rk_vals (kern s))
                         (m := AList.update key (rk_next (kern s)) (rk_vals (kern s) m)),
                       rk_next := Suc (rk_next (kern s))\<rparr>\<rparr>))"

definition rk_delete :: "'m \<Rightarrow> bytes \<Rightarrow> 'm rkern machine \<Rightarrow> int \<times> 'm rkern machine" where
  "rk_delete m key s =
     (if map_of (rk_vals (kern s) m) key = None then (- 2, s)
      else (0, s\<lparr>kern := (kern s)\<lparr>rk_vals := (rk_vals (kern s))
                   (m := AList.delete key (rk_vals (kern s) m))\<rparr>\<rparr>))"

definition rk_reserve :: "'m \<Rightarrow> nat \<Rightarrow> 'm rkern machine \<Rightarrow> ptr option \<times> 'm rkern machine" where
  "rk_reserve m n s =
     (if rk_room (kern s) m < n + sizeof struct_bpf_ringbuf_hdr then (None, s)
      else (Some (rk_next (kern s), 0),
        \<lparr>heap = (heap s)(rk_next (kern s) \<mapsto> replicate n (rk_stale (kern s))),
         kern = (kern s)\<lparr>rk_next := Suc (rk_next (kern s)),
           rk_ring := (rk_ring (kern s))(rk_next (kern s) \<mapsto> m),
           rk_room := (rk_room (kern s))
             (m := rk_room (kern s) m - (n + sizeof struct_bpf_ringbuf_hdr))\<rparr>\<rparr>))"

definition rk_submit :: "ptr \<Rightarrow> 'm rkern machine \<Rightarrow> 'm rkern machine" where
  "rk_submit p s = (case (rk_ring (kern s) (fst p), heap s (fst p)) of
       (Some m, Some bs) \<Rightarrow>
         \<lparr>heap = (heap s)(fst p := None),
          kern = (kern s)\<lparr>rk_ring := (rk_ring (kern s))(fst p := None),
            rk_out := (rk_out (kern s))(m := rk_out (kern s) m @ [bs])\<rparr>\<rparr>
     | _ \<Rightarrow> s)"

definition rk_discard :: "ptr \<Rightarrow> 'm rkern machine \<Rightarrow> 'm rkern machine" where
  "rk_discard p s = \<lparr>heap = (heap s)(fst p := None),
     kern = (kern s)\<lparr>rk_ring := (rk_ring (kern s))(fst p := None)\<rparr>\<rparr>"

definition rk_read_kernel :: "ptr \<Rightarrow> nat \<Rightarrow> ptr \<Rightarrow> 'm rkern machine \<Rightarrow> int \<times> 'm rkern machine" where
  "rk_read_kernel dst n src s = (case Option.bind (mload src n s) (\<lambda>bs. mstore dst bs s) of
       Some s' \<Rightarrow> (0, s')
     | None \<Rightarrow> (- 14, case mstore dst (replicate n 0) s of Some s' \<Rightarrow> s' | None \<Rightarrow> s))"

definition rk_read_user :: "ptr \<Rightarrow> nat \<Rightarrow> u64 \<Rightarrow> 'm rkern machine \<Rightarrow> int \<times> 'm rkern machine" where
  "rk_read_user dst n a s =
     (case Option.bind (rk_umem (kern s) a n) (\<lambda>bs. mstore dst bs s) of
       Some s' \<Rightarrow> (0, s')
     | None \<Rightarrow> (- 14, case mstore dst (replicate n 0) s of Some s' \<Rightarrow> s' | None \<Rightarrow> s))"

definition rk_helpers :: "('m \<Rightarrow> map_def) \<Rightarrow> ('m, 'm rkern) bpf_helpers" where
  "rk_helpers mdef =
     \<lparr>map_lookup_elem = rk_lookup, map_update_elem = rk_update mdef,
      map_delete_elem = rk_delete, ringbuf_reserve = rk_reserve, ringbuf_submit = rk_submit,
      ringbuf_discard = rk_discard, probe_read_kernel = rk_read_kernel,
      probe_read_user = rk_read_user,
      get_current_pid_tgid = (\<lambda>s. rk_pid_tgid (kern s)),
      ktime_get_ns = (\<lambda>s. rk_time (kern s))\<rparr>"

section \<open>Its invariant\<close>

definition rk_fresh :: "'m rkern machine \<Rightarrow> bool" where
  "rk_fresh s \<longleftrightarrow> (\<forall>b. rk_next (kern s) \<le> b \<longrightarrow> heap s b = None \<and> rk_ring (kern s) b = None)"

definition rk_keys :: "'m rkern machine \<Rightarrow> bool" where
  "rk_keys s \<longleftrightarrow> (\<forall>m. distinct (map fst (rk_vals (kern s) m)))"

definition rk_live :: "('m \<Rightarrow> map_def) \<Rightarrow> 'm rkern machine \<Rightarrow> bool" where
  "rk_live mdef s \<longleftrightarrow> (\<forall>m key b. rk_vblk m key (kern s) = Some b \<longrightarrow>
     map_option length (heap s b) = Some (value_size (mdef m)) \<and> rk_ring (kern s) b = None)"

definition rk_apart :: "'m rkern machine \<Rightarrow> bool" where
  "rk_apart s \<longleftrightarrow> (\<forall>m key m' key' b. rk_vblk m key (kern s) = Some b \<longrightarrow>
     rk_vblk m' key' (kern s) = Some b \<longrightarrow> m = m' \<and> key = key')"

definition rk_arrays :: "('m \<Rightarrow> map_def) \<Rightarrow> 'm rkern machine \<Rightarrow> bool" where
  "rk_arrays mdef s \<longleftrightarrow> (\<forall>m key. is_array (mdef m) \<longrightarrow> length key = key_size (mdef m) \<longrightarrow>
     le_val key < max_entries (mdef m) \<longrightarrow> rk_vblk m key (kern s) \<noteq> None)"

definition rk_inv :: "('m \<Rightarrow> map_def) \<Rightarrow> 'm rkern machine \<Rightarrow> bool" where
  "rk_inv mdef s \<longleftrightarrow> rk_fresh s \<and> rk_keys s \<and> rk_live mdef s \<and> rk_apart s \<and> rk_arrays mdef s"

lemma rk_freshD: "rk_inv mdef s \<Longrightarrow> rk_next (kern s) \<le> b \<Longrightarrow> heap s b = None \<and> rk_ring (kern s) b = None"
  by (simp add: rk_inv_def rk_fresh_def)

lemma rk_keysD: "rk_inv mdef s \<Longrightarrow> distinct (map fst (rk_vals (kern s) m))"
  by (simp add: rk_inv_def rk_keys_def)

lemma rk_liveD: "rk_inv mdef s \<Longrightarrow> rk_vblk m key (kern s) = Some b \<Longrightarrow>
    map_option length (heap s b) = Some (value_size (mdef m)) \<and> rk_ring (kern s) b = None"
  by (simp add: rk_inv_def rk_live_def)

lemma rk_apartD: "rk_inv mdef s \<Longrightarrow> rk_vblk m key (kern s) = Some b \<Longrightarrow>
    rk_vblk m' key' (kern s) = Some b \<Longrightarrow> m = m' \<and> key = key'"
  unfolding rk_inv_def rk_apart_def by blast

lemma rk_arraysD: "rk_inv mdef s \<Longrightarrow> is_array (mdef m) \<Longrightarrow> length key = key_size (mdef m) \<Longrightarrow>
    le_val key < max_entries (mdef m) \<Longrightarrow> rk_vblk m key (kern s) \<noteq> None"
  unfolding rk_inv_def rk_arrays_def by blast

lemma rk_value_below: "rk_inv mdef s \<Longrightarrow> rk_vblk m key (kern s) = Some b \<Longrightarrow> b < rk_next (kern s)"
  using rk_freshD [of mdef s b] rk_liveD [of mdef s m key b]
  by (cases "b < rk_next (kern s)") auto

text \<open>
  Two states with the same maps, whose value objects keep their size and whose unused
  objects stay unused, satisfy the invariant alike.
\<close>

lemma rk_inv_transfer:
  assumes inv: "rk_inv mdef s" and vals: "rk_vals (kern s') = rk_vals (kern s)"
    and fresh: "rk_fresh s'"
    and live: "\<And>m key b. rk_vblk m key (kern s) = Some b \<Longrightarrow>
      map_option length (heap s' b) = map_option length (heap s b) \<and> rk_ring (kern s') b = None"
  shows "rk_inv mdef s'"
proof -
  have v: "rk_vblk m key (kern s') = rk_vblk m key (kern s)" for m key
    by (simp add: rk_vblk_def vals)
  have "rk_live mdef s'"
    using rk_liveD [OF inv] live by (simp add: rk_live_def v)
  with inv fresh show ?thesis
    by (simp add: rk_inv_def rk_keys_def rk_apart_def rk_arrays_def v vals)
qed

lemma rk_inv_store:
  assumes "rk_inv mdef s" and "mstore p ys s = Some s'"
  shows "rk_inv mdef s'"
proof -
  obtain b off where p: "p = (b, off)" by (cases p)
  with assms(2) obtain bs where st: "heap s b = Some bs" "off + length ys \<le> length bs"
      "s' = s\<lparr>heap := (heap s)(b \<mapsto> splice_at off ys bs)\<rparr>"
    by (auto simp: mstore_Some_iff)
  have "\<not> rk_next (kern s) \<le> b"
    using rk_freshD [OF assms(1), of b] st(1) by auto
  with assms(1) st show ?thesis
    by (intro rk_inv_transfer [OF assms(1)])
       (auto simp: rk_fresh_def dest: rk_freshD rk_liveD)
qed

lemma rk_mval:
  "rk_inv mdef s \<Longrightarrow> mval rk_vblk m key s = map_option (\<lambda>b. the (heap s b)) (rk_vblk m key (kern s))"
  using rk_liveD [of mdef s m key]
  by (cases "rk_vblk m key (kern s)") (auto simp: mval_def)

lemma rk_inv_update:
  assumes inv: "rk_inv mdef s" and len: "length v = value_size (mdef m)"
    and s': "s' = \<lparr>heap = (heap s)(rk_next (kern s) \<mapsto> v),
      kern = (kern s)\<lparr>rk_vals := (rk_vals (kern s))
        (m := AList.update key (rk_next (kern s)) (rk_vals (kern s) m)),
        rk_next := Suc (rk_next (kern s))\<rparr>\<rparr>"
  shows "rk_inv mdef s'"
    and "\<And>m' key'. mval rk_vblk m' key' s'
      = (if m' = m \<and> key' = key then Some v else mval rk_vblk m' key' s)"
proof -
  let ?b = "rk_next (kern s)"
  note below = rk_value_below [OF inv]
  then have not_next: "rk_vblk m' key' (kern s) \<noteq> Some ?b" for m' key'
    by blast
  have vals: "rk_vblk m' key' (kern s')
      = (if m' = m \<and> key' = key then Some ?b else rk_vblk m' key' (kern s))" for m' key'
    by (auto simp: s' rk_vblk_def update_conv')
  have "rk_fresh s'"
    using rk_freshD [OF inv] by (auto simp: rk_fresh_def s')
  moreover have "rk_keys s'"
    using rk_keysD [OF inv] by (simp add: rk_keys_def s' distinct_update)
  moreover have "rk_live mdef s'"
    unfolding rk_live_def vals
    using rk_liveD [OF inv] not_next rk_freshD [OF inv, of ?b] len by (auto simp: s' split: if_splits)
  moreover have "rk_apart s'"
    unfolding rk_apart_def vals
    using rk_apartD [OF inv] not_next by (auto split: if_splits)
  moreover have "rk_arrays mdef s'"
    using rk_arraysD [OF inv] by (simp add: rk_arrays_def vals)
  ultimately show inv': "rk_inv mdef s'" by (simp add: rk_inv_def)
  show "mval rk_vblk m' key' s'
      = (if m' = m \<and> key' = key then Some v else mval rk_vblk m' key' s)" for m' key'
  proof (cases "m' = m \<and> key' = key")
    case True
    then show ?thesis by (simp add: mval_def vals) (simp add: s')
  next
    case False
    then have "heap s' b = heap s b" if "rk_vblk m' key' (kern s) = Some b" for b
      using below [OF that] by (simp add: s')
    with False show ?thesis by (auto simp: mval_def vals split: Option.bind_splits)
  qed
qed

lemma rk_inv_delete:
  assumes inv: "rk_inv mdef s" and na: "\<not> is_array (mdef m)"
    and s': "s' = s\<lparr>kern := (kern s)\<lparr>rk_vals := (rk_vals (kern s))
                   (m := AList.delete key (rk_vals (kern s) m))\<rparr>\<rparr>"
  shows "rk_inv mdef s'"
    and "\<And>m' key'. mval rk_vblk m' key' s'
      = (if m' = m \<and> key' = key then None else mval rk_vblk m' key' s)"
proof -
  have vals: "rk_vblk m' key' (kern s')
      = (if m' = m \<and> key' = key then None else rk_vblk m' key' (kern s))" for m' key'
    by (auto simp: s' rk_vblk_def delete_conv')
  have "rk_fresh s'"
    using rk_freshD [OF inv] by (auto simp: rk_fresh_def s')
  moreover have "rk_keys s'"
    using rk_keysD [OF inv] by (simp add: rk_keys_def s' distinct_delete)
  moreover have "rk_live mdef s'"
    using rk_liveD [OF inv] by (simp add: rk_live_def vals) (simp add: s')
  moreover have "rk_apart s'"
    unfolding rk_apart_def vals
    using rk_apartD [OF inv] by (auto split: if_splits)
  moreover have "rk_arrays mdef s'"
    using rk_arraysD [OF inv] na by (auto simp: rk_arrays_def vals)
  ultimately show "rk_inv mdef s'" by (simp add: rk_inv_def)
  show "mval rk_vblk m' key' s'
      = (if m' = m \<and> key' = key then None else mval rk_vblk m' key' s)" for m' key'
    by (simp add: mval_def vals) (simp add: s')
qed

lemma rk_card:
  "rk_inv mdef s \<Longrightarrow> card {key. rk_vblk m key (kern s) \<noteq> None} = length (rk_vals (kern s) m)"
proof -
  assume "rk_inv mdef s"
  then have d: "distinct (map fst (rk_vals (kern s) m))" by (rule rk_keysD)
  have "{key. rk_vblk m key (kern s) \<noteq> None} = set (map fst (rk_vals (kern s) m))"
    by (auto simp: rk_vblk_def map_of_eq_None_iff)
  then show ?thesis using distinct_card [OF d] by simp
qed

lemma those_length: "those xs = Some ys \<Longrightarrow> length ys = length xs"
  by (induction xs arbitrary: ys) (auto split: option.splits)

lemma rk_umem_cong: "rk_user k = rk_user k' \<Longrightarrow> rk_umem k = rk_umem k'"
  by (simp add: rk_umem_def fun_eq_iff)

lemma rk_umem_length: "rk_umem k a n = Some bs \<Longrightarrow> length bs = n"
  by (auto simp: rk_umem_def dest: those_length)

lemma mstore_total: "mstore p xs s \<noteq> None \<Longrightarrow> length xs = length ys \<Longrightarrow> mstore p ys s \<noteq> None"
  by (auto simp: mstore_def split: option.splits if_splits)

lemma rk_reserve_record:
  assumes inv: "rk_inv mdef s" and "rk_reserve m n s = (Some p, s')"
  shows "rk_inv mdef s'"
    and "rk_umem (kern s') = rk_umem (kern s)" and "rk_out (kern s') = rk_out (kern s)"
    and "rk_vals (kern s') = rk_vals (kern s)"
    and "\<exists>b bs. p = (b, 0) \<and> heap s b = None \<and> length bs = n
           \<and> heap s' = (heap s)(b \<mapsto> bs) \<and> rk_ring (kern s') b = Some m"
proof -
  have s': "s' = \<lparr>heap = (heap s)(rk_next (kern s) \<mapsto> replicate n (rk_stale (kern s))),
         kern = (kern s)\<lparr>rk_next := Suc (rk_next (kern s)),
           rk_ring := (rk_ring (kern s))(rk_next (kern s) \<mapsto> m),
           rk_room := (rk_room (kern s))
             (m := rk_room (kern s) m - (n + sizeof struct_bpf_ringbuf_hdr))\<rparr>\<rparr>"
    and p: "p = (rk_next (kern s), 0)"
    using assms(2) by (auto simp: rk_reserve_def split: if_splits)
  have fresh: "heap s (rk_next (kern s)) = None"
    using rk_freshD [OF inv] by simp
  have "rk_fresh s'"
    using rk_freshD [OF inv] by (auto simp: rk_fresh_def s')
  then show "rk_inv mdef s'"
    using rk_value_below [OF inv] rk_liveD [OF inv]
    by (intro rk_inv_transfer [OF inv]) (auto simp: s')
  show "rk_umem (kern s') = rk_umem (kern s)" "rk_out (kern s') = rk_out (kern s)"
    "rk_vals (kern s') = rk_vals (kern s)"
    by (auto simp: s' intro: rk_umem_cong)
  show "\<exists>b bs. p = (b, 0) \<and> heap s b = None \<and> length bs = n
           \<and> heap s' = (heap s)(b \<mapsto> bs) \<and> rk_ring (kern s') b = Some m"
    using fresh
    by (intro exI [of _ "rk_next (kern s)"] exI [of _ "replicate n (rk_stale (kern s))"])
       (simp add: s' p)
qed

lemma rk_inv_release:
  assumes inv: "rk_inv mdef s" and ring: "rk_ring (kern s) b = Some m"
    and s': "heap s' = (heap s)(b := None)" "rk_ring (kern s') = (rk_ring (kern s))(b := None)"
      "rk_next (kern s') = rk_next (kern s)" "rk_vals (kern s') = rk_vals (kern s)"
  shows "rk_inv mdef s'"
proof (rule rk_inv_transfer [OF inv s'(4)])
  show "rk_fresh s'"
    using rk_freshD [OF inv] by (auto simp: rk_fresh_def s')
  fix m' key c assume "rk_vblk m' key (kern s) = Some c"
  then show "map_option length (heap s' c) = map_option length (heap s c) \<and> rk_ring (kern s') c = None"
    using rk_liveD [OF inv, of m' key c] ring by (auto simp: s')
qed

lemma rk_read_kernel_cases:
  assumes "mload src n s = Some bs" and "mstore dst bs s = Some s1"
    and "rk_read_kernel dst n src s = (r, s')"
  shows "r = 0 \<and> s' = s1"
  using assms by (simp add: rk_read_kernel_def)

lemma rk_read_user_cases:
  assumes "mstore dst (replicate n 0) s = Some s0" and "rk_read_user dst n a s = (r, s')"
  shows "case rk_umem (kern s) a n of
         Some bs \<Rightarrow> length bs = n \<and> r = 0 \<and> mstore dst bs s = Some s'
       | None \<Rightarrow> r < 0 \<and> s' = s0"
proof (cases "rk_umem (kern s) a n")
  case None
  with assms show ?thesis by (auto simp: rk_read_user_def)
next
  case (Some bs)
  then have "length bs = n" by (rule rk_umem_length)
  moreover from this obtain s1 where "mstore dst bs s = Some s1"
    using assms(1) mstore_total [of dst "replicate n 0" s bs] by auto
  ultimately show ?thesis using assms(2) Some by (auto simp: rk_read_user_def)
qed

section \<open>It meets the contract\<close>

lemma rk_update_law:
  assumes inv: "rk_inv mdef s" and "length v = value_size (mdef m)"
    and "rk_update mdef m key v flags s = (r, s')"
  shows "(r = 0 \<and> rk_inv mdef s' \<and> rk_umem (kern s') = rk_umem (kern s)
         \<and> (\<forall>m'. rk_outs m' (kern s') = rk_outs m' (kern s))
         \<and> (\<forall>m' key'. mval rk_vblk m' key' s'
              = (if m' = m \<and> key' = key then Some v else mval rk_vblk m' key' s)))
      \<or> (r < 0 \<and> s' = s \<and> rk_vblk m key (kern s) = None
         \<and> max_entries (mdef m) \<le> card {k. rk_vblk m k (kern s) \<noteq> None})"
proof (cases "map_of (rk_vals (kern s) m) key = None
         \<and> max_entries (mdef m) \<le> length (rk_vals (kern s) m)")
  case True
  then have "r < 0" "s' = s"
    using assms(3) by (auto simp: rk_update_def)
  with True show ?thesis
    unfolding rk_card [OF inv] by (simp add: rk_vblk_def)
next
  case False
  then have r: "r = 0" and s': "s' = \<lparr>heap = (heap s)(rk_next (kern s) \<mapsto> v),
      kern = (kern s)\<lparr>rk_vals := (rk_vals (kern s))
        (m := AList.update key (rk_next (kern s)) (rk_vals (kern s) m)),
        rk_next := Suc (rk_next (kern s))\<rparr>\<rparr>"
    using assms(3) by (auto simp: rk_update_def)
  have "rk_umem (kern s') = rk_umem (kern s)" "\<forall>m'. rk_outs m' (kern s') = rk_outs m' (kern s)"
    by (auto simp: s' rk_outs_def intro: rk_umem_cong)
  with r rk_inv_update [OF inv assms(2) s'] show ?thesis by blast
qed

lemma rk_delete_law:
  assumes inv: "rk_inv mdef s" and "\<not> is_array (mdef m)"
    and b: "rk_vblk m key (kern s) = Some b" and "rk_delete m key s = (r, s')"
  shows "rk_inv mdef s' \<and> rk_umem (kern s') = rk_umem (kern s)
      \<and> (\<forall>m'. rk_outs m' (kern s') = rk_outs m' (kern s))
      \<and> (\<forall>m' key'. mval rk_vblk m' key' s'
           = (if m' = m \<and> key' = key then None else mval rk_vblk m' key' s))
      \<and> (\<exists>bs. heap s' b = Some bs \<and> length bs = value_size (mdef m))"
    and "heap s' = heap s"
proof -
  have s': "s' = s\<lparr>kern := (kern s)\<lparr>rk_vals := (rk_vals (kern s))
                   (m := AList.delete key (rk_vals (kern s) m))\<rparr>\<rparr>"
    using assms(4) b by (simp add: rk_delete_def rk_vblk_def)
  then show h: "heap s' = heap s" by simp
  have "rk_umem (kern s') = rk_umem (kern s)" "\<forall>m'. rk_outs m' (kern s') = rk_outs m' (kern s)"
    by (auto simp: s' rk_outs_def intro: rk_umem_cong)
  with h rk_inv_delete [OF inv assms(2) s'] rk_liveD [OF inv b]
  show "rk_inv mdef s' \<and> rk_umem (kern s') = rk_umem (kern s)
      \<and> (\<forall>m'. rk_outs m' (kern s') = rk_outs m' (kern s))
      \<and> (\<forall>m' key'. mval rk_vblk m' key' s'
           = (if m' = m \<and> key' = key then None else mval rk_vblk m' key' s))
      \<and> (\<exists>bs. heap s' b = Some bs \<and> length bs = value_size (mdef m))"
    by auto
qed

lemma rk_submit_law:
  assumes inv: "rk_inv mdef s" and b: "b \<in> rk_reserved m (kern s)" and bs: "heap s b = Some bs"
    and "rk_submit (b, 0) s = s'"
  shows "rk_inv mdef s' \<and> heap s' = (heap s)(b := None)
      \<and> (\<forall>m'. rk_outs m' (kern s')
           = (if m' = m then rk_outs m (kern s) @ [bs] else rk_outs m' (kern s)))
      \<and> (\<forall>m' key. rk_vblk m' key (kern s') = rk_vblk m' key (kern s))"
proof -
  have ring: "rk_ring (kern s) b = Some m" using b by (simp add: rk_reserved_def)
  have s': "s' = \<lparr>heap = (heap s)(b := None),
          kern = (kern s)\<lparr>rk_ring := (rk_ring (kern s))(b := None),
            rk_out := (rk_out (kern s))(m := rk_out (kern s) m @ [bs])\<rparr>\<rparr>"
    using assms(4) ring bs by (simp add: rk_submit_def)
  have "rk_inv mdef s'"
    by (rule rk_inv_release [OF inv ring]) (simp_all add: s')
  then show ?thesis by (simp add: s' rk_outs_def rk_vblk_def)
qed

lemma rk_discard_law:
  assumes inv: "rk_inv mdef s" and b: "b \<in> rk_reserved m (kern s)" and "rk_discard (b, 0) s = s'"
  shows "rk_inv mdef s' \<and> heap s' = (heap s)(b := None)
      \<and> (\<forall>m'. rk_outs m' (kern s') = rk_outs m' (kern s))
      \<and> (\<forall>m' key. rk_vblk m' key (kern s') = rk_vblk m' key (kern s))"
proof -
  have ring: "rk_ring (kern s) b = Some m" using b by (simp add: rk_reserved_def)
  have s': "s' = \<lparr>heap = (heap s)(b := None),
          kern = (kern s)\<lparr>rk_ring := (rk_ring (kern s))(b := None)\<rparr>\<rparr>"
    using assms(3) by (simp add: rk_discard_def)
  have "rk_inv mdef s'"
    by (rule rk_inv_release [OF inv ring]) (simp_all add: s')
  then show ?thesis by (simp add: s' rk_outs_def rk_vblk_def)
qed

lemma rk_reserve_law:
  assumes "rk_inv mdef s" and "rk_reserve m n s = (Some p, s')"
  shows "rk_inv mdef s' \<and> rk_umem (kern s') = rk_umem (kern s)
      \<and> (\<forall>m'. rk_outs m' (kern s') = rk_outs m' (kern s))
      \<and> (\<forall>m' key. rk_vblk m' key (kern s') = rk_vblk m' key (kern s))
      \<and> (\<exists>b bs. p = (b, 0) \<and> heap s b = None \<and> length bs = n
           \<and> heap s' = (heap s)(b \<mapsto> bs) \<and> b \<in> rk_reserved m (kern s'))"
  using rk_reserve_record [OF assms] by (simp add: rk_outs_def rk_vblk_def rk_reserved_def)

interpretation rk: bpf_kernel "rk_helpers mdef" mdef "rk_inv mdef" rk_vblk rk_reserved rk_outs rk_umem
  for mdef :: "'m \<Rightarrow> map_def"
proof (unfold_locales, goal_cases)
  case 1 show ?case by (simp add: rk_helpers_def rk_lookup_def rk_vblk_def)
next
  case 2 then show ?case using rk_liveD by fastforce
next
  case 3 then show ?case by (rule rk_apartD)
next
  case 4 then show ?case by (rule rk_arraysD)
next
  case 5 then show ?case by (rule rk_inv_store)
next
  case 6 then show ?case by (intro rk_update_law) (simp_all add: rk_helpers_def)
next
  case 7 then show ?case by (intro rk_delete_law) (simp_all add: rk_helpers_def)
next
  case 8 then show ?case by (simp add: rk_helpers_def rk_reserve_def split: if_splits)
next
  case 9 then show ?case by (intro rk_reserve_law) (simp_all add: rk_helpers_def)
next
  case 10 then show ?case by (intro rk_submit_law) (simp_all add: rk_helpers_def)
next
  case 11 then show ?case by (intro rk_discard_law) (simp_all add: rk_helpers_def)
next
  case 12 then show ?case by (intro disjI1 rk_read_kernel_cases) (simp_all add: rk_helpers_def)
next
  case 13 then show ?case by (intro rk_read_user_cases) (simp_all add: rk_helpers_def)
qed

end
