(* ===== verification/Xdp_Program.thy ===== *)
theory Xdp_Program
  imports Reference_Kernel
begin

unbundle bit_operations_syntax

text \<open>
  The XDP capture program, \<^verbatim>\<open>src/pkg/capture/bpf/pgshadow_xdp.c\<close>. It parses the Ethernet, IP and
  TCP headers of each received frame, and mirrors frames of the configured port into a ring
  buffer as fixed-size records. The frame is an object of the machine; \<^verbatim>\<open>ctx->data\<close> and
  \<^verbatim>\<open>ctx->data_end\<close> point into it. The C function is cut at its early returns: \<open>xdp_find_tcp\<close>
  locates the TCP header, \<open>xdp_mirror\<close> produces the record, \<open>pgshadow_xdp\<close> is the handler.
\<close>

section \<open>Maps and records\<close>

datatype xdp_map = Pkt_ring | Stats | Cfg_port

definition FIXED_SNAP_LEN :: u32 where "FIXED_SNAP_LEN = 4096"

fun xdp_map_def :: "xdp_map \<Rightarrow> map_def" where
  "xdp_map_def Pkt_ring = \<lparr>map_type = ''BPF_MAP_TYPE_RINGBUF'', key_size = 0, value_size = 0,
     max_entries = 64 * 1024 * 1024\<rparr>"
| "xdp_map_def Stats = \<lparr>map_type = ''BPF_MAP_TYPE_PERCPU_ARRAY'', key_size = 4, value_size = 8,
     max_entries = 2\<rparr>"
| "xdp_map_def Cfg_port = \<lparr>map_type = ''BPF_MAP_TYPE_ARRAY'', key_size = 4, value_size = 2,
     max_entries = 1\<rparr>"

definition STATS_RECEIVED :: u32 where "STATS_RECEIVED = 0"
definition STATS_DROPPED :: u32 where "STATS_DROPPED = 1"

definition struct_pkt_record :: ctype where
  "struct_pkt_record = CStruct [Mem ''len'' CU32, Mem ''cap_len'' CU32, Mem ''data'' (CArr CU8 4096)]"

lemma layout_struct_pkt_record [layout_simps]:
  "sizeof struct_pkt_record = 4104" "alignof struct_pkt_record = 4" "wf_ctype struct_pkt_record"
  by (simp_all add: struct_pkt_record_def layout_simps)

lemma pkt_record_fields [mem_simps]:
  "field_of ''len'' struct_pkt_record = Some (0, Mem ''len'' CU32)"
  "field_of ''cap_len'' struct_pkt_record = Some (32, Mem ''cap_len'' CU32)"
  "field_of ''data'' struct_pkt_record = Some (64, Mem ''data'' (CArr CU8 4096))"
  by (simp_all add: struct_pkt_record_def field_simps_of)

section \<open>The handler\<close>

record xdp_md =
  md_data :: ptr
  md_data_end :: ptr

definition XDP_PASS :: int where
  "XDP_PASS = (case map_of enum_xdp_action ''XDP_PASS'' of Some v \<Rightarrow> v | None \<Rightarrow> 0)"

lemma XDP_PASS_value: "XDP_PASS = 2"
  by (simp add: XDP_PASS_def enum_xdp_action_def)

text \<open>\<open>bpf_ntohs\<close>, the compiler's 16-bit byte swap on a little-endian machine.\<close>

definition bpf_ntohs :: "u16 \<Rightarrow> u16" where
  "bpf_ntohs v = le_get (rev (le_put v))"

text \<open>
  The outer \<open>None\<close> is a fault, \<open>Some None\<close> an early \<open>return XDP_PASS\<close>, \<open>Some (Some tcp)\<close> the
  TCP header found.
\<close>

definition xdp_find_tcp :: "xdp_md \<Rightarrow> 'k machine \<Rightarrow> ptr option option" where
  "xdp_find_tcp ctx s =
     (let data = md_data ctx; data_end = md_data_end ctx; eth = data in
      if past (padd eth (sizeof struct_ethhdr)) data_end then Some None
      else do {
        h_proto \<leftarrow> ld_field struct_ethhdr ''h_proto'' eth s;
        let eth_proto = bpf_ntohs (of_nat h_proto);
        if eth_proto = 0x0800 then
          let ip = padd eth (sizeof struct_ethhdr) in
          if past (padd ip (sizeof struct_iphdr)) data_end then Some None
          else do {
            protocol \<leftarrow> ld_field struct_iphdr ''protocol'' ip s;
            if protocol \<noteq> 6 then Some None
            else do {
              ihl \<leftarrow> ld_field struct_iphdr ''ihl'' ip s;
              let ip_hlen = (of_nat ihl :: u32) * 4;
              if ip_hlen < 20 \<or> 60 < ip_hlen then Some None
              else let tcp = padd ip (unat ip_hlen) in
                if past (padd tcp (sizeof struct_tcphdr)) data_end then Some None
                else Some (Some tcp)
            }
          }
        else if eth_proto = 0x86DD then
          let ip6 = padd eth (sizeof struct_ethhdr) in
          if past (padd ip6 (sizeof struct_ipv6hdr)) data_end then Some None
          else do {
            nexthdr \<leftarrow> ld_field struct_ipv6hdr ''nexthdr'' ip6 s;
            if nexthdr \<noteq> 6 then Some None
            else let tcp = padd ip6 (sizeof struct_ipv6hdr) in
              if past (padd tcp (sizeof struct_tcphdr)) data_end then Some None
              else Some (Some tcp)
          }
        else Some None
      })"

definition xdp_mirror ::
  "(xdp_map, 'k) bpf_helpers \<Rightarrow> xdp_md \<Rightarrow> 'k machine \<Rightarrow> (int \<times> 'k machine) option" where
  "xdp_mirror h ctx s =
     (let data = md_data ctx; data_end = md_data_end ctx;
          frame_len = (of_nat (snd data_end - snd data) :: u32) in
      if frame_len = 0 then Some (XDP_PASS, s)
      else let cap_len = (if FIXED_SNAP_LEN < frame_len then FIXED_SNAP_LEN else frame_len) in
      case ringbuf_reserve h Pkt_ring (sizeof struct_pkt_record) s of
        (None, s) \<Rightarrow> do {
          s \<leftarrow> bump_counter h Stats STATS_DROPPED s;
          Some (XDP_PASS, s)
        }
      | (Some rec, s) \<Rightarrow> do {
          s \<leftarrow> st_field struct_pkt_record ''len'' (le_put frame_len) rec s;
          s \<leftarrow> st_field struct_pkt_record ''cap_len'' (le_put cap_len) rec s;
          if past (padd data (unat cap_len)) data_end
          then Some (XDP_PASS, ringbuf_discard h rec s)
          else case probe_read_kernel h (padd rec (offsetof struct_pkt_record ''data''))
                      (unat (cap_len AND (FIXED_SNAP_LEN - 1))) data s of
            (ret, s) \<Rightarrow>
              if ret < 0 then Some (XDP_PASS, ringbuf_discard h rec s)
              else do {
                s \<leftarrow> bump_counter h Stats STATS_RECEIVED (ringbuf_submit h rec s);
                Some (XDP_PASS, s)
              }
        })"

definition pgshadow_xdp ::
  "(xdp_map, 'k) bpf_helpers \<Rightarrow> xdp_md \<Rightarrow> 'k machine \<Rightarrow> (int \<times> 'k machine) option" where
  "pgshadow_xdp h ctx s = do {
     found \<leftarrow> xdp_find_tcp ctx s;
     case found of
       None \<Rightarrow> Some (XDP_PASS, s)
     | Some tcp \<Rightarrow>
         (case map_lookup_elem h Cfg_port (le_put (0 :: u32)) s of
            None \<Rightarrow> Some (XDP_PASS, s)
          | Some target_port \<Rightarrow> do {
              port \<leftarrow> map_option le_val (mload target_port 2 s);
              source \<leftarrow> ld_field struct_tcphdr ''source'' tcp s;
              dest \<leftarrow> ld_field struct_tcphdr ''dest'' tcp s;
              if source \<noteq> port \<and> dest \<noteq> port then Some (XDP_PASS, s)
              else xdp_mirror h ctx s
            })
   }"

section \<open>What a frame is mirrored for\<close>

text \<open>
  The wire format read off the frame alone: network byte order, the IPv4 header length field
  in units of four bytes, no IPv6 extension headers.
\<close>

definition be16_at :: "nat \<Rightarrow> bytes \<Rightarrow> nat" where
  "be16_at i f = be_val (slice_at i 2 f)"

definition byte_at :: "nat \<Rightarrow> bytes \<Rightarrow> nat" where
  "byte_at i f = le_val (slice_at i 1 f)"

definition tcp_offset :: "bytes \<Rightarrow> nat option" where
  "tcp_offset f =
     (if length f < 14 then None
      else if be16_at 12 f = 0x0800 then
        (let hlen = 4 * (byte_at 14 f mod 16) in
         if 34 \<le> length f \<and> byte_at 23 f = 6 \<and> 20 \<le> hlen \<and> 14 + hlen + 20 \<le> length f
         then Some (14 + hlen) else None)
      else if be16_at 12 f = 0x86DD then
        (if 74 \<le> length f \<and> byte_at 20 f = 6 then Some 54 else None)
      else None)"

definition frame_matches :: "nat \<Rightarrow> bytes \<Rightarrow> bool" where
  "frame_matches port f = (case tcp_offset f of None \<Rightarrow> False
     | Some i \<Rightarrow> be16_at i f = port \<or> be16_at (i + 2) f = port)"

section \<open>Header parsing is the wire format\<close>

definition packet_at :: "xdp_md \<Rightarrow> bytes \<Rightarrow> 'k machine \<Rightarrow> bool" where
  "packet_at ctx f s \<longleftrightarrow> (\<exists>b d bs. md_data ctx = (b, d) \<and> md_data_end ctx = (b, d + length f)
     \<and> heap s b = Some bs \<and> d + length f \<le> length bs \<and> slice_at d (length f) bs = f)"

lemma slice_slice:
  "i + n \<le> m \<Longrightarrow> slice_at i n (slice_at d m xs) = slice_at (d + i) n xs"
  by (simp add: slice_at_def drop_take min_def add.commute)

lemma packet_load:
  assumes "packet_at ctx f s" and "i + n \<le> length f"
  shows "mload (padd (md_data ctx) i) n s = Some (slice_at i n f)"
proof -
  obtain b d bs where p: "md_data ctx = (b, d)" "heap s b = Some bs"
      "d + length f \<le> length bs" "slice_at d (length f) bs = f"
    using assms(1) by (auto simp: packet_at_def)
  have "slice_at (d + i) n bs = slice_at i n f"
    using slice_slice [of i n "length f" d bs] assms(2) p(4) by simp
  then show ?thesis
    using p assms(2) by (simp add: mload_def padd_def)
qed

lemma packet_past:
  "packet_at ctx f s \<Longrightarrow> past (padd (md_data ctx) i) (md_data_end ctx) \<longleftrightarrow> length f < i"
  by (auto simp: packet_at_def past_def padd_def)

lemma padd_padd [simp]: "padd (padd p i) j = padd p (i + j)"
  by (simp add: padd_def)

lemma ntohs_le_val:
  assumes "length xs = 2"
  shows "bpf_ntohs (of_nat (le_val xs)) = of_nat (be_val xs)"
proof -
  have "le_put (le_get xs :: u16) = xs"
    using assms by (intro le_put_get) simp_all
  then show ?thesis
    by (simp add: bpf_ntohs_def be_val_def flip: le_get_def)
qed

lemma be16_at_less: "be16_at i f < 65536"
proof -
  have "be_val (slice_at i 2 f) < 256 ^ length (slice_at i 2 f)"
    by (rule be_val_bound)
  also have "\<dots> \<le> 256 ^ 2"
    by (rule power_increasing) simp_all
  finally show ?thesis by (simp add: be16_at_def)
qed

lemma be16_word_eq:
  "(of_nat (be16_at i f) :: u16) = of_nat n \<longleftrightarrow> be16_at i f = n" if "n < 65536"
  using that be16_at_less [of i f]
  by (simp add: word_unat_eq_iff unat_of_nat)

lemma ihl_words:
  assumes "n < 16"
  shows "(of_nat n :: u32) * 4 < 20 \<longleftrightarrow> 4 * n < 20" and "60 < (of_nat n :: u32) * 4 \<longleftrightarrow> 60 < 4 * n"
    and "unat ((of_nat n :: u32) * 4) = 4 * n"
proof -
  show u: "unat ((of_nat n :: u32) * 4) = 4 * n"
    using assms by (simp add: unat_word_ariths unat_of_nat)
  show "(of_nat n :: u32) * 4 < 20 \<longleftrightarrow> 4 * n < 20"
    by (simp add: word_less_nat_alt u)
  show "60 < (of_nat n :: u32) * 4 \<longleftrightarrow> 60 < 4 * n"
    by (simp add: word_less_nat_alt u)
qed

lemma find_tcp_ok:
  assumes "packet_at ctx f s"
  shows "xdp_find_tcp ctx s = Some (map_option (padd (md_data ctx)) (tcp_offset f))"
proof (cases "length f < 14")
  case True
  with assms show ?thesis
    by (simp add: xdp_find_tcp_def tcp_offset_def Let_def packet_past layout_simps)
next
  case False
  note ld = packet_load [OF assms]
  have proto: "ld_field struct_ethhdr ''h_proto'' (md_data ctx) s = Some (le_val (slice_at 12 2 f))"
    using ld [of 12 2] False by (simp add: ld_field_def mem_simps)
  have swap: "bpf_ntohs (of_nat (le_val (slice_at 12 2 f))) = of_nat (be16_at 12 f)"
    using False by (simp add: ntohs_le_val be16_at_def)
  have v4: "ld_field struct_iphdr ''protocol'' (padd (md_data ctx) 14) s = Some (byte_at 23 f)"
      "ld_field struct_iphdr ''ihl'' (padd (md_data ctx) 14) s = Some (byte_at 14 f mod 16)"
    if "34 \<le> length f"
    using ld [of 23 1] ld [of 14 1] that by (simp_all add: ld_field_def mem_simps byte_at_def)
  have v6: "ld_field struct_ipv6hdr ''nexthdr'' (padd (md_data ctx) 14) s = Some (byte_at 20 f)"
    if "54 \<le> length f"
    using ld [of 20 1] that by (simp add: ld_field_def mem_simps byte_at_def)
  have nib: "byte_at 14 f mod 16 < 16" by simp
  show ?thesis
    using False be16_word_eq [of "0x0800" 12 f] be16_word_eq [of "0x86DD" 12 f] v4 v6
    by (auto simp: xdp_find_tcp_def tcp_offset_def Let_def packet_past [OF assms] layout_simps
        proto swap ihl_words [OF nib])
qed

lemma tcp_offset_inside: "tcp_offset f = Some i \<Longrightarrow> i + 20 \<le> length f"
  by (auto simp: tcp_offset_def Let_def split: if_splits)

section \<open>The record\<close>

text \<open>
  The record mirrored for frame \<open>f\<close> when the reserved memory held \<open>stale\<close> in its data area.
  The copy length is masked to twelve bits, as in the source.
\<close>

definition cap_len_of :: "bytes \<Rightarrow> nat" where
  "cap_len_of f = min 4096 (length f)"

definition copied_of :: "bytes \<Rightarrow> bytes" where
  "copied_of f = take (cap_len_of f mod 4096) f"

definition pkt_record_of :: "bytes \<Rightarrow> bytes \<Rightarrow> bytes" where
  "pkt_record_of f stale = le_put (of_nat (length f) :: u32) @ le_put (of_nat (cap_len_of f) :: u32)
     @ copied_of f @ drop (length (copied_of f)) stale"

lemma cap_len_word:
  assumes "length f < 2 ^ 32"
  shows "(if FIXED_SNAP_LEN < (of_nat (length f) :: u32) then FIXED_SNAP_LEN else of_nat (length f))
       = (of_nat (cap_len_of f) :: u32)"
    and "unat (of_nat (cap_len_of f) :: u32) = cap_len_of f"
proof -
  have u: "unat (of_nat (length f) :: u32) = length f"
    using assms by (simp add: unat_of_nat)
  show "(if FIXED_SNAP_LEN < (of_nat (length f) :: u32) then FIXED_SNAP_LEN else of_nat (length f))
       = (of_nat (cap_len_of f) :: u32)"
    by (simp add: FIXED_SNAP_LEN_def word_less_nat_alt u cap_len_of_def min_def)
  show "unat (of_nat (cap_len_of f) :: u32) = cap_len_of f"
    by (simp add: cap_len_of_def unat_of_nat min_def)
qed

section \<open>Correctness over any kernel that meets the contract\<close>

text \<open>
  What one run does with a frame it mirrors. Either the ring was full and the frame is
  counted as dropped, or the copy failed and nothing is recorded, or the record of the frame
  is the next one userspace reads and the frame is counted as received.
\<close>

definition xdp_outcome ::
  "(xdp_map \<Rightarrow> bytes \<Rightarrow> 'k \<Rightarrow> block option) \<Rightarrow> (xdp_map \<Rightarrow> 'k \<Rightarrow> bytes list)
     \<Rightarrow> bytes \<Rightarrow> 'k machine \<Rightarrow> 'k machine \<Rightarrow> bool" where
  "xdp_outcome vblk out f s s' \<longleftrightarrow>
     (let rcv = counter_of vblk Stats STATS_RECEIVED; drp = counter_of vblk Stats STATS_DROPPED;
          ring = \<lambda>s. out Pkt_ring (kern s) in
      ring s' = ring s \<and> rcv s' = rcv s \<and> drp s' = map_option (\<lambda>c. c + 1) (drp s)
      \<or> ring s' = ring s \<and> rcv s' = rcv s \<and> drp s' = drp s
      \<or> (\<exists>stale. length stale = 4096 \<and> ring s' = ring s @ [pkt_record_of f stale])
          \<and> rcv s' = map_option (\<lambda>c. c + 1) (rcv s) \<and> drp s' = drp s)"

lemma packet_at_cong:
  "heap s' (fst (md_data ctx)) = heap s (fst (md_data ctx)) \<Longrightarrow> packet_at ctx f s' = packet_at ctx f s"
  unfolding packet_at_def by (metis fst_conv)

lemma st_field_len:
  assumes "heap s b = Some bs" and "length bs = 4104"
  shows "st_field struct_pkt_record ''len'' (le_put (v :: u32)) (b, 0) s
       = Some (s\<lparr>heap := (heap s)(b \<mapsto> le_put v @ drop 4 bs)\<rparr>)"
    and "st_field struct_pkt_record ''cap_len'' (le_put v) (b, 0) s
       = Some (s\<lparr>heap := (heap s)(b \<mapsto> take 4 bs @ le_put v @ drop 8 bs)\<rparr>)"
  using assms by (simp_all add: st_field_def mem_simps mstore_def padd_def splice_at_def)

locale xdp_kernel = bpf_kernel h xdp_map_def inv vblk reserved out umem
  for h :: "(xdp_map, 'k) bpf_helpers" and inv and vblk and reserved and out and umem
begin

lemma stats_bump:
  assumes "inv s" and "key \<in> {STATS_RECEIVED, STATS_DROPPED}" and "apart_from_values vblk pb s"
  shows "\<exists>s'. bump_counter h Stats key s = Some s' \<and> inv s' \<and> kern s' = kern s
    \<and> heap s' pb = heap s pb \<and> mval vblk Cfg_port k s' = mval vblk Cfg_port k s
    \<and> counter_of vblk Stats key s' = map_option (\<lambda>c. c + 1) (counter_of vblk Stats key s)
    \<and> (\<forall>key'. key' \<noteq> key \<longrightarrow> counter_of vblk Stats key' s' = counter_of vblk Stats key' s)"
proof -
  have "unat key < max_entries (xdp_map_def Stats)"
    using assms(2) by (auto simp: STATS_RECEIVED_def STATS_DROPPED_def)
  then show ?thesis
    using bump_ok [OF assms(1), of Stats key] assms(3)
    by (fastforce simp: is_array_def counter_of_def le_put_inj)
qed

text \<open>
  The record is filled in place: after the two header stores and a successful copy, the
  reserved object holds the record of the frame over the bytes it held before.
\<close>

lemma fill_ok:
  assumes inv: "inv s" and pkt: "packet_at ctx f s" and len: "length f < 2 ^ 32"
    and b: "heap s b = Some bs" "length bs = 4104" "b \<noteq> fst (md_data ctx)"
    and s2: "s2 = s\<lparr>heap := (heap s)(b \<mapsto> le_put (of_nat (length f) :: u32)
        @ le_put (of_nat (cap_len_of f) :: u32) @ drop 8 bs)\<rparr>"
    and pr: "probe_read_kernel h (b, 8) (cap_len_of f mod 4096) (md_data ctx) s2 = (ret, s3)"
  shows "\<exists>zs. length zs = 4104 \<and> inv s3 \<and> s3 = s\<lparr>heap := (heap s)(b \<mapsto> zs)\<rparr>
    \<and> (0 \<le> ret \<longrightarrow> zs = pkt_record_of f (drop 8 bs))"
proof -
  let ?n = "cap_len_of f mod 4096"
  let ?hdr = "le_put (of_nat (length f) :: u32) @ le_put (of_nat (cap_len_of f) :: u32)"
  have n: "?n \<le> length f" "?n < 4096"
    by (auto simp: cap_len_of_def intro: order_trans [OF mod_less_eq_dividend])
  have "mstore (b, 0) (?hdr) s = Some s2"
    using b by (simp add: mstore_def splice_at_def s2)
  then have inv2: "inv s2" using store_keeps inv by blast
  have "packet_at ctx f s2"
    using pkt b(3) by (subst packet_at_cong [of s2 ctx s]) (auto simp: s2)
  then have ld: "mload (md_data ctx) ?n s2 = Some (copied_of f)"
    using packet_load [of ctx f s2 0 ?n] n(1) by (simp add: padd_def slice_at_def copied_of_def)
  have st: "mstore (b, 8) zs s2 = Some (s\<lparr>heap := (heap s)(b \<mapsto> ?hdr @ zs @ drop (8 + ?n) bs)\<rparr>)"
    if "length zs = ?n" for zs
    using that n(2) b by (simp add: mstore_def splice_at_def s2 add.commute)
  have copied: "length (copied_of f) = ?n"
    using n(1) by (simp add: copied_of_def)
  obtain zs where zs: "length zs = ?n" "mstore (b, 8) zs s2 = Some s3" "0 \<le> ret \<Longrightarrow> zs = copied_of f"
    using read_kernel [OF inv2 ld st [OF copied] pr] st [OF copied] copied by force
  have s3: "s3 = s\<lparr>heap := (heap s)(b \<mapsto> ?hdr @ zs @ drop (8 + ?n) bs)\<rparr>"
    using st [OF zs(1)] zs(2) by simp
  have "inv s3" using store_keeps [OF inv2 zs(2)] .
  moreover have "length (?hdr @ zs @ drop (8 + ?n) bs) = 4104"
    using zs(1) n(2) b(2) by simp
  moreover have "?hdr @ copied_of f @ drop (8 + ?n) bs = pkt_record_of f (drop 8 bs)"
    by (simp add: pkt_record_of_def copied add.commute)
  ultimately show ?thesis
    using s3 zs(3) by (intro exI [of _ "?hdr @ zs @ drop (8 + ?n) bs"]) auto
qed

lemma reserve_ok:
  assumes inv: "inv s" and rs: "ringbuf_reserve h Pkt_ring (sizeof struct_pkt_record) s = (Some p, s1)"
    and pkt: "packet_at ctx f s"
  obtains b bs where "p = (b, 0)" and "heap s b = None" and "length bs = 4104"
    and "b \<noteq> fst (md_data ctx)" and "heap s1 = (heap s)(b \<mapsto> bs)" and "inv s1"
    and "b \<in> reserved Pkt_ring (kern s1)"
    and "out Pkt_ring (kern s1) = out Pkt_ring (kern s)"
    and "\<And>m key. vblk m key (kern s1) = vblk m key (kern s)" and "packet_at ctx f s1"
proof -
  obtain b bs where b: "p = (b, 0)" "heap s b = None" "length bs = 4104"
      "heap s1 = (heap s)(b \<mapsto> bs)" "b \<in> reserved Pkt_ring (kern s1)"
    and k: "inv s1" "out Pkt_ring (kern s1) = out Pkt_ring (kern s)"
      "\<And>m key. vblk m key (kern s1) = vblk m key (kern s)"
    using reserve_record [OF inv rs] by (auto simp: layout_simps)
  have "b \<noteq> fst (md_data ctx)"
    using pkt b(2) by (auto simp: packet_at_def)
  moreover from this have "packet_at ctx f s1"
    using pkt packet_at_cong [of s1 ctx s f] b(4) by simp
  ultimately show thesis using that b k by blast
qed

lemma mirror_run:
  assumes pkt: "packet_at ctx f s" and len: "0 < length f" "length f < 2 ^ 32"
    and rs: "ringbuf_reserve h Pkt_ring (sizeof struct_pkt_record) s = (Some (b, 0), s1)"
    and b: "heap s1 b = Some bs" "length bs = 4104"
    and s2: "s2 = s1\<lparr>heap := (heap s1)(b \<mapsto> le_put (of_nat (length f) :: u32)
        @ le_put (of_nat (cap_len_of f) :: u32) @ drop 8 bs)\<rparr>"
    and pr: "probe_read_kernel h (b, 8) (cap_len_of f mod 4096) (md_data ctx) s2 = (ret, s3)"
  shows "xdp_mirror h ctx s =
       (if ret < 0 then Some (XDP_PASS, ringbuf_discard h (b, 0) s3)
        else do { s' \<leftarrow> bump_counter h Stats STATS_RECEIVED (ringbuf_submit h (b, 0) s3);
                  Some (XDP_PASS, s') })"
proof -
  have fl: "snd (md_data_end ctx) - snd (md_data ctx) = length f"
    using pkt by (auto simp: packet_at_def)
  have nz: "(of_nat (length f) :: u32) \<noteq> 0"
    using len by (simp add: word_unat_eq_iff unat_of_nat)
  have np: "\<not> past (padd (md_data ctx) (cap_len_of f)) (md_data_end ctx)"
    using packet_past [OF pkt] by (simp add: cap_len_of_def)
  let ?len = "le_put (of_nat (length f) :: u32)" and ?cap = "le_put (of_nat (cap_len_of f) :: u32)"
  let ?t = "s1\<lparr>heap := (heap s1)(b \<mapsto> ?len @ drop 4 bs)\<rparr>"
  have st1: "st_field struct_pkt_record ''len'' ?len (b, 0) s1 = Some ?t"
    using st_field_len(1) [OF b] .
  have st2: "st_field struct_pkt_record ''cap_len'' ?cap (b, 0) ?t = Some s2"
    using st_field_len(2) [of ?t b "?len @ drop 4 bs" "of_nat (cap_len_of f)"] b(2)
    by (simp add: s2)
  have copy: "probe_read_kernel h (padd (b, 0) (offsetof struct_pkt_record ''data''))
      (unat ((of_nat (cap_len_of f) :: u32) AND (FIXED_SNAP_LEN - 1))) (md_data ctx) s2 = (ret, s3)"
    using pr cap_len_word(2) [OF len(2)]
    by (simp add: offsetof_def mem_simps padd_def and_4095 FIXED_SNAP_LEN_def)
  show ?thesis
    unfolding xdp_mirror_def Let_def fl cap_len_word(1) [OF len(2)]
    by (simp only: rs nz np st1 st2 copy cap_len_word(2) [OF len(2)] if_False prod.case option.case
        bind.bind_lunit)
qed

text \<open>The three ways \<open>xdp_mirror\<close> ends: the ring was full, the copy failed, the frame went out.\<close>

lemma mirror_full:
  assumes inv: "inv s" and pkt: "packet_at ctx f s" and len: "0 < length f" "length f < 2 ^ 32"
    and apart: "apart_from_values vblk (fst (md_data ctx)) s"
    and rs: "ringbuf_reserve h Pkt_ring (sizeof struct_pkt_record) s = (None, s1)"
  shows "\<exists>s'. xdp_mirror h ctx s = Some (XDP_PASS, s') \<and> inv s' \<and> kern s' = kern s
    \<and> heap s' (fst (md_data ctx)) = heap s (fst (md_data ctx))
    \<and> mval vblk Cfg_port k s' = mval vblk Cfg_port k s
    \<and> counter_of vblk Stats STATS_RECEIVED s' = counter_of vblk Stats STATS_RECEIVED s
    \<and> counter_of vblk Stats STATS_DROPPED s'
        = map_option (\<lambda>c. c + 1) (counter_of vblk Stats STATS_DROPPED s)"
proof -
  have fl: "snd (md_data_end ctx) - snd (md_data ctx) = length f"
    using pkt by (auto simp: packet_at_def)
  have nz: "(of_nat (length f) :: u32) \<noteq> 0"
    using len by (simp add: word_unat_eq_iff unat_of_nat)
  have ne: "STATS_RECEIVED \<noteq> STATS_DROPPED"
    by (simp add: STATS_RECEIVED_def STATS_DROPPED_def)
  have "s1 = s" using reserve_null [OF inv rs] .
  with rs fl nz stats_bump [OF inv _ apart, of STATS_DROPPED k] ne show ?thesis
    by (auto simp: xdp_mirror_def Let_def)
qed

lemma dropped_record:
  assumes "inv s3" and "b \<in> reserved Pkt_ring (kern s3)" and "heap s3 b = Some zs"
    and "(heap s3)(b := None) = heap s" and "out Pkt_ring (kern s3) = out Pkt_ring (kern s)"
    and "\<And>m key. vblk m key (kern s3) = vblk m key (kern s)" and "s' = ringbuf_discard h (b, 0) s3"
  shows "inv s'" and "heap s' = heap s" and "mval vblk m key s' = mval vblk m key s"
    and "out Pkt_ring (kern s') = out Pkt_ring (kern s)"
  using discard [OF assms(1,2,3) assms(7) [symmetric]] assms(4-6) by (simp_all add: mval_def)

lemma sent_record:
  assumes "inv s3" and "b \<in> reserved Pkt_ring (kern s3)" and "heap s3 b = Some zs"
    and "(heap s3)(b := None) = heap s" and "out Pkt_ring (kern s3) = out Pkt_ring (kern s)"
    and "\<And>m key. vblk m key (kern s3) = vblk m key (kern s)" and "s' = ringbuf_submit h (b, 0) s3"
  shows "inv s'" and "heap s' = heap s" and "mval vblk m key s' = mval vblk m key s"
    and "vblk m key (kern s') = vblk m key (kern s)"
    and "out Pkt_ring (kern s') = out Pkt_ring (kern s) @ [zs]"
  using submit [OF assms(1,2,3) assms(7) [symmetric]] assms(4-6) by (simp_all add: mval_def)

lemma mirror_record:
  assumes inv: "inv s" and pkt: "packet_at ctx f s" and len: "0 < length f" "length f < 2 ^ 32"
    and apart: "apart_from_values vblk (fst (md_data ctx)) s"
    and rs: "ringbuf_reserve h Pkt_ring (sizeof struct_pkt_record) s = (Some p, s1)"
  shows "\<exists>s'. xdp_mirror h ctx s = Some (XDP_PASS, s') \<and> inv s'
    \<and> heap s' (fst (md_data ctx)) = heap s (fst (md_data ctx))
    \<and> mval vblk Cfg_port k s' = mval vblk Cfg_port k s
    \<and> counter_of vblk Stats STATS_DROPPED s' = counter_of vblk Stats STATS_DROPPED s
    \<and> ((out Pkt_ring (kern s') = out Pkt_ring (kern s)
          \<and> counter_of vblk Stats STATS_RECEIVED s' = counter_of vblk Stats STATS_RECEIVED s)
       \<or> (\<exists>stale. length stale = 4096
          \<and> out Pkt_ring (kern s') = out Pkt_ring (kern s) @ [pkt_record_of f stale]
          \<and> counter_of vblk Stats STATS_RECEIVED s'
              = map_option (\<lambda>c. c + 1) (counter_of vblk Stats STATS_RECEIVED s)))"
proof -
  let ?pb = "fst (md_data ctx)"
  obtain b bs where b: "p = (b, 0)" "heap s b = None" "length bs = 4104" "b \<noteq> ?pb"
    and h1: "heap s1 = (heap s)(b \<mapsto> bs)" and k1: "inv s1" "b \<in> reserved Pkt_ring (kern s1)"
      "out Pkt_ring (kern s1) = out Pkt_ring (kern s)"
      "\<And>m key. vblk m key (kern s1) = vblk m key (kern s)" and pkt1: "packet_at ctx f s1"
    using reserve_ok [OF inv rs pkt] by metis
  have hb: "heap s1 b = Some bs" by (simp add: h1)
  define s2 where "s2 = s1\<lparr>heap := (heap s1)(b \<mapsto> le_put (of_nat (length f) :: u32)
      @ le_put (of_nat (cap_len_of f) :: u32) @ drop 8 bs)\<rparr>"
  obtain ret s3 where pr: "probe_read_kernel h (b, 8) (cap_len_of f mod 4096) (md_data ctx) s2 = (ret, s3)"
    by (cases "probe_read_kernel h (b, 8) (cap_len_of f mod 4096) (md_data ctx) s2")
  obtain zs where zs: "inv s3" "s3 = s1\<lparr>heap := (heap s1)(b \<mapsto> zs)\<rparr>"
      "0 \<le> ret \<Longrightarrow> zs = pkt_record_of f (drop 8 bs)"
    using fill_ok [OF k1(1) pkt1 len(2) hb b(3,4) s2_def pr] by blast
  note run = mirror_run [OF pkt len rs [unfolded b(1)] hb b(3) s2_def pr]
  have h3: "heap s3 b = Some zs" "b \<in> reserved Pkt_ring (kern s3)" "(heap s3)(b := None) = heap s"
      "out Pkt_ring (kern s3) = out Pkt_ring (kern s)"
      "\<And>m key. vblk m key (kern s3) = vblk m key (kern s)"
    using b(2) k1 by (simp_all add: zs(2) h1 fun_upd_idem)
  show ?thesis
  proof (cases "ret < 0")
    case True
    note d = dropped_record [OF zs(1) h3(2,1,3,4,5) refl]
    from d True run show ?thesis by (simp add: counter_of_def)
  next
    case False
    let ?s = "ringbuf_submit h (b, 0) s3"
    note d = sent_record [OF zs(1) h3(2,1,3,4,5) refl]
    have "apart_from_values vblk ?pb ?s"
      using apart d(4) by (simp add: apart_from_values_def)
    then obtain s' where s': "bump_counter h Stats STATS_RECEIVED ?s = Some s'" "inv s'" "kern s' = kern ?s"
        "heap s' ?pb = heap ?s ?pb" "mval vblk Cfg_port k s' = mval vblk Cfg_port k ?s"
        "counter_of vblk Stats STATS_RECEIVED s'
           = map_option (\<lambda>c. c + 1) (counter_of vblk Stats STATS_RECEIVED ?s)"
        "counter_of vblk Stats STATS_DROPPED s' = counter_of vblk Stats STATS_DROPPED ?s"
      using stats_bump [OF d(1), of STATS_RECEIVED ?pb k]
      by (auto simp: STATS_RECEIVED_def STATS_DROPPED_def)
    have "length (drop 8 bs) = 4096" using b(3) by simp
    with s' d zs(3) False run show ?thesis
      by (intro exI [of _ s']) (auto simp: counter_of_def intro!: exI [of _ "drop 8 bs"])
  qed
qed

lemma mirror_ok:
  assumes inv: "inv s" and pkt: "packet_at ctx f s" and len: "0 < length f" "length f < 2 ^ 32"
    and apart: "apart_from_values vblk (fst (md_data ctx)) s"
  shows "\<exists>s'. xdp_mirror h ctx s = Some (XDP_PASS, s') \<and> inv s'
    \<and> heap s' (fst (md_data ctx)) = heap s (fst (md_data ctx))
    \<and> mval vblk Cfg_port k s' = mval vblk Cfg_port k s \<and> xdp_outcome vblk out f s s'"
proof (cases "ringbuf_reserve h Pkt_ring (sizeof struct_pkt_record) s")
  case (Pair r s1)
  show ?thesis
  proof (cases r)
    case None
    with mirror_full [OF inv pkt len apart, of s1 k] Pair show ?thesis
      by (auto simp: xdp_outcome_def)
  next
    case (Some p)
    with mirror_record [OF inv pkt len apart, of p s1 k] Pair show ?thesis
      by (fastforce simp: xdp_outcome_def)
  qed
qed

lemma config_lookup:
  assumes "inv s"
  obtains b v where "map_lookup_elem h Cfg_port (le_put (0 :: u32)) s = Some (b, 0)"
    and "mload (b, 0) 2 s = Some v" and "mval vblk Cfg_port (le_put (0 :: u32)) s = Some v"
    and "length v = 2"
proof -
  obtain b where b: "vblk Cfg_port (le_put (0 :: u32)) (kern s) = Some b"
    using array_present [OF assms, of Cfg_port "le_put (0 :: u32)"]
    by (auto simp: is_array_def le_val_le_put)
  obtain v where v: "heap s b = Some v" "length v = 2"
    using value_live [OF assms b] by auto
  show thesis
    using that [of b v] b v lookup [OF assms]
    by (simp add: mload_def mval_def slice_at_def)
qed

lemma handler_ok:
  assumes inv: "inv s" and pkt: "packet_at ctx f s" and len: "length f < 2 ^ 32"
    and apart: "apart_from_values vblk (fst (md_data ctx)) s"
    and cfg: "mval vblk Cfg_port (le_put (0 :: u32)) s = Some v"
  shows "\<exists>s'. pgshadow_xdp h ctx s = Some (XDP_PASS, s') \<and> inv s'
    \<and> heap s' (fst (md_data ctx)) = heap s (fst (md_data ctx))
    \<and> mval vblk Cfg_port k s' = mval vblk Cfg_port k s
    \<and> (if frame_matches (be_val v) f then xdp_outcome vblk out f s s' else s' = s)"
proof (cases "tcp_offset f")
  case None
  then show ?thesis
    using find_tcp_ok [OF pkt] inv by (simp add: pgshadow_xdp_def frame_matches_def)
next
  case (Some i)
  obtain b where b: "map_lookup_elem h Cfg_port (le_put (0 :: u32)) s = Some (b, 0)"
      "mload (b, 0) 2 s = Some v" "length v = 2"
    using config_lookup [OF inv] cfg by auto
  have i: "i + 20 \<le> length f" using tcp_offset_inside [OF Some] .
  have port: "ld_field struct_tcphdr ''source'' (padd (md_data ctx) i) s = Some (le_val (slice_at i 2 f))"
      "ld_field struct_tcphdr ''dest'' (padd (md_data ctx) i) s = Some (le_val (slice_at (i + 2) 2 f))"
    using packet_load [OF pkt, of i 2] packet_load [OF pkt, of "i + 2" 2] i
    by (simp_all add: ld_field_def mem_simps)
  have eq: "le_val (slice_at j 2 f) = le_val v \<longleftrightarrow> be16_at j f = be_val v" if "j + 2 \<le> length f" for j
    using that b(3) by (simp add: be16_at_def le_val_inj be_val_inj)
  have "pgshadow_xdp h ctx s
      = (if frame_matches (be_val v) f then xdp_mirror h ctx s else Some (XDP_PASS, s))"
    using find_tcp_ok [OF pkt] Some b port i eq
    by (simp add: pgshadow_xdp_def frame_matches_def)
  moreover have "0 < length f" using i by linarith
  ultimately show ?thesis
    using mirror_ok [OF inv pkt _ len apart, of k] inv by auto
qed

end

section \<open>A run over many frames\<close>

text \<open>
  The driver puts a frame into packet memory, which leaves the kernel's own objects alone,
  and runs the program on it, once per received frame.
\<close>

inductive xdp_trace ::
  "(xdp_map, 'k) bpf_helpers \<Rightarrow> ('k machine \<Rightarrow> bool) \<Rightarrow> (xdp_map \<Rightarrow> bytes \<Rightarrow> 'k \<Rightarrow> block option)
     \<Rightarrow> 'k machine \<Rightarrow> bytes list \<Rightarrow> 'k machine \<Rightarrow> bool"
  for h inv vblk where
  idle: "inv s \<Longrightarrow> xdp_trace h inv vblk s [] s"
| frame: "xdp_trace h inv vblk s fs t \<Longrightarrow> inv t' \<Longrightarrow> kern t' = kern t \<Longrightarrow>
    (\<And>m key. mval vblk m key t' = mval vblk m key t) \<Longrightarrow> packet_at ctx f t' \<Longrightarrow>
    length f < 2 ^ 32 \<Longrightarrow> apart_from_values vblk (fst (md_data ctx)) t' \<Longrightarrow>
    pgshadow_xdp h ctx t' = Some (r, u) \<Longrightarrow> xdp_trace h inv vblk s (fs @ [f]) u"

context xdp_kernel
begin

lemma outcome_counts:
  assumes "xdp_outcome vblk out f s s'"
  shows "\<exists>n d. n + d \<le> 1 \<and> length (out Pkt_ring (kern s')) = length (out Pkt_ring (kern s)) + n
    \<and> counter_of vblk Stats STATS_RECEIVED s'
        = map_option (\<lambda>c. c + of_nat n) (counter_of vblk Stats STATS_RECEIVED s)
    \<and> counter_of vblk Stats STATS_DROPPED s'
        = map_option (\<lambda>c. c + of_nat d) (counter_of vblk Stats STATS_DROPPED s)"
proof -
  have id: "map_option (\<lambda>c. c) x = x" for x :: "u64 option" by (cases x) simp_all
  show ?thesis
    using assms unfolding xdp_outcome_def Let_def
  proof (elim disjE conjE exE, goal_cases)
    case 1
    then show ?case by (intro exI [of _ 0] exI [of _ 1]) (simp add: id)
  next
    case 2
    then show ?case by (intro exI [of _ 0] exI [of _ 0]) (simp add: id)
  next
    case (3 stale)
    then show ?case by (intro exI [of _ 1] exI [of _ 0]) (simp add: id)
  qed
qed

lemma trace_accounts:
  assumes "xdp_trace h inv vblk s fs t"
    and "mval vblk Cfg_port (le_put (0 :: u32)) s = Some v"
  shows "inv t \<and> mval vblk Cfg_port (le_put (0 :: u32)) t = Some v
    \<and> (\<exists>n d. n + d \<le> length (filter (frame_matches (be_val v)) fs)
        \<and> length (out Pkt_ring (kern t)) = length (out Pkt_ring (kern s)) + n
        \<and> counter_of vblk Stats STATS_RECEIVED t
            = map_option (\<lambda>c. c + of_nat n) (counter_of vblk Stats STATS_RECEIVED s)
        \<and> counter_of vblk Stats STATS_DROPPED t
            = map_option (\<lambda>c. c + of_nat d) (counter_of vblk Stats STATS_DROPPED s))"
  using assms
proof induction
  case (idle s)
  then show ?case by (simp add: exI [of _ 0] option.map_id [unfolded id_def])
next
  case (frame s fs t t' ctx f r u)
  then obtain n d where IH: "n + d \<le> length (filter (frame_matches (be_val v)) fs)"
      "length (out Pkt_ring (kern t)) = length (out Pkt_ring (kern s)) + n"
      "counter_of vblk Stats STATS_RECEIVED t
         = map_option (\<lambda>c. c + of_nat n) (counter_of vblk Stats STATS_RECEIVED s)"
      "counter_of vblk Stats STATS_DROPPED t
         = map_option (\<lambda>c. c + of_nat d) (counter_of vblk Stats STATS_DROPPED s)"
    by blast
  have cnt: "counter_of vblk Stats key t' = counter_of vblk Stats key t" for key
    using frame.hyps(4) by (simp add: counter_of_def)
  have cfg: "mval vblk Cfg_port (le_put (0 :: u32)) t' = Some v"
    using frame by simp
  note run = handler_ok [OF frame.hyps(2,5,6,7) cfg, of "le_put (0 :: u32)"]
  have u: "inv u" "mval vblk Cfg_port (le_put (0 :: u32)) u = Some v"
    "if frame_matches (be_val v) f then xdp_outcome vblk out f t' u else u = t'"
    using run frame.hyps(8) cfg by auto
  show ?case
  proof (cases "frame_matches (be_val v) f")
    case True
    then obtain n' d' where "n' + d' \<le> 1"
        "length (out Pkt_ring (kern u)) = length (out Pkt_ring (kern t')) + n'"
        "counter_of vblk Stats STATS_RECEIVED u
           = map_option (\<lambda>c. c + of_nat n') (counter_of vblk Stats STATS_RECEIVED t')"
        "counter_of vblk Stats STATS_DROPPED u
           = map_option (\<lambda>c. c + of_nat d') (counter_of vblk Stats STATS_DROPPED t')"
      using outcome_counts u(3) by fastforce
    with IH u True frame.hyps(3) show ?thesis
      by (intro conjI exI [of _ "n + n'"] exI [of _ "d + d'"])
        (auto simp: cnt option.map_comp comp_def add.assoc)
  next
    case False
    with IH u frame.hyps(3) cnt show ?thesis by auto
  qed
qed

end

end
