(* ===== verification/Xdp_Correct.thy ===== *)
theory Xdp_Correct
  imports Xdp_Program
begin

section \<open>The reference kernel, booted with the program's maps\<close>

interpretation xdp_rk: xdp_kernel "rk_helpers xdp_map_def" "rk_inv xdp_map_def"
  rk_vblk rk_reserved rk_outs rk_umem
  by (rule xdp_kernel.intro, rule rk.bpf_kernel_axioms)

definition xdp_boot_vals :: "xdp_map \<Rightarrow> (bytes \<times> block) list" where
  "xdp_boot_vals m = (case m of
       Pkt_ring \<Rightarrow> []
     | Stats \<Rightarrow> [(le_put STATS_RECEIVED, 0), (le_put STATS_DROPPED, 1)]
     | Cfg_port \<Rightarrow> [(le_put (0 :: u32), 2)])"

definition xdp_boot :: "u16 \<Rightarrow> nat \<Rightarrow> byte \<Rightarrow> bytes \<Rightarrow> xdp_map rkern machine" where
  "xdp_boot port room stale f =
     \<lparr>heap = [0 \<mapsto> le_put (0 :: u64), 1 \<mapsto> le_put (0 :: u64), 2 \<mapsto> be_put port, 3 \<mapsto> f],
      kern = \<lparr>rk_vals = xdp_boot_vals, rk_next = 4, rk_ring = Map.empty, rk_out = (\<lambda>_. []),
        rk_room = (\<lambda>_. room), rk_stale = stale, rk_user = Map.empty, rk_pid_tgid = 0, rk_time = 0\<rparr>\<rparr>"

definition xdp_boot_ctx :: "bytes \<Rightarrow> xdp_md" where
  "xdp_boot_ctx f = \<lparr>md_data = (3, 0), md_data_end = (3, length f)\<rparr>"

lemma xdp_boot_vblk:
  "rk_vblk m key (kern (xdp_boot port room stale f)) =
     (if m = Stats \<and> key = le_put STATS_RECEIVED then Some 0
      else if m = Stats \<and> key = le_put STATS_DROPPED then Some 1
      else if m = Cfg_port \<and> key = le_put (0 :: u32) then Some 2 else None)"
  by (cases m) (auto simp: rk_vblk_def xdp_boot_def xdp_boot_vals_def)

lemma xdp_boot_inv: "rk_inv xdp_map_def (xdp_boot port room stale f)"
  unfolding rk_inv_def
proof (intro conjI)
  let ?s = "xdp_boot port room stale f"
  have ne: "le_put STATS_RECEIVED \<noteq> le_put STATS_DROPPED"
    by (simp add: le_put_inj STATS_RECEIVED_def STATS_DROPPED_def)
  show "rk_fresh ?s" by (simp add: rk_fresh_def xdp_boot_def)
  show "rk_keys ?s"
    using ne by (auto simp: rk_keys_def xdp_boot_def xdp_boot_vals_def split: xdp_map.split)
  show "rk_live xdp_map_def ?s"
    by (auto simp: rk_live_def xdp_boot_vblk) (auto simp: xdp_boot_def)
  show "rk_apart ?s" using ne by (auto simp: rk_apart_def xdp_boot_vblk)
  show "rk_arrays xdp_map_def ?s"
    unfolding rk_arrays_def
  proof (intro allI impI)
    fix m key
    assume "is_array (xdp_map_def m)" "length key = key_size (xdp_map_def m)"
      "le_val key < max_entries (xdp_map_def m)"
    then show "rk_vblk m key (kern ?s) \<noteq> None"
      using array_key_single [of key] array_key_cases [of key]
      by (cases m) (auto simp: xdp_boot_vblk STATS_RECEIVED_def STATS_DROPPED_def is_array_def)
  qed
qed

lemma xdp_boot_facts:
  "packet_at (xdp_boot_ctx f) f (xdp_boot port room stale f)"
  "apart_from_values rk_vblk (fst (md_data (xdp_boot_ctx f))) (xdp_boot port room stale f)"
  "mval rk_vblk Cfg_port (le_put (0 :: u32)) (xdp_boot port room stale f) = Some (be_put port)"
proof -
  show "packet_at (xdp_boot_ctx f) f (xdp_boot port room stale f)"
    by (simp add: packet_at_def xdp_boot_ctx_def xdp_boot_def slice_at_def)
  show "apart_from_values rk_vblk (fst (md_data (xdp_boot_ctx f))) (xdp_boot port room stale f)"
    by (simp add: apart_from_values_def xdp_boot_vblk xdp_boot_ctx_def)
  show "mval rk_vblk Cfg_port (le_put (0 :: u32)) (xdp_boot port room stale f) = Some (be_put port)"
    by (simp add: mval_def xdp_boot_vblk) (simp add: xdp_boot_def)
qed

text \<open>An IPv4 segment from port 40000 to port 5432: Ethernet, IP and TCP headers, no payload.\<close>

definition sample_frame :: bytes where
  "sample_frame = replicate 12 0 @ [0x08, 0x00, 0x45] @ replicate 8 0 @ [6] @ replicate 10 0
     @ be_put (40000 :: u16) @ be_put (5432 :: u16) @ replicate 16 0"

lemma sample_frame_facts: "length sample_frame = 54" "frame_matches 5432 sample_frame"
proof -
  show "length sample_frame = 54" by (simp add: sample_frame_def)
  show "frame_matches 5432 sample_frame" 
    by (simp add: sample_frame_def frame_matches_def tcp_offset_def be16_at_def byte_at_def Let_def
        slice_at_def be_val_def be_put_def be_bytes_def le_val_le_bytes)
qed

section \<open>Properties\<close>

text \<open>
  C1: The program never disturbs traffic. Over any kernel that meets the helper contract, on
  every frame, the handler runs to the end without a memory fault and returns \<open>XDP_PASS\<close>; the
  frame and the configured port are afterwards what they were, and the kernel's invariant holds.
\<close>

theorem xdp_transparent:
  assumes "xdp_kernel h kinv vblk reserved out umem" and "kinv s" and "packet_at ctx f s"
    and "length f < 2 ^ 32" and "apart_from_values vblk (fst (md_data ctx)) s"
  shows "\<exists>s'. pgshadow_xdp h ctx s = Some (XDP_PASS, s') \<and> kinv s' \<and> packet_at ctx f s'
    \<and> (\<forall>key. mval vblk Cfg_port key s' = mval vblk Cfg_port key s)"
proof -
  obtain v where v: "mval vblk Cfg_port (le_put (0 :: u32)) s = Some v"
    using xdp_kernel.config_lookup [OF assms(1,2)] by blast
  note run = xdp_kernel.handler_ok [OF assms v]
  obtain s' where s': "pgshadow_xdp h ctx s = Some (XDP_PASS, s')" using run by blast
  have "mval vblk Cfg_port key s' = mval vblk Cfg_port key s" for key
    using run [of key] s' by auto
  moreover have "kinv s'" "heap s' (fst (md_data ctx)) = heap s (fst (md_data ctx))"
    using run s' by auto
  ultimately show ?thesis
    using s' packet_at_cong [of s' ctx s f] assms(3) by blast
qed

theorem xdp_transparent_witness:
  "\<exists>s'. pgshadow_xdp (rk_helpers xdp_map_def) (xdp_boot_ctx sample_frame)
       (xdp_boot 5432 5000 0xAA sample_frame) = Some (XDP_PASS, s')
     \<and> rk_inv xdp_map_def s' \<and> packet_at (xdp_boot_ctx sample_frame) sample_frame s'
     \<and> (\<forall>key. mval rk_vblk Cfg_port key s'
          = mval rk_vblk Cfg_port key (xdp_boot 5432 5000 0xAA sample_frame))"
  by (rule xdp_transparent [OF xdp_rk.xdp_kernel_axioms xdp_boot_inv xdp_boot_facts(1) _
        xdp_boot_facts(2)]) (simp add: sample_frame_facts)



text \<open>
  C15: The counters account for the ring. After any sequence of frames the received counter has
  grown by the number of records sent to userspace, the ring has only grown, and records and
  drops together never exceed the number of frames of the configured port. The counters are
  64-bit and wrap.
\<close>

theorem xdp_accounting:
  assumes "xdp_kernel h kinv vblk reserved out umem" and "xdp_trace h kinv vblk s fs t"
    and "mval vblk Cfg_port (le_put (0 :: u32)) s = Some v"
  shows "\<exists>n d. n + d \<le> length (filter (frame_matches (be_val v)) fs)
    \<and> length (out Pkt_ring (kern t)) = length (out Pkt_ring (kern s)) + n
    \<and> counter_of vblk Stats STATS_RECEIVED t
        = map_option (\<lambda>c. c + of_nat n) (counter_of vblk Stats STATS_RECEIVED s)
    \<and> counter_of vblk Stats STATS_DROPPED t
        = map_option (\<lambda>c. c + of_nat d) (counter_of vblk Stats STATS_DROPPED s)"
  using xdp_kernel.trace_accounts [OF assms] by blast

lemma sample_trace:
  "\<exists>u. xdp_trace (rk_helpers xdp_map_def) (rk_inv xdp_map_def) rk_vblk
     (xdp_boot 5432 5000 0xAA sample_frame) [sample_frame] u"
proof -
  let ?s = "xdp_boot 5432 5000 0xAA sample_frame"
  have len: "length sample_frame < 2 ^ 32" by (simp add: sample_frame_facts)
  obtain u where "pgshadow_xdp (rk_helpers xdp_map_def) (xdp_boot_ctx sample_frame) ?s = Some (XDP_PASS, u)"
    using xdp_rk.handler_ok [OF xdp_boot_inv xdp_boot_facts(1) len xdp_boot_facts(2,3)] by blast
  then have "xdp_trace (rk_helpers xdp_map_def) (rk_inv xdp_map_def) rk_vblk ?s ([] @ [sample_frame]) u"
    by (intro xdp_trace.frame [where t = ?s and t' = ?s and ctx = "xdp_boot_ctx sample_frame"]
        xdp_trace.idle xdp_boot_inv xdp_boot_facts len) simp_all
  then show ?thesis by auto
qed

theorem xdp_accounting_witness:
  "\<exists>u n d. xdp_trace (rk_helpers xdp_map_def) (rk_inv xdp_map_def) rk_vblk
       (xdp_boot 5432 5000 0xAA sample_frame) [sample_frame] u
     \<and> n + d \<le> 1 \<and> length (rk_outs Pkt_ring (kern u)) = n
     \<and> counter_of rk_vblk Stats STATS_RECEIVED u
         = map_option (\<lambda>c. c + of_nat n)
             (counter_of rk_vblk Stats STATS_RECEIVED (xdp_boot 5432 5000 0xAA sample_frame))"
proof -
  obtain u where u: "xdp_trace (rk_helpers xdp_map_def) (rk_inv xdp_map_def) rk_vblk
      (xdp_boot 5432 5000 0xAA sample_frame) [sample_frame] u"
    using sample_trace by blast
  have "rk_outs Pkt_ring (kern (xdp_boot 5432 5000 0xAA sample_frame)) = []"
    by (simp add: rk_outs_def xdp_boot_def)
  with xdp_accounting [OF xdp_rk.xdp_kernel_axioms u xdp_boot_facts(3)] u show ?thesis
    by (auto simp: sample_frame_facts be_val_be_put)
qed

end
