(* ===== verification/Ssl_Program.thy ===== *)
theory Ssl_Program
  imports Reference_Kernel
begin

text \<open>
  The SSL uprobe programs, \<^verbatim>\<open>src/pkg/capture/bpf/pgshadow_ssl.c\<close>. A probe on entry to
  \<^verbatim>\<open>SSL_read\<close> or \<^verbatim>\<open>SSL_write\<close> saves the buffer argument under the thread's identity; the probe
  on return takes it back, copies the plaintext out of the process and submits an event. The
  libbpf macros \<^verbatim>\<open>PT_REGS_PARM2_CORE\<close> and \<^verbatim>\<open>PT_REGS_RC_CORE\<close> are the two components of the
  register argument. The read and the write probes are the same code on different maps, so the
  bodies are shared and take the map and the direction as arguments.
\<close>

section \<open>Maps and records\<close>

datatype ssl_map = Ssl_events | Ssl_read_args | Ssl_write_args | Target_pid | Ssl_stats

definition MAX_DATA_LEN :: u32 where "MAX_DATA_LEN = 4096"
definition MAX_ENTRIES :: nat where "MAX_ENTRIES = 10240"
definition DIR_READ :: u8 where "DIR_READ = 0"
definition DIR_WRITE :: u8 where "DIR_WRITE = 1"

definition struct_ssl_event :: ctype where
  "struct_ssl_event = CStruct [Mem ''pid'' CU32, Mem ''tid'' CU32, Mem ''fd'' CU32,
     Mem ''data_len'' CU32, Mem ''direction'' CU8, Mem ''_pad'' (CArr CU8 3),
     Mem ''timestamp_ns'' CU64, Mem ''data'' (CArr CU8 4096)]"

definition struct_ssl_args :: ctype where
  "struct_ssl_args = CStruct [Mem ''buf_ptr'' CU64, Mem ''fd'' CU32]"

lemma layout_struct_ssl_event [layout_simps]:
  "sizeof struct_ssl_event = 4128" "alignof struct_ssl_event = 8" "wf_ctype struct_ssl_event"
  by (simp_all add: struct_ssl_event_def layout_simps)

lemma layout_struct_ssl_args [layout_simps]:
  "sizeof struct_ssl_args = 16" "alignof struct_ssl_args = 8" "wf_ctype struct_ssl_args"
  by (simp_all add: struct_ssl_args_def layout_simps)

lemma ssl_event_fields [mem_simps]:
  "field_of ''pid'' struct_ssl_event = Some (0, Mem ''pid'' CU32)"
  "field_of ''tid'' struct_ssl_event = Some (32, Mem ''tid'' CU32)"
  "field_of ''fd'' struct_ssl_event = Some (64, Mem ''fd'' CU32)"
  "field_of ''data_len'' struct_ssl_event = Some (96, Mem ''data_len'' CU32)"
  "field_of ''direction'' struct_ssl_event = Some (128, Mem ''direction'' CU8)"
  "field_of ''timestamp_ns'' struct_ssl_event = Some (192, Mem ''timestamp_ns'' CU64)"
  "field_of ''data'' struct_ssl_event = Some (256, Mem ''data'' (CArr CU8 4096))"
  by (simp_all add: struct_ssl_event_def field_simps_of)

lemma ssl_args_fields [mem_simps]:
  "field_of ''buf_ptr'' struct_ssl_args = Some (0, Mem ''buf_ptr'' CU64)"
  "field_of ''fd'' struct_ssl_args = Some (64, Mem ''fd'' CU32)"
  by (simp_all add: struct_ssl_args_def field_simps_of)

fun ssl_map_def :: "ssl_map \<Rightarrow> map_def" where
  "ssl_map_def Ssl_events = \<lparr>map_type = ''BPF_MAP_TYPE_RINGBUF'', key_size = 0, value_size = 0,
     max_entries = 64 * 1024 * 1024\<rparr>"
| "ssl_map_def Ssl_read_args = \<lparr>map_type = ''BPF_MAP_TYPE_HASH'', key_size = 8,
     value_size = sizeof struct_ssl_args, max_entries = MAX_ENTRIES\<rparr>"
| "ssl_map_def Ssl_write_args = \<lparr>map_type = ''BPF_MAP_TYPE_HASH'', key_size = 8,
     value_size = sizeof struct_ssl_args, max_entries = MAX_ENTRIES\<rparr>"
| "ssl_map_def Target_pid = \<lparr>map_type = ''BPF_MAP_TYPE_ARRAY'', key_size = 4, value_size = 4,
     max_entries = 1\<rparr>"
| "ssl_map_def Ssl_stats = \<lparr>map_type = ''BPF_MAP_TYPE_PERCPU_ARRAY'', key_size = 4, value_size = 8,
     max_entries = 2\<rparr>"

definition STATS_CAPTURED :: u32 where "STATS_CAPTURED = 0"
definition SSL_STATS_DROPPED :: u32 where "SSL_STATS_DROPPED = 1"

section \<open>The handlers\<close>

record ssl_regs =
  PT_REGS_PARM2 :: u64
  PT_REGS_RC :: u64

definition pid_of :: "u64 \<Rightarrow> u32" where
  "pid_of pid_tgid = ucast (drop_bit 32 pid_tgid)"

definition should_trace :: "(ssl_map, 'k) bpf_helpers \<Rightarrow> 'k machine \<Rightarrow> bool option" where
  "should_trace h s = (case map_lookup_elem h Target_pid (le_put (0 :: u32)) s of
       None \<Rightarrow> Some True
     | Some filter_pid \<Rightarrow> do {
         bs \<leftarrow> mload filter_pid 4 s;
         if (le_get bs :: u32) \<noteq> 0
         then let pid = pid_of (get_current_pid_tgid h s) in Some (pid = le_get bs)
         else Some True
       })"

text \<open>\<open>struct ssl_args args = {}\<close> with both members assigned; the tail padding is zero.\<close>

definition ssl_args_of :: "u64 \<Rightarrow> u32 \<Rightarrow> bytes" where
  "ssl_args_of buf_ptr fd = le_put buf_ptr @ le_put fd @ replicate 4 0"

definition ssl_enter ::
  "(ssl_map, 'k) bpf_helpers \<Rightarrow> ssl_map \<Rightarrow> ssl_regs \<Rightarrow> 'k machine \<Rightarrow> (int \<times> 'k machine) option" where
  "ssl_enter h args_map ctx s = do {
     ok \<leftarrow> should_trace h s;
     if \<not> ok then Some (0, s)
     else let pid_tgid = get_current_pid_tgid h s; args = ssl_args_of (PT_REGS_PARM2 ctx) 0 in
       Some (0, snd (map_update_elem h args_map (le_put pid_tgid) args 0 s))
   }"

definition ssl_fill ::
  "(ssl_map, 'k) bpf_helpers \<Rightarrow> u8 \<Rightarrow> u64 \<Rightarrow> u32 \<Rightarrow> ptr \<Rightarrow> ptr \<Rightarrow> 'k machine \<Rightarrow> 'k machine option" where
  "ssl_fill h dir pid_tgid data_len args event s = do {
     s \<leftarrow> st_field struct_ssl_event ''pid'' (le_put (pid_of pid_tgid)) event s;
     s \<leftarrow> st_field struct_ssl_event ''tid'' (le_put (ucast pid_tgid :: u32)) event s;
     fd \<leftarrow> ld_field struct_ssl_args ''fd'' args s;
     s \<leftarrow> st_field struct_ssl_event ''fd'' (le_put (of_nat fd :: u32)) event s;
     s \<leftarrow> st_field struct_ssl_event ''data_len'' (le_put data_len) event s;
     s \<leftarrow> st_field struct_ssl_event ''direction'' (le_put dir) event s;
     s \<leftarrow> st_field struct_ssl_event ''timestamp_ns'' (le_put (ktime_get_ns h s)) event s;
     buf_ptr \<leftarrow> ld_field struct_ssl_args ''buf_ptr'' args s;
     Some (snd (probe_read_user h (padd event (offsetof struct_ssl_event ''data''))
       (unat (data_len AND (MAX_DATA_LEN - 1))) (of_nat buf_ptr) s))
   }"

definition ssl_emit ::
  "(ssl_map, 'k) bpf_helpers \<Rightarrow> u8 \<Rightarrow> u64 \<Rightarrow> u32 \<Rightarrow> ptr \<Rightarrow> 'k machine \<Rightarrow> (int \<times> 'k machine) option" where
  "ssl_emit h dir pid_tgid data_len args s =
     (case ringbuf_reserve h Ssl_events (sizeof struct_ssl_event) s of
        (None, s) \<Rightarrow> do { s \<leftarrow> bump_counter h Ssl_stats SSL_STATS_DROPPED s; Some (0, s) }
      | (Some event, s) \<Rightarrow> do {
          s \<leftarrow> ssl_fill h dir pid_tgid data_len args event s;
          s \<leftarrow> bump_counter h Ssl_stats STATS_CAPTURED (ringbuf_submit h event s);
          Some (0, s)
        })"

definition ssl_exit ::
  "(ssl_map, 'k) bpf_helpers \<Rightarrow> ssl_map \<Rightarrow> u8 \<Rightarrow> ssl_regs \<Rightarrow> 'k machine \<Rightarrow> (int \<times> 'k machine) option" where
  "ssl_exit h args_map dir ctx s = do {
     ok \<leftarrow> should_trace h s;
     if \<not> ok then Some (0, s)
     else let pid_tgid = get_current_pid_tgid h s in
       case map_lookup_elem h args_map (le_put pid_tgid) s of
         None \<Rightarrow> Some (0, s)
       | Some args \<Rightarrow>
         let ret = (ucast (PT_REGS_RC ctx) :: u32);
             s = snd (map_delete_elem h args_map (le_put pid_tgid) s) in
         if sint ret \<le> 0 then Some (0, s)
         else let data_len = (if MAX_DATA_LEN < ret then MAX_DATA_LEN else ret) in
           ssl_emit h dir pid_tgid data_len args s
   }"

definition uprobe_ssl_read_enter ::
  "(ssl_map, 'k) bpf_helpers \<Rightarrow> ssl_regs \<Rightarrow> 'k machine \<Rightarrow> (int \<times> 'k machine) option" where
  "uprobe_ssl_read_enter h ctx s = ssl_enter h Ssl_read_args ctx s"

definition uretprobe_ssl_read_exit ::
  "(ssl_map, 'k) bpf_helpers \<Rightarrow> ssl_regs \<Rightarrow> 'k machine \<Rightarrow> (int \<times> 'k machine) option" where
  "uretprobe_ssl_read_exit h ctx s = ssl_exit h Ssl_read_args DIR_READ ctx s"

definition uprobe_ssl_write_enter ::
  "(ssl_map, 'k) bpf_helpers \<Rightarrow> ssl_regs \<Rightarrow> 'k machine \<Rightarrow> (int \<times> 'k machine) option" where
  "uprobe_ssl_write_enter h ctx s = ssl_enter h Ssl_write_args ctx s"

definition uretprobe_ssl_write_exit ::
  "(ssl_map, 'k) bpf_helpers \<Rightarrow> ssl_regs \<Rightarrow> 'k machine \<Rightarrow> (int \<times> 'k machine) option" where
  "uretprobe_ssl_write_exit h ctx s = ssl_exit h Ssl_write_args DIR_WRITE ctx s"

section \<open>What an event holds\<close>

text \<open>
  The event over memory that held \<open>stale\<close>: the bytes between the direction and the time stamp
  are not written, nor is the data area beyond what was copied.
\<close>

definition ssl_event_of :: "u64 \<Rightarrow> u32 \<Rightarrow> u32 \<Rightarrow> u8 \<Rightarrow> u64 \<Rightarrow> bytes \<Rightarrow> bytes \<Rightarrow> bytes" where
  "ssl_event_of pid_tgid fd data_len dir ts copied stale =
     le_put (pid_of pid_tgid) @ le_put (ucast pid_tgid :: u32) @ le_put fd @ le_put data_len
     @ le_put dir @ slice_at 17 7 stale @ le_put ts @ copied @ drop (32 + length copied) stale"

text \<open>The clamped length, and the plaintext the copy finds: as many bytes as the mask leaves.\<close>

definition clamp_len :: "u32 \<Rightarrow> u32" where
  "clamp_len ret = (if MAX_DATA_LEN < ret then MAX_DATA_LEN else ret)"

definition plaintext :: "('k \<Rightarrow> u64 \<Rightarrow> nat \<Rightarrow> bytes option) \<Rightarrow> 'k \<Rightarrow> u64 \<Rightarrow> u32 \<Rightarrow> bytes" where
  "plaintext umem k buf data_len = (case umem k buf (unat data_len mod 4096) of
       Some bs \<Rightarrow> bs | None \<Rightarrow> replicate (unat data_len mod 4096) 0)"

text \<open>The two members of saved arguments.\<close>

definition args_buf :: "bytes \<Rightarrow> u64" where "args_buf as = le_get (slice_at 0 8 as)"
definition args_fd :: "bytes \<Rightarrow> u32" where "args_fd as = le_get (slice_at 8 4 as)"

text \<open>
  What a return probe does with saved arguments \<open>as\<close> once it has decided to emit: the ring was
  full and the event is counted as dropped, or the event is the next record of the ring and is
  counted as captured.
\<close>

definition ssl_outcome ::
  "(ssl_map \<Rightarrow> bytes \<Rightarrow> 'k \<Rightarrow> block option) \<Rightarrow> (ssl_map \<Rightarrow> 'k \<Rightarrow> bytes list)
     \<Rightarrow> ('k \<Rightarrow> u64 \<Rightarrow> nat \<Rightarrow> bytes option) \<Rightarrow> u8 \<Rightarrow> u64 \<Rightarrow> u32 \<Rightarrow> bytes
     \<Rightarrow> 'k machine \<Rightarrow> 'k machine \<Rightarrow> bool" where
  "ssl_outcome vblk out umem dir pid_tgid data_len as s s' \<longleftrightarrow>
     (let cap = counter_of vblk Ssl_stats STATS_CAPTURED;
          drp = counter_of vblk Ssl_stats SSL_STATS_DROPPED; ring = \<lambda>s. out Ssl_events (kern s) in
      ring s' = ring s \<and> cap s' = cap s \<and> drp s' = map_option (\<lambda>c. c + 1) (drp s)
      \<or> (\<exists>ts stale. length stale = 4128 \<and> ring s' = ring s @
            [ssl_event_of pid_tgid (args_fd as) data_len dir ts
               (plaintext umem (kern s) (args_buf as) data_len) stale])
          \<and> cap s' = map_option (\<lambda>c. c + 1) (cap s) \<and> drp s' = drp s)"

definition same_maps ::
  "(ssl_map \<Rightarrow> bytes \<Rightarrow> 'k \<Rightarrow> block option) \<Rightarrow> 'k machine \<Rightarrow> 'k machine \<Rightarrow> bool" where
  "same_maps vblk s s' \<longleftrightarrow> (\<forall>m key. m \<noteq> Ssl_stats \<longrightarrow> mval vblk m key s' = mval vblk m key s)"

section \<open>Correctness over any kernel that meets the contract\<close>

lemma st_field_object:
  assumes "heap s b = Some bs" and "field_of x t = Some (q, Mem y ft)" and "length v = sizeof ft"
    and "q div 8 + sizeof ft \<le> length bs"
  shows "st_field t x v (b, 0) s = Some (s\<lparr>heap := (heap s)(b \<mapsto> splice_at (q div 8) v bs)\<rparr>)"
  using assms by (simp add: st_field_def mstore_def padd_def)

lemma ld_field_object:
  assumes "heap s b = Some bs" and "field_of x t = Some (q, Mem y ft)"
    and "q div 8 + sizeof ft \<le> length bs"
  shows "ld_field t x (b, 0) s = Some (le_val (slice_at (q div 8) (sizeof ft) bs))"
  using assms by (simp add: ld_field_def mload_def padd_def)

lemma splice_append:
  "length pre = n \<Longrightarrow> splice_at n v (pre @ drop n bs) = pre @ v @ drop (n + length v) bs"
  by (simp add: splice_at_def add.commute)

text \<open>The object while the header is written, up to each of the unwritten stretches.\<close>

lemma ssl_fill_run:
  assumes e: "heap s e = Some bs" "length bs = 4128" and a: "heap s a = Some as" "length as = 16"
    and ne: "a \<noteq> e"
  shows "\<exists>ts. ssl_fill h dir pt len (a, 0) (e, 0) s = Some (snd (probe_read_user h (e, 32)
      (unat len mod 4096) (args_buf as) (s\<lparr>heap := (heap s)(e \<mapsto>
        ssl_event_of pt (args_fd as) len dir ts [] bs)\<rparr>)))"
proof -
  let ?w = "\<lambda>xs. s\<lparr>heap := (heap s)(e \<mapsto> xs)\<rparr>"
  let ?h1 = "le_put (pid_of pt)" and ?h2 = "le_put (ucast pt :: u32)"
  let ?h3 = "le_put (args_fd as)" and ?h4 = "le_put len" and ?h5 = "le_put dir"
  let ?o1 = "?h1 @ drop 4 bs" and ?o2 = "?h1 @ ?h2 @ drop 8 bs" and ?o3 = "?h1 @ ?h2 @ ?h3 @ drop 12 bs"
  let ?o4 = "?h1 @ ?h2 @ ?h3 @ ?h4 @ drop 16 bs" and ?o5 = "?h1 @ ?h2 @ ?h3 @ ?h4 @ ?h5 @ drop 17 bs"
  define ts where "ts = ktime_get_ns h (?w ?o5)"
  let ?o6 = "ssl_event_of pt (args_fd as) len dir ts [] bs"
  have st: "st_field struct_ssl_event x v (e, 0) (?w xs) = Some (?w (splice_at (q div 8) v xs))"
    if "field_of x struct_ssl_event = Some (q, Mem y ft)" "length v = sizeof ft"
      "q div 8 + sizeof ft \<le> length xs" for x v q y ft xs
    using st_field_object [of "?w xs" e xs, OF _ that] by simp
  have s1: "st_field struct_ssl_event ''pid'' ?h1 (e, 0) s = Some (?w ?o1)"
    using e st_field_object [OF e(1), of "''pid''"] by (simp add: mem_simps splice_at_def)
  have s2: "st_field struct_ssl_event ''tid'' ?h2 (e, 0) (?w ?o1) = Some (?w ?o2)"
    using e(2) st [of "''tid''" _ _ _ ?h2 ?o1] splice_append [of ?h1 4 ?h2 bs] by (simp add: mem_simps)
  have s3: "st_field struct_ssl_event ''fd'' ?h3 (e, 0) (?w ?o2) = Some (?w ?o3)"
    using e(2) st [of "''fd''" _ _ _ ?h3 ?o2] splice_append [of "?h1 @ ?h2" 8 ?h3 bs] by (simp add: mem_simps)
  have s4: "st_field struct_ssl_event ''data_len'' ?h4 (e, 0) (?w ?o3) = Some (?w ?o4)"
    using e(2) st [of "''data_len''" _ _ _ ?h4 ?o3] splice_append [of "?h1 @ ?h2 @ ?h3" 12 ?h4 bs]
    by (simp add: mem_simps)
  have s5: "st_field struct_ssl_event ''direction'' ?h5 (e, 0) (?w ?o4) = Some (?w ?o5)"
    using e(2) st [of "''direction''" _ _ CU8 ?h5 ?o4] splice_append [of "?h1 @ ?h2 @ ?h3 @ ?h4" 16 ?h5 bs]
    by (simp add: mem_simps)
  have "drop 24 bs = drop 7 (drop 17 bs)" by simp
  then have gap: "drop 17 bs = slice_at 17 7 bs @ drop 24 bs"
    by (simp only: slice_at_def append_take_drop_id)
  have s6: "st_field struct_ssl_event ''timestamp_ns'' (le_put ts) (e, 0) (?w ?o5) = Some (?w ?o6)"
    using e(2) st [of "''timestamp_ns''" _ _ _ "le_put ts" ?o5]
      splice_append [of "?h1 @ ?h2 @ ?h3 @ ?h4 @ ?h5 @ slice_at 17 7 bs" 24 "le_put ts" bs]
    by (simp add: mem_simps ssl_event_of_def gap)
  have "ld_field struct_ssl_args ''fd'' (a, 0) (?w xs) = Some (unat (args_fd as))"
      "ld_field struct_ssl_args ''buf_ptr'' (a, 0) (?w xs) = Some (unat (args_buf as))" for xs
    using a ne ld_field_object [of "?w xs" a as] by (simp_all add: mem_simps args_fd_def args_buf_def unat_le_get)
  then show ?thesis
    using s1 s2 s3 s4 s5 s6
    by (intro exI [of _ ts])
      (simp add: ssl_fill_def offsetof_def padd_def mem_simps and_4095 MAX_DATA_LEN_def flip: ts_def)
qed

locale ssl_kernel = bpf_kernel h ssl_map_def inv vblk reserved out umem
  for h :: "(ssl_map, 'k) bpf_helpers" and inv and vblk and reserved and out and umem
begin

lemma should_trace_ok:
  assumes "inv s" and "mval vblk Target_pid (le_put (0 :: u32)) s = Some v"
  shows "should_trace h s
    = Some ((le_get v :: u32) = 0 \<or> pid_of (get_current_pid_tgid h s) = le_get v)"
proof -
  obtain b where b: "vblk Target_pid (le_put (0 :: u32)) (kern s) = Some b" "heap s b = Some v"
    using assms(2) by (auto simp: mval_def bind_eq_Some_conv)
  moreover have "length v = 4" using value_live [OF assms(1) b(1)] b(2) by auto
  ultimately show ?thesis
    using lookup [OF assms(1)]
    by (simp add: should_trace_def mload_def slice_at_def Let_def)
qed

lemma target_present:
  assumes "inv s"
  obtains v where "mval vblk Target_pid (le_put (0 :: u32)) s = Some v"
proof -
  obtain b where b: "vblk Target_pid (le_put (0 :: u32)) (kern s) = Some b"
    using array_present [OF assms, of Target_pid "le_put (0 :: u32)"]
    by (auto simp: is_array_def le_val_le_put)
  with value_live [OF assms b] that show thesis by (auto simp: mval_def)
qed

lemma ssl_bump:
  assumes "inv s" and "key \<in> {STATS_CAPTURED, SSL_STATS_DROPPED}"
  shows "\<exists>s'. bump_counter h Ssl_stats key s = Some s' \<and> inv s' \<and> kern s' = kern s
    \<and> same_maps vblk s s'
    \<and> counter_of vblk Ssl_stats key s' = map_option (\<lambda>c. c + 1) (counter_of vblk Ssl_stats key s)
    \<and> (\<forall>key'. key' \<noteq> key \<longrightarrow> counter_of vblk Ssl_stats key' s' = counter_of vblk Ssl_stats key' s)"
proof -
  have "unat key < max_entries (ssl_map_def Ssl_stats)"
    using assms(2) by (auto simp: STATS_CAPTURED_def SSL_STATS_DROPPED_def)
  then show ?thesis
    using bump_ok [OF assms(1), of Ssl_stats key]
    by (fastforce simp: is_array_def counter_of_def le_put_inj same_maps_def)
qed

lemma copy_ok:
  assumes inv: "inv s" and e: "heap s e = Some bs" "length bs = 4128"
    and w: "w = s\<lparr>heap := (heap s)(e \<mapsto> ssl_event_of pt fd len dir ts [] bs)\<rparr>"
    and pr: "probe_read_user h (e, 32) (unat len mod 4096) buf w = (r, s')"
  shows "inv s'" and "s' = s\<lparr>heap := (heap s)(e \<mapsto>
    ssl_event_of pt fd len dir ts (plaintext umem (kern s) buf len) bs)\<rparr>"
proof -
  let ?n = "unat len mod 4096" and ?o = "ssl_event_of pt fd len dir ts [] bs"
  have lo: "length ?o = 4128" using e(2) by (simp add: ssl_event_of_def)
  have n: "?n < 4096" by simp
  have "mstore (e, 0) ?o s = Some w"
    using e lo by (simp add: mstore_def splice_at_def w)
  then have invw: "inv w" using store_keeps inv by blast
  have st: "mstore (e, 32) xs w = Some (s\<lparr>heap := (heap s)(e \<mapsto> ssl_event_of pt fd len dir ts xs bs)\<rparr>)"
    if "length xs = ?n" for xs
  proof -
    have "splice_at 32 xs ?o = ssl_event_of pt fd len dir ts xs bs"
      using that e(2) splice_append [of "take 32 ?o" 32 xs bs]
      by (simp add: ssl_event_of_def splice_at_def add.commute)
    then show ?thesis using that n lo by (simp add: mstore_def w)
  qed
  have p: "length (plaintext umem (kern s) buf len) = ?n"
      "mstore (e, 32) (plaintext umem (kern s) buf len) w = Some s'"
    using read_user [OF invw st [of "replicate ?n 0"] pr] st [of "replicate ?n 0"]
    by (auto simp: plaintext_def w split: option.splits)
  show "inv s'" using store_keeps [OF invw p(2)] .
  show "s' = s\<lparr>heap := (heap s)(e \<mapsto>
      ssl_event_of pt fd len dir ts (plaintext umem (kern s) buf len) bs)\<rparr>"
    using st [OF p(1)] p(2) by simp
qed

lemma emit_full:
  assumes inv: "inv s" and rs: "ringbuf_reserve h Ssl_events (sizeof struct_ssl_event) s = (None, s1)"
  shows "\<exists>s'. ssl_emit h dir pt len args s = Some (0, s') \<and> inv s' \<and> same_maps vblk s s'
    \<and> ssl_outcome vblk out umem dir pt len as s s'"
proof -
  have "s1 = s" using reserve_null [OF inv rs] .
  moreover have "STATS_CAPTURED \<noteq> SSL_STATS_DROPPED"
    by (simp add: STATS_CAPTURED_def SSL_STATS_DROPPED_def)
  ultimately show ?thesis
    using ssl_bump [OF inv, of SSL_STATS_DROPPED] rs
    by (fastforce simp: ssl_emit_def ssl_outcome_def Let_def)
qed

lemma emit_event:
  assumes inv: "inv s" and a: "heap s a = Some as" "length as = 16"
    and rs: "ringbuf_reserve h Ssl_events (sizeof struct_ssl_event) s = (Some p, s1)"
  shows "\<exists>s'. ssl_emit h dir pt len (a, 0) s = Some (0, s') \<and> inv s' \<and> same_maps vblk s s'
    \<and> ssl_outcome vblk out umem dir pt len as s s'"
proof -
  obtain e bs where e: "p = (e, 0)" "heap s e = None" "length bs = 4128" "heap s1 = (heap s)(e \<mapsto> bs)"
      "e \<in> reserved Ssl_events (kern s1)" and k1: "inv s1" "umem (kern s1) = umem (kern s)"
      "out Ssl_events (kern s1) = out Ssl_events (kern s)"
      "\<And>m key. vblk m key (kern s1) = vblk m key (kern s)"
    using reserve_record [OF inv rs] by (auto simp: layout_simps)
  have he: "heap s1 e = Some bs" "heap s1 a = Some as" "a \<noteq> e" using e(2,4) a by auto
  obtain ts where run: "ssl_fill h dir pt len (a, 0) (e, 0) s1 = Some (snd (probe_read_user h (e, 32)
      (unat len mod 4096) (args_buf as) (s1\<lparr>heap := (heap s1)(e \<mapsto>
        ssl_event_of pt (args_fd as) len dir ts [] bs)\<rparr>)))"
    using ssl_fill_run [OF he(1) e(3) he(2) a(2) he(3)] by blast
  obtain r s3 where pr: "probe_read_user h (e, 32) (unat len mod 4096) (args_buf as)
      (s1\<lparr>heap := (heap s1)(e \<mapsto> ssl_event_of pt (args_fd as) len dir ts [] bs)\<rparr>) = (r, s3)"
    by (meson surj_pair)
  let ?ev = "ssl_event_of pt (args_fd as) len dir ts (plaintext umem (kern s) (args_buf as) len) bs"
  have s3: "inv s3" "s3 = s1\<lparr>heap := (heap s1)(e \<mapsto> ?ev)\<rparr>"
    using copy_ok [OF k1(1) he(1) e(3) refl pr] k1(2) by (auto simp: plaintext_def)
  define s4 where "s4 = ringbuf_submit h (e, 0) s3"
  have s4: "inv s4" "heap s4 = heap s" "out Ssl_events (kern s4) = out Ssl_events (kern s) @ [?ev]"
      "\<And>m key. mval vblk m key s4 = mval vblk m key s"
    using submit [OF s3(1), of e Ssl_events ?ev s4] e k1 s3(2) s4_def
    by (auto simp: mval_def fun_upd_idem)
  obtain s' where s': "bump_counter h Ssl_stats STATS_CAPTURED s4 = Some s'" "inv s'" "kern s' = kern s4"
      "same_maps vblk s4 s'"
      "counter_of vblk Ssl_stats STATS_CAPTURED s'
         = map_option (\<lambda>c. c + 1) (counter_of vblk Ssl_stats STATS_CAPTURED s4)"
      "counter_of vblk Ssl_stats SSL_STATS_DROPPED s' = counter_of vblk Ssl_stats SSL_STATS_DROPPED s4"
    using ssl_bump [OF s4(1), of STATS_CAPTURED]
    by (auto simp: STATS_CAPTURED_def SSL_STATS_DROPPED_def)
  have "ssl_emit h dir pt len (a, 0) s = Some (0, s')"
    using rs e(1) run pr s'(1) by (simp add: ssl_emit_def s4_def)
  moreover have "ssl_outcome vblk out umem dir pt len as s s'"
    unfolding ssl_outcome_def Let_def using s' s4 e(3) by (auto simp: counter_of_def)
  moreover have "same_maps vblk s s'" using s'(4) s4(4) by (simp add: same_maps_def)
  ultimately show ?thesis using s'(2) by blast
qed

lemma emit_ok:
  assumes "inv s" and "heap s a = Some as" and "length as = 16"
  shows "\<exists>s'. ssl_emit h dir pt len (a, 0) s = Some (0, s') \<and> inv s' \<and> same_maps vblk s s'
    \<and> ssl_outcome vblk out umem dir pt len as s s'"
proof (cases "ringbuf_reserve h Ssl_events (sizeof struct_ssl_event) s")
  case (Pair r s1)
  with assms show ?thesis
    using emit_full [of s s1] emit_event [of s a as _ s1] by (cases r) auto
qed

end

end
