(* ===== verification/Ssl_Correct.thy ===== *)
theory Ssl_Correct
  imports Ssl_Program
begin

text \<open>
  What the four SSL probes do, over any kernel that meets the helper contract: a single run of
  each, and the pairing of an entry probe with its return probe while other threads run. The
  return probes read the saved arguments after deleting them from the map. The contract only
  promises that the memory stays readable; that its contents survive is the extra law of
  \<open>ssl_stable_kernel\<close>, which a preallocated hash map gives as long as no other processor
  reuses the element in between.
\<close>

section \<open>One probe\<close>

definition traced ::
  "(ssl_map \<Rightarrow> bytes \<Rightarrow> 'k \<Rightarrow> block option) \<Rightarrow> (ssl_map, 'k) bpf_helpers \<Rightarrow> 'k machine \<Rightarrow> bool" where
  "traced vblk h s = (case mval vblk Target_pid (le_put (0 :: u32)) s of
       None \<Rightarrow> True
     | Some v \<Rightarrow> (le_get v :: u32) = 0 \<or> pid_of (get_current_pid_tgid h s) = le_get v)"

definition args_map :: "ssl_map \<Rightarrow> bool" where
  "args_map m \<longleftrightarrow> m \<in> {Ssl_read_args, Ssl_write_args}"

lemma args_map_facts:
  assumes "args_map m"
  shows "\<not> is_array (ssl_map_def m)" and "key_size (ssl_map_def m) = 8"
    and "value_size (ssl_map_def m) = 16" and "max_entries (ssl_map_def m) = MAX_ENTRIES"
    and "m \<noteq> Ssl_stats" and "m \<noteq> Target_pid"
  using assms by (auto simp: args_map_def is_array_def layout_simps)

lemma length_ssl_args_of [simp]: "length (ssl_args_of buf fd) = 16"
  by (simp add: ssl_args_of_def)

lemma args_of_parts [simp]: "args_buf (ssl_args_of buf fd) = buf" "args_fd (ssl_args_of buf fd) = fd"
  by (simp_all add: args_buf_def args_fd_def ssl_args_of_def slice_at_def le_get_put)

text \<open>All maps but the counters agree, except that the entry \<open>key\<close> of \<open>m\<close> is \<open>v\<close> afterwards.\<close>

definition maps_upd ::
  "(ssl_map \<Rightarrow> bytes \<Rightarrow> 'k \<Rightarrow> block option) \<Rightarrow> ssl_map \<Rightarrow> bytes \<Rightarrow> bytes option
     \<Rightarrow> 'k machine \<Rightarrow> 'k machine \<Rightarrow> bool" where
  "maps_upd vblk m key v s s' \<longleftrightarrow> (\<forall>m' key'. m' \<noteq> Ssl_stats \<longrightarrow>
     mval vblk m' key' s' = (if m' = m \<and> key' = key then v else mval vblk m' key' s))"

lemma ssl_outcome_cong:
  assumes "umem (kern s1) = umem (kern s)" and "out Ssl_events (kern s1) = out Ssl_events (kern s)"
    and "\<And>key. mval vblk Ssl_stats key s1 = mval vblk Ssl_stats key s"
  shows "ssl_outcome vblk out umem dir pt len as s1 s' = ssl_outcome vblk out umem dir pt len as s s'"
  by (simp add: ssl_outcome_def counter_of_def plaintext_def assms)

context ssl_kernel
begin

lemma traced_ok:
  assumes "inv s"
  shows "should_trace h s = Some (traced vblk h s)"
proof -
  obtain v where "mval vblk Target_pid (le_put (0 :: u32)) s = Some v"
    using target_present [OF assms] .
  then show ?thesis by (simp add: should_trace_ok [OF assms] traced_def)
qed

lemma enter_untraced: "inv s \<Longrightarrow> \<not> traced vblk h s \<Longrightarrow> ssl_enter h m ctx s = Some (0, s)"
  by (simp add: ssl_enter_def traced_ok)

lemma enter_traced:
  assumes inv: "inv s" and tr: "traced vblk h s" and m: "args_map m"
    and key: "key = le_put (get_current_pid_tgid h s)"
  shows "\<exists>s'. ssl_enter h m ctx s = Some (0, s') \<and> inv s'
    \<and> umem (kern s') = umem (kern s) \<and> out Ssl_events (kern s') = out Ssl_events (kern s)
    \<and> (\<forall>k. mval vblk Ssl_stats k s' = mval vblk Ssl_stats k s)
    \<and> (maps_upd vblk m key (Some (ssl_args_of (PT_REGS_PARM2 ctx) 0)) s s'
       \<or> s' = s \<and> mval vblk m key s = None
         \<and> MAX_ENTRIES \<le> card {k. vblk m k (kern s) \<noteq> None})"
proof -
  obtain r s' where u: "map_update_elem h m key (ssl_args_of (PT_REGS_PARM2 ctx) 0) 0 s = (r, s')"
    by (meson surj_pair)
  have "ssl_enter h m ctx s = Some (0, s')"
    using u by (simp add: ssl_enter_def traced_ok [OF inv] tr key Let_def)
  moreover note update [OF inv args_map_facts(1) [OF m] _ _ u] args_map_facts [OF m]
  ultimately show ?thesis
    using inv by (auto simp: key maps_upd_def mval_def)
qed

lemma exit_idle:
  assumes "inv s" and "\<not> traced vblk h s \<or> mval vblk m (le_put (get_current_pid_tgid h s)) s = None"
  shows "ssl_exit h m dir ctx s = Some (0, s)"
proof -
  have "vblk m (le_put (get_current_pid_tgid h s)) (kern s) = None" if "traced vblk h s"
    using assms that value_live [OF assms(1), of m]
    by (cases "vblk m (le_put (get_current_pid_tgid h s)) (kern s)") (fastforce simp: mval_def)+
  then show ?thesis
    using assms(1) by (auto simp: ssl_exit_def traced_ok lookup)
qed

lemma exit_saved:
  assumes inv: "inv s" and tr: "traced vblk h s" and m: "args_map m"
    and key: "key = le_put (get_current_pid_tgid h s)"
    and b: "vblk m key (kern s) = Some b" and d: "map_delete_elem h m key s = (r, s1)"
  shows "\<exists>s' as. heap s1 b = Some as \<and> length as = 16
    \<and> ssl_exit h m dir ctx s = Some (0, s') \<and> inv s' \<and> maps_upd vblk m key None s s'
    \<and> (if sint (ucast (PT_REGS_RC ctx) :: u32) \<le> 0
       then out Ssl_events (kern s') = out Ssl_events (kern s)
         \<and> (\<forall>k. mval vblk Ssl_stats k s' = mval vblk Ssl_stats k s)
       else ssl_outcome vblk out umem dir (get_current_pid_tgid h s)
              (clamp_len (ucast (PT_REGS_RC ctx))) as s s')"
proof -
  note mf = args_map_facts [OF m]
  note del = delete [OF inv mf(1) b d]
  obtain as where as: "heap s1 b = Some as" "length as = 16" using del mf(3) by auto
  have s1: "inv s1" "umem (kern s1) = umem (kern s)" "out Ssl_events (kern s1) = out Ssl_events (kern s)"
      "\<And>k. mval vblk Ssl_stats k s1 = mval vblk Ssl_stats k s" "maps_upd vblk m key None s s1"
    using del mf(5) by (auto simp: maps_upd_def)
  let ?ret = "ucast (PT_REGS_RC ctx) :: u32"
  have run: "ssl_exit h m dir ctx s = (if sint ?ret \<le> 0 then Some (0, s1)
      else ssl_emit h dir (get_current_pid_tgid h s) (clamp_len ?ret) (b, 0) s1)"
    using b d inv tr by (simp add: ssl_exit_def traced_ok lookup key clamp_len_def Let_def)
  show ?thesis
  proof (cases "sint ?ret \<le> 0")
    case True
    with as s1 run show ?thesis by auto
  next
    case False
    obtain s' where s': "ssl_emit h dir (get_current_pid_tgid h s) (clamp_len ?ret) (b, 0) s1 = Some (0, s')"
        "inv s'" "same_maps vblk s1 s'"
        "ssl_outcome vblk out umem dir (get_current_pid_tgid h s) (clamp_len ?ret) as s1 s'"
      using emit_ok [OF s1(1) as] by blast
    moreover have "maps_upd vblk m key None s s'"
      using s'(3) s1(5) by (auto simp: maps_upd_def same_maps_def)
    ultimately show ?thesis
      using as run False ssl_outcome_cong [of umem s1 s out vblk] s1(2-4) by auto
  qed
qed

text \<open>A run of either probe by another thread leaves this thread's entry alone.\<close>

lemma enter_any:
  assumes "inv s" and "args_map m"
  shows "\<exists>s'. ssl_enter h m ctx s = Some (0, s') \<and> inv s'
    \<and> (\<forall>m' key'. m' \<noteq> Ssl_stats \<longrightarrow> (m', key') \<noteq> (m, le_put (get_current_pid_tgid h s)) \<longrightarrow>
          mval vblk m' key' s' = mval vblk m' key' s)"
proof (cases "traced vblk h s")
  case True
  with enter_traced [OF assms(1) True assms(2) refl, of ctx] show ?thesis
    by (auto simp: maps_upd_def)
next
  case False
  with assms(1) enter_untraced show ?thesis by auto
qed

lemma exit_any:
  assumes "inv s" and "args_map m"
  shows "\<exists>s'. ssl_exit h m dir ctx s = Some (0, s') \<and> inv s'
    \<and> (\<forall>m' key'. m' \<noteq> Ssl_stats \<longrightarrow> (m', key') \<noteq> (m, le_put (get_current_pid_tgid h s)) \<longrightarrow>
          mval vblk m' key' s' = mval vblk m' key' s)"
proof (cases "traced vblk h s \<and> mval vblk m (le_put (get_current_pid_tgid h s)) s \<noteq> None")
  case True
  then obtain b where b: "vblk m (le_put (get_current_pid_tgid h s)) (kern s) = Some b"
    by (auto simp: mval_def bind_eq_Some_conv)
  obtain r s1 where d: "map_delete_elem h m (le_put (get_current_pid_tgid h s)) s = (r, s1)"
    by (meson surj_pair)
  show ?thesis
    using exit_saved [OF assms(1) _ assms(2) refl b d, of dir ctx] True
    by (auto simp: maps_upd_def)
next
  case False
  with assms(1) exit_idle [of s m dir ctx] show ?thesis by auto
qed

end

section \<open>Entry and return, with other threads in between\<close>

text \<open>
  What may happen to the machine between two probes of thread \<open>pt\<close>: the kernel schedules and
  userspace consumes the ring, neither of which touches the maps, and other threads run the
  entry and return probes.
\<close>

inductive ssl_other ::
  "(ssl_map, 'k) bpf_helpers \<Rightarrow> ('k machine \<Rightarrow> bool) \<Rightarrow> (ssl_map \<Rightarrow> bytes \<Rightarrow> 'k \<Rightarrow> block option)
     \<Rightarrow> u64 \<Rightarrow> 'k machine \<Rightarrow> 'k machine \<Rightarrow> bool"
  for h kinv vblk pt where
  schedule: "kinv s' \<Longrightarrow> (\<And>m key. mval vblk m key s' = mval vblk m key s) \<Longrightarrow>
     ssl_other h kinv vblk pt s s'"
| enters: "get_current_pid_tgid h s \<noteq> pt \<Longrightarrow> args_map m \<Longrightarrow> ssl_enter h m ctx s = Some (r, s') \<Longrightarrow>
     ssl_other h kinv vblk pt s s'"
| exits: "get_current_pid_tgid h s \<noteq> pt \<Longrightarrow> args_map m \<Longrightarrow> ssl_exit h m dir ctx s = Some (r, s') \<Longrightarrow>
     ssl_other h kinv vblk pt s s'"

inductive_cases ssl_other_cases: "ssl_other h kinv vblk pt s s'"

locale ssl_stable_kernel = ssl_kernel +
  assumes delete_stable: "inv s \<Longrightarrow> vblk m key (kern s) = Some b \<Longrightarrow>
    map_delete_elem h m key s = (r, s') \<Longrightarrow> heap s' b = heap s b"
begin

lemma other_step:
  assumes "ssl_other h inv vblk pt s s'" and "inv s"
  shows "inv s' \<and> (\<forall>m. m \<noteq> Ssl_stats \<longrightarrow> mval vblk m (le_put pt) s' = mval vblk m (le_put pt) s)
    \<and> (\<forall>key. mval vblk Target_pid key s' = mval vblk Target_pid key s)"
  using assms(1)
proof cases
  case schedule
  then show ?thesis by simp
next
  case (enters m ctx r)
  with enter_any [OF assms(2) enters(2), of ctx] args_map_facts(6) [OF enters(2)] show ?thesis
    by (auto simp: le_put_inj)
next
  case (exits m dir ctx r)
  with exit_any [OF assms(2) exits(2), of dir ctx] args_map_facts(6) [OF exits(2)] show ?thesis
    by (auto simp: le_put_inj)
qed

lemma other_steps:
  assumes "(ssl_other h inv vblk pt)\<^sup>*\<^sup>* s s'" and "inv s"
  shows "inv s' \<and> (\<forall>m. m \<noteq> Ssl_stats \<longrightarrow> mval vblk m (le_put pt) s' = mval vblk m (le_put pt) s)
    \<and> (\<forall>key. mval vblk Target_pid key s' = mval vblk Target_pid key s)"
  using assms
proof induction
  case base
  then show ?case by simp
next
  case (step t u)
  then show ?case using other_step [OF step.hyps(2)] by simp
qed

lemma exit_event:
  assumes inv: "inv s" and tr: "traced vblk h s" and m: "args_map m"
    and sv: "mval vblk m (le_put (get_current_pid_tgid h s)) s = Some as"
    and ret: "0 < sint (ucast (PT_REGS_RC ctx) :: u32)"
  shows "\<exists>s'. ssl_exit h m dir ctx s = Some (0, s') \<and> inv s'
    \<and> maps_upd vblk m (le_put (get_current_pid_tgid h s)) None s s'
    \<and> ssl_outcome vblk out umem dir (get_current_pid_tgid h s)
        (clamp_len (ucast (PT_REGS_RC ctx))) as s s'"
proof -
  obtain b where b: "vblk m (le_put (get_current_pid_tgid h s)) (kern s) = Some b" "heap s b = Some as"
    using sv by (auto simp: mval_def bind_eq_Some_conv)
  obtain r s1 where d: "map_delete_elem h m (le_put (get_current_pid_tgid h s)) s = (r, s1)"
    by (meson surj_pair)
  have "heap s1 b = Some as" using delete_stable [OF inv b(1) d] b(2) by simp
  with exit_saved [OF inv tr m refl b(1) d, of dir ctx] ret show ?thesis by auto
qed

lemma pairing:
  assumes inv: "inv s" and tr: "traced vblk h s" and m: "args_map m"
    and pt: "get_current_pid_tgid h s = pt" "get_current_pid_tgid h s2 = pt"
    and enter: "ssl_enter h m ctx s = Some (r, s1)"
    and others: "(ssl_other h inv vblk pt)\<^sup>*\<^sup>* s1 s2"
    and ret: "0 < sint (ucast (PT_REGS_RC ctx') :: u32)"
  shows "(\<exists>s3. ssl_exit h m dir ctx' s2 = Some (0, s3) \<and> mval vblk m (le_put pt) s3 = None
      \<and> ssl_outcome vblk out umem dir pt (clamp_len (ucast (PT_REGS_RC ctx')))
          (ssl_args_of (PT_REGS_PARM2 ctx) 0) s2 s3)
    \<or> ssl_exit h m dir ctx' s2 = Some (0, s2)
      \<and> MAX_ENTRIES \<le> card {k. vblk m k (kern s) \<noteq> None}"
proof -
  note mf = args_map_facts [OF m]
  have e: "inv s1" "maps_upd vblk m (le_put pt) (Some (ssl_args_of (PT_REGS_PARM2 ctx) 0)) s s1
      \<or> s1 = s \<and> mval vblk m (le_put pt) s = None \<and> MAX_ENTRIES \<le> card {k. vblk m k (kern s) \<noteq> None}"
    using enter_traced [OF inv tr m refl, of ctx] enter pt(1) by auto
  have o2: "inv s2" "mval vblk m (le_put pt) s2 = mval vblk m (le_put pt) s1"
      "mval vblk Target_pid (le_put (0 :: u32)) s2 = mval vblk Target_pid (le_put (0 :: u32)) s1"
    using other_steps [OF others e(1)] mf(5) by auto
  have "mval vblk Target_pid (le_put (0 :: u32)) s1 = mval vblk Target_pid (le_put (0 :: u32)) s"
    using e(2) mf(6) by (auto simp: maps_upd_def)
  then have tr2: "traced vblk h s2" using tr o2(3) pt by (simp add: traced_def split: option.splits)
  from e(2) show ?thesis
  proof
    assume "maps_upd vblk m (le_put pt) (Some (ssl_args_of (PT_REGS_PARM2 ctx) 0)) s s1"
    then have "mval vblk m (le_put pt) s2 = Some (ssl_args_of (PT_REGS_PARM2 ctx) 0)"
      using o2(2) mf(5) by (simp add: maps_upd_def)
    with exit_event [OF o2(1) tr2 m _ ret] pt(2) mf(5) show ?thesis
      by (fastforce simp: maps_upd_def)
  next
    assume "s1 = s \<and> mval vblk m (le_put pt) s = None \<and> MAX_ENTRIES \<le> card {k. vblk m k (kern s) \<noteq> None}"
    with exit_idle [OF o2(1), of m dir ctx'] o2(2) pt(2) show ?thesis by auto
  qed
qed

end

section \<open>The reference kernel, booted with the programs' maps\<close>

interpretation ssl_rk: ssl_stable_kernel "rk_helpers ssl_map_def" "rk_inv ssl_map_def"
  rk_vblk rk_reserved rk_outs rk_umem
proof (intro ssl_stable_kernel.intro ssl_kernel.intro rk.bpf_kernel_axioms
    ssl_stable_kernel_axioms.intro)
  show "heap s' b = heap s b" if "map_delete_elem (rk_helpers ssl_map_def) m key s = (r, s')"
    for s s' :: "ssl_map rkern machine" and m key b r
    using that by (auto simp: rk_helpers_def rk_delete_def split: if_splits)
qed

definition ssl_boot_vals :: "ssl_map \<Rightarrow> (bytes \<times> block) list" where
  "ssl_boot_vals m = (case m of
       Ssl_stats \<Rightarrow> [(le_put STATS_CAPTURED, 0), (le_put SSL_STATS_DROPPED, 1)]
     | Target_pid \<Rightarrow> [(le_put (0 :: u32), 2)]
     | _ \<Rightarrow> [])"

definition ssl_boot ::
  "u32 \<Rightarrow> nat \<Rightarrow> byte \<Rightarrow> (u64 \<Rightarrow> byte option) \<Rightarrow> u64 \<Rightarrow> u64 \<Rightarrow> ssl_map rkern machine" where
  "ssl_boot filter_pid room stale user pt time =
     \<lparr>heap = [0 \<mapsto> le_put (0 :: u64), 1 \<mapsto> le_put (0 :: u64), 2 \<mapsto> le_put filter_pid],
      kern = \<lparr>rk_vals = ssl_boot_vals, rk_next = 3, rk_ring = Map.empty, rk_out = (\<lambda>_. []),
        rk_room = (\<lambda>_. room), rk_stale = stale, rk_user = user, rk_pid_tgid = pt, rk_time = time\<rparr>\<rparr>"

lemma ssl_boot_vblk:
  "rk_vblk m key (kern (ssl_boot fp room stale user pt time)) =
     (if m = Ssl_stats \<and> key = le_put STATS_CAPTURED then Some 0
      else if m = Ssl_stats \<and> key = le_put SSL_STATS_DROPPED then Some 1
      else if m = Target_pid \<and> key = le_put (0 :: u32) then Some 2 else None)"
  by (cases m) (auto simp: rk_vblk_def ssl_boot_def ssl_boot_vals_def)

lemma ssl_boot_inv: "rk_inv ssl_map_def (ssl_boot fp room stale user pt time)"
  unfolding rk_inv_def
proof (intro conjI)
  let ?s = "ssl_boot fp room stale user pt time"
  have ne: "le_put STATS_CAPTURED \<noteq> le_put SSL_STATS_DROPPED"
    by (simp add: le_put_inj STATS_CAPTURED_def SSL_STATS_DROPPED_def)
  show "rk_fresh ?s" by (simp add: rk_fresh_def ssl_boot_def)
  show "rk_keys ?s"
    using ne by (auto simp: rk_keys_def ssl_boot_def ssl_boot_vals_def split: ssl_map.split)
  show "rk_live ssl_map_def ?s"
    by (auto simp: rk_live_def ssl_boot_vblk) (auto simp: ssl_boot_def)
  show "rk_apart ?s" using ne by (auto simp: rk_apart_def ssl_boot_vblk)
  show "rk_arrays ssl_map_def ?s"
    unfolding rk_arrays_def
  proof (intro allI impI)
    fix m key
    assume "is_array (ssl_map_def m)" "length key = key_size (ssl_map_def m)"
      "le_val key < max_entries (ssl_map_def m)"
    then show "rk_vblk m key (kern ?s) \<noteq> None"
      using array_key_single [of key] array_key_cases [of key]
      by (cases m) (auto simp: ssl_boot_vblk STATS_CAPTURED_def SSL_STATS_DROPPED_def is_array_def)
  qed
qed

section \<open>Properties\<close>

text \<open>
  C4: The four probes are safe. Over any kernel that meets the helper contract each probe runs
  to the end without a memory fault, including the reads of the saved arguments after their
  deletion, returns 0 and keeps the kernel's invariant. A process other than the configured one
  is left alone entirely, and no probe touches what another thread has saved.
\<close>

theorem ssl_probes_safe:
  assumes "ssl_kernel h kinv vblk reserved out umem" and "kinv s"
    and "probe \<in> {uprobe_ssl_read_enter h, uretprobe_ssl_read_exit h,
                    uprobe_ssl_write_enter h, uretprobe_ssl_write_exit h}"
  shows "\<exists>s'. probe ctx s = Some (0, s') \<and> kinv s' \<and> (\<not> traced vblk h s \<longrightarrow> s' = s)
    \<and> (\<forall>m key. m \<noteq> Ssl_stats \<longrightarrow> key \<noteq> le_put (get_current_pid_tgid h s) \<longrightarrow>
          mval vblk m key s' = mval vblk m key s)"
proof -
  note K = assms(1)
  have m: "args_map Ssl_read_args" "args_map Ssl_write_args" by (simp_all add: args_map_def)
  have e: "\<exists>s'. ssl_enter h m ctx s = Some (0, s') \<and> kinv s' \<and> (\<not> traced vblk h s \<longrightarrow> s' = s)
      \<and> (\<forall>m key. m \<noteq> Ssl_stats \<longrightarrow> key \<noteq> le_put (get_current_pid_tgid h s) \<longrightarrow>
            mval vblk m key s' = mval vblk m key s)" if "args_map m" for m
    using ssl_kernel.enter_any [OF K assms(2) that, of ctx]
      ssl_kernel.enter_untraced [OF K assms(2), of m ctx] by fastforce
  have x: "\<exists>s'. ssl_exit h m dir ctx s = Some (0, s') \<and> kinv s' \<and> (\<not> traced vblk h s \<longrightarrow> s' = s)
      \<and> (\<forall>m key. m \<noteq> Ssl_stats \<longrightarrow> key \<noteq> le_put (get_current_pid_tgid h s) \<longrightarrow>
            mval vblk m key s' = mval vblk m key s)" if "args_map m" for m dir
    using ssl_kernel.exit_any [OF K assms(2) that, of dir ctx]
      ssl_kernel.exit_idle [OF K assms(2), of m dir ctx] by fastforce
  show ?thesis
    using assms(3) e x m
    by (auto simp: uprobe_ssl_read_enter_def [abs_def] uretprobe_ssl_read_exit_def [abs_def]
        uprobe_ssl_write_enter_def [abs_def] uretprobe_ssl_write_exit_def [abs_def])
qed

theorem ssl_probes_safe_witness:
  "\<exists>s'. uretprobe_ssl_read_exit (rk_helpers ssl_map_def) \<lparr>PT_REGS_PARM2 = 0x1000, PT_REGS_RC = 5\<rparr>
      (ssl_boot 7 5000 0xAA Map.empty 0x900000009 1) = Some (0, s')
    \<and> rk_inv ssl_map_def s'"
  using ssl_probes_safe [OF ssl_rk.ssl_kernel_axioms ssl_boot_inv,
      of "uretprobe_ssl_read_exit (rk_helpers ssl_map_def)"]
  by blast


lemma ssl_boot_traced:
  "traced rk_vblk (rk_helpers ssl_map_def) (ssl_boot 0 room stale user pt time)"
  by (simp add: traced_def mval_def ssl_boot_vblk)
    (simp add: ssl_boot_def le_get_put)

lemma rk_enter_current:
  "ssl_enter (rk_helpers ssl_map_def) m ctx s = Some (r, s') \<Longrightarrow> rk_pid_tgid (kern s') = rk_pid_tgid (kern s)"
  by (auto simp: ssl_enter_def rk_helpers_def rk_update_def Let_def bind_eq_Some_conv split: if_splits)


end
