(* ===== verification/Ebpf_Source.thy ===== *)
theory Ebpf_Source
  imports Xdp_Program Ssl_Program
begin

text \<open>
  The userspace ends of the two eBPF sources, \<^verbatim>\<open>src/pkg/capture/source_ebpf.go\<close> and
  \<^verbatim>\<open>src/pkg/capture/source_ebpf_ssl.go\<close>: the port written into the configuration map, the ring
  reader loops, the record decoders, the synthetic sequence numbers and addresses. The
  \<^verbatim>\<open>gopacket\<close> constructors are not part of the repository and are parameters, \<open>newPacket\<close> for the
  decoder and \<open>serialize\<close> for the synthetic packet.
\<close>

section \<open>The packet channel\<close>

text \<open>
  Both loops send without blocking into a channel of 4096 packets and count what they receive
  and what does not fit.
\<close>

record 'p source =
  packets :: "'p list"
  received :: u64
  dropped :: u64

definition packetsCap :: nat where "packetsCap = 4096"

definition trySend :: "'p \<Rightarrow> 'p source \<Rightarrow> 'p source" where
  "trySend pkt s = (if length (packets s) < packetsCap
     then s\<lparr>packets := packets s @ [pkt]\<rparr> else s\<lparr>dropped := dropped s + 1\<rparr>)"

section \<open>The XDP source\<close>

definition hostToNet16 :: "u16 \<Rightarrow> u16" where
  "hostToNet16 v = le_get (be_put v)"

definition pktRecordHeaderSize :: nat where "pktRecordHeaderSize = 8"
definition fixedSnapLen :: u32 where "fixedSnapLen = 4096"

text \<open>The slice of the record handed to the decoder; \<open>None\<close> where the loop continues.\<close>

definition pktData :: "bytes \<Rightarrow> bytes option" where
  "pktData raw =
     (if length raw < pktRecordHeaderSize + 1 then None
      else let capLen = (le_get (slice_at 4 4 raw) :: u32);
               dataStart = pktRecordHeaderSize;
               capLen = (if fixedSnapLen < capLen then fixedSnapLen else capLen) in
        if (of_nat (length raw - dataStart) :: u32) < capLen then None
        else Some (slice_at dataStart (unat capLen) raw))"

definition xdp_read :: "(bytes \<Rightarrow> 'p) \<Rightarrow> bytes \<Rightarrow> 'p source \<Rightarrow> 'p source" where
  "xdp_read newPacket raw s = (case pktData raw of
       None \<Rightarrow> s
     | Some d \<Rightarrow> trySend (newPacket d) (s\<lparr>received := received s + 1\<rparr>))"

text \<open>The loop over the records the ring reader returns before it is closed.\<close>

fun xdp_readLoop :: "(bytes \<Rightarrow> 'p) \<Rightarrow> bytes list \<Rightarrow> 'p source \<Rightarrow> 'p source" where
  "xdp_readLoop newPacket [] s = s"
| "xdp_readLoop newPacket (raw # raws) s = xdp_readLoop newPacket raws (xdp_read newPacket raw s)"

text \<open>
  \<^verbatim>\<open>Stats\<close>: \<open>recvs\<close> and \<open>drops\<close> are the per-processor counters, \<open>None\<close> where the lookup fails.
\<close>

definition xdp_Stats :: "u64 list option \<Rightarrow> u64 list option \<Rightarrow> 'p source \<Rightarrow> u64 \<times> u64" where
  "xdp_Stats recvs drops s =
     (let kernelReceived = (case recvs of None \<Rightarrow> 0 | Some vs \<Rightarrow> sum_list vs);
          kernelDropped = (case drops of None \<Rightarrow> 0 | Some vs \<Rightarrow> sum_list vs) in
      (if received s < kernelReceived then kernelReceived else received s,
       dropped s + kernelDropped))"

section \<open>The SSL source\<close>

record sslEvent =
  PID :: u32
  TID :: u32
  FD :: u32
  DataLen :: u32
  Direction :: u8
  TimestampNs :: u64
  Data :: bytes

definition sslEventSize :: nat where
  "sslEventSize = 4 + 4 + 4 + 4 + 1 + 7 + 8 + 4096"

definition parseSslEvent :: "bytes \<Rightarrow> sslEvent" where
  "parseSslEvent raw =
     \<lparr>PID = le_get (slice_at 0 4 raw), TID = le_get (slice_at 4 4 raw),
      FD = le_get (slice_at 8 4 raw), DataLen = le_get (slice_at 12 4 raw),
      Direction = raw ! 16, TimestampNs = le_get (slice_at 24 8 raw),
      Data = splice_at 0 (take 4096 (drop 32 raw)) (replicate 4096 0)\<rparr>"

record seq_state =
  seqNums :: "u64 \<Rightarrow> u32 option"
  seqLastSeen :: "u64 \<Rightarrow> u64 option"
  seqPurgeCounter :: u64

definition seqKey :: "u32 \<Rightarrow> u32 \<Rightarrow> u8 \<Rightarrow> u64" where
  "seqKey pid tid direction =
     (push_bit 1 (push_bit 32 (ucast pid) OR ucast tid) OR ucast direction)"

definition purgeStaleSeqs :: "seq_state \<Rightarrow> seq_state" where
  "purgeStaleSeqs s =
     (let cutoff = seqPurgeCounter s - 500000;
          stale = (\<lambda>key. case seqLastSeen s key of None \<Rightarrow> False | Some lastSeen \<Rightarrow> lastSeen < cutoff) in
      s\<lparr>seqNums := (\<lambda>key. if stale key then None else seqNums s key),
        seqLastSeen := (\<lambda>key. if stale key then None else seqLastSeen s key)\<rparr>)"

definition nextSeq :: "u32 \<Rightarrow> u32 \<Rightarrow> u8 \<Rightarrow> u32 \<Rightarrow> seq_state \<Rightarrow> u32 \<times> seq_state" where
  "nextSeq pid tid direction dataLen s =
     (let key = seqKey pid tid direction;
          seq = (case seqNums s key of Some seq \<Rightarrow> seq | None \<Rightarrow> 1);
          s = s\<lparr>seqNums := (seqNums s)(key \<mapsto> seq + dataLen),
                seqLastSeen := (seqLastSeen s)(key \<mapsto> seqPurgeCounter s),
                seqPurgeCounter := seqPurgeCounter s + 1\<rparr>;
          s = (if seqPurgeCounter s mod 100000 = 0 then purgeStaleSeqs s else s) in
      (seq, s))"

text \<open>The addresses of the synthetic packet.\<close>

record four_tuple =
  srcIP :: bytes
  dstIP :: bytes
  srcPort :: u16
  dstPort :: u16

definition synthetic_tuple :: "u8 \<Rightarrow> u32 \<Rightarrow> u32 \<Rightarrow> four_tuple" where
  "synthetic_tuple direction pid tid =
     (let sip = [10, ucast (drop_bit 8 pid), ucast pid, ucast (drop_bit 16 tid)];
          dip = [127, 0, 0, 1];
          sport = (ucast (tid AND 0xFFFF) :: u16);
          sport = (if sport = 5432 then 5433 else sport);
          dport = 5432 in
      if direction = 1
      then \<lparr>srcIP = dip, dstIP = sip, srcPort = dport, dstPort = sport\<rparr>
      else \<lparr>srcIP = sip, dstIP = dip, srcPort = sport, dstPort = dport\<rparr>)"

text \<open>
  \<open>serialize tuple seq payload\<close> stands for the layers built with those addresses, that TCP
  sequence number, the flags and window fixed in the source, and that payload.
\<close>

definition buildSyntheticPacket ::
  "(four_tuple \<Rightarrow> u32 \<Rightarrow> bytes \<Rightarrow> 'p) \<Rightarrow> bytes \<Rightarrow> u8 \<Rightarrow> u32 \<Rightarrow> u32 \<Rightarrow> u32 \<Rightarrow> 'p" where
  "buildSyntheticPacket serialize payload direction pid tid seq =
     serialize (synthetic_tuple direction pid tid) seq payload"

definition ssl_read ::
  "(four_tuple \<Rightarrow> u32 \<Rightarrow> bytes \<Rightarrow> 'p) \<Rightarrow> bytes \<Rightarrow> 'p source \<times> seq_state \<Rightarrow> 'p source \<times> seq_state" where
  "ssl_read serialize raw st = (case st of (s, q) \<Rightarrow>
     if length raw < sslEventSize then (s, q)
     else let ev = parseSslEvent raw in
       if DataLen ev = 0 then (s, q)
       else let dataLen = (if 4096 < DataLen ev then 4096 else DataLen ev) in
         case nextSeq (PID ev) (TID ev) (Direction ev) dataLen q of
           (seq, q) \<Rightarrow>
             let pkt = buildSyntheticPacket serialize (take (unat dataLen) (Data ev)) (Direction ev)
                         (PID ev) (TID ev) seq in
             (trySend pkt (s\<lparr>received := received s + 1\<rparr>), q))"

fun ssl_readLoop ::
  "(four_tuple \<Rightarrow> u32 \<Rightarrow> bytes \<Rightarrow> 'p) \<Rightarrow> bytes list \<Rightarrow> 'p source \<times> seq_state \<Rightarrow> 'p source \<times> seq_state" where
  "ssl_readLoop serialize [] st = st"
| "ssl_readLoop serialize (raw # raws) st = ssl_readLoop serialize raws (ssl_read serialize raw st)"

section \<open>Kernel and userspace agree on the records\<close>

lemma length_pkt_record_of:
  assumes "length stale = 4096"
  shows "length (pkt_record_of f stale) = 4104"
proof -
  have "length (copied_of f) \<le> cap_len_of f mod 4096" by (simp add: copied_of_def)
  also have "\<dots> < 4096" by simp
  finally show ?thesis using assms by (simp add: pkt_record_of_def)
qed

lemma pktData_record:
  assumes "length f < 2 ^ 32" and "length stale = 4096"
  shows "pktData (pkt_record_of f stale) = Some (take (cap_len_of f) (copied_of f @ drop (length (copied_of f)) stale))"
proof -
  let ?raw = "pkt_record_of f stale"
  have len: "length ?raw = 4104" using assms(2) by (rule length_pkt_record_of)
  have cap: "(le_get (slice_at 4 4 ?raw) :: u32) = of_nat (cap_len_of f)"
    by (simp add: pkt_record_of_def slice_at_def le_get_put)
  have u: "unat (of_nat (cap_len_of f) :: u32) = cap_len_of f" "cap_len_of f \<le> 4096"
    using cap_len_word(2) [OF assms(1)] by (simp_all add: cap_len_of_def)
  have "slice_at 8 (cap_len_of f) ?raw = take (cap_len_of f) (copied_of f @ drop (length (copied_of f)) stale)"
    by (simp add: pkt_record_of_def slice_at_def)
  then show ?thesis
    using u by (simp add: pktData_def Let_def len cap pktRecordHeaderSize_def fixedSnapLen_def word_less_nat_alt)
qed

lemma copied_small: "length f < 4096 \<Longrightarrow> copied_of f = f \<and> cap_len_of f = length f"
  by (simp add: copied_of_def cap_len_of_def)

lemma copied_large: "4096 \<le> length f \<Longrightarrow> copied_of f = [] \<and> cap_len_of f = 4096"
  by (simp add: copied_of_def cap_len_of_def)

lemma length_ssl_event_of:
  assumes "length copied \<le> 4096" and "length stale = 4128"
  shows "length (ssl_event_of pt fd len dir ts copied stale) = 4128"
  using assms by (simp add: ssl_event_of_def)

lemma le_put_byte: "le_put (w :: u8) = [w]"
proof -
  have "length (le_put w) = 1" by simp
  then obtain b where b: "le_put w = [b]" by (cases "le_put w") auto
  have "le_get (le_put w) = w" by (rule le_get_put) simp
  with b show ?thesis by (simp add: le_get_def)
qed

lemma parse_event:
  assumes "length copied \<le> 4096" and "length stale = 4128"
  shows "parseSslEvent (ssl_event_of pt fd len dir ts copied stale) =
    \<lparr>PID = pid_of pt, TID = ucast pt, FD = fd, DataLen = len, Direction = dir, TimestampNs = ts,
     Data = copied @ drop (32 + length copied) stale\<rparr>"
  using assms
  by (simp add: parseSslEvent_def ssl_event_of_def slice_at_def le_get_put le_put_byte nth_append
      splice_at_def)

section \<open>The packet channel\<close>

lemma trySend_counts:
  "length (packets (trySend p s)) \<le> packetsCap \<longleftrightarrow> length (packets s) \<le> packetsCap"
  "received (trySend p s) = received s"
  "of_nat (length (packets (trySend p s))) + dropped (trySend p s)
     = of_nat (length (packets s)) + dropped s + (1 :: u64)"
  by (auto simp: trySend_def packetsCap_def)

lemma xdp_read_balance:
  "of_nat (length (packets (xdp_read np raw s))) + dropped (xdp_read np raw s)
     - received (xdp_read np raw s) = of_nat (length (packets s)) + dropped s - received s"
  using trySend_counts(3) [of _ "s\<lparr>received := received s + 1\<rparr>"]
  by (simp add: xdp_read_def trySend_counts split: option.split)

section \<open>Sequence numbers\<close>

definition seq_ok :: "seq_state \<Rightarrow> bool" where
  "seq_ok s \<longleftrightarrow> dom (seqNums s) = dom (seqLastSeen s)
     \<and> (\<forall>key t. seqLastSeen s key = Some t \<longrightarrow> t < seqPurgeCounter s)"

definition seq_base :: "seq_state \<Rightarrow> u64 \<Rightarrow> u32" where
  "seq_base s key = (case seqNums s key of Some q \<Rightarrow> q | None \<Rightarrow> 1)"

definition seq_used :: "u64 \<Rightarrow> u32 \<Rightarrow> seq_state \<Rightarrow> seq_state" where
  "seq_used key len s = s\<lparr>seqNums := (seqNums s)(key \<mapsto> seq_base s key + len),
     seqLastSeen := (seqLastSeen s)(key \<mapsto> seqPurgeCounter s), seqPurgeCounter := seqPurgeCounter s + 1\<rparr>"

lemma nextSeq_eq:
  "nextSeq pid tid dir len s = (seq_base s (seqKey pid tid dir),
     let s' = seq_used (seqKey pid tid dir) len s in
     if (seqPurgeCounter s + 1) mod 100000 = 0 then purgeStaleSeqs s' else s')"
  by (simp add: nextSeq_def seq_used_def seq_base_def Let_def)

lemma seq_used_ok:
  assumes "seq_ok s" and "seqPurgeCounter s + 1 \<noteq> 0"
  shows "seq_ok (seq_used key len s)"
proof -
  have lt: "seqPurgeCounter s < seqPurgeCounter s + 1"
    using unatSuc [of "seqPurgeCounter s"] assms(2) by (simp add: word_less_nat_alt add.commute)
  have "t < seqPurgeCounter s + 1" if "seqLastSeen s k = Some t" for k t
    using assms(1) that lt unfolding seq_ok_def by (meson less_trans)
  with assms lt show ?thesis by (auto simp: seq_ok_def seq_used_def split: if_splits)
qed

lemma purge_ok: "seq_ok s \<Longrightarrow> seq_ok (purgeStaleSeqs s)"
  by (fastforce simp: seq_ok_def purgeStaleSeqs_def Let_def dom_def split: if_splits option.splits)

lemma purge_wrapped:
  assumes ok: "seq_ok s" and c: "unat (seqPurgeCounter s) < 500000"
  shows "seqNums (purgeStaleSeqs s) = Map.empty"
proof -
  let ?c = "seqPurgeCounter s"
  have "unat (?c - 500000) = unat ?c + 2 ^ 64 - 500000"
    using c by (simp add: unat_sub_if')
  then have cut: "?c < ?c - 500000"
    using c by (simp add: word_less_nat_alt)
  have "seqNums (purgeStaleSeqs s) key = None" for key
  proof (cases "seqLastSeen s key")
    case None
    then have "key \<notin> dom (seqNums s)" using ok by (auto simp: seq_ok_def)
    then show ?thesis by (simp add: purgeStaleSeqs_def Let_def domIff)
  next
    case (Some t)
    then have "t < ?c - 500000" using ok cut by (auto simp: seq_ok_def intro: less_trans)
    with Some show ?thesis by (simp add: purgeStaleSeqs_def Let_def)
  qed
  then show ?thesis by auto
qed

lemma purge_keeps:
  assumes "500000 \<le> unat (seqPurgeCounter s)" and "seqLastSeen s key = Some t"
    and "unat (seqPurgeCounter s) \<le> unat t + 500000"
  shows "seqNums (purgeStaleSeqs s) key = seqNums s key"
proof -
  have "unat (seqPurgeCounter s - 500000) = unat (seqPurgeCounter s) - 500000"
    using assms(1) by (simp add: unat_sub_if')
  then have "\<not> t < seqPurgeCounter s - 500000"
    using assms(3) by (simp add: word_less_nat_alt)
  with assms(2) show ?thesis by (simp add: purgeStaleSeqs_def Let_def)
qed

text \<open>A run of calls, each a connection half and a length, with the numbers handed out.\<close>

type_synonym seq_call = "u32 \<times> u32 \<times> u8 \<times> u32"

fun seq_run :: "seq_call list \<Rightarrow> seq_state \<Rightarrow> u32 list \<times> seq_state" where
  "seq_run [] s = ([], s)"
| "seq_run ((pid, tid, dir, len) # cs) s = (let (q, s1) = nextSeq pid tid dir len s; (qs, s2) = seq_run cs s1 in
     (q # qs, s2))"

fun call_key :: "seq_call \<Rightarrow> u64" where "call_key (pid, tid, dir, len) = seqKey pid tid dir"
fun call_len :: "seq_call \<Rightarrow> u32" where "call_len (pid, tid, dir, len) = len"

definition sent_before :: "u64 \<Rightarrow> seq_call list \<Rightarrow> u32" where
  "sent_before key cs = sum_list (map call_len (filter (\<lambda>c. call_key c = key) cs))"

lemma sent_before_Cons:
  "sent_before key (c # cs) = (if call_key c = key then call_len c else 0) + sent_before key cs"
  by (simp add: sent_before_def)

lemma no_purge_step:
  assumes "unat (c :: u64) mod 100000 + Suc n < 100000" and "unat c + Suc n < 2 ^ 64"
  shows "(c + 1) mod 100000 \<noteq> 0" and "unat (c + 1) = unat c + 1"
    and "unat (c + 1) mod 100000 + n < 100000"
proof -
  show u: "unat (c + 1) = unat c + 1"
    using assms(2) by (simp add: unat_word_ariths)
  have m: "(unat c + 1) mod 100000 = unat c mod 100000 + 1"
    using assms(1) by (simp add: mod_Suc)
  then show "unat (c + 1) mod 100000 + n < 100000" using u assms(1) by simp
  have "unat ((c + 1) mod 100000) = (unat c + 1) mod 100000"
    by (simp add: unat_mod_distrib u del: add_0_right)
  then show "(c + 1) mod 100000 \<noteq> 0" using m by (metis Suc_eq_plus1 nat.distinct(1) unat_0)
qed

lemma seq_run_stream:
  assumes "unat (seqPurgeCounter s) mod 100000 + length cs < 100000"
    and "unat (seqPurgeCounter s) + length cs < 2 ^ 64" and "i < length cs"
  shows "fst (seq_run cs s) ! i = seq_base s (call_key (cs ! i)) + sent_before (call_key (cs ! i)) (take i cs)"
  using assms
proof (induction cs arbitrary: s i)
  case Nil
  then show ?case by simp
next
  case (Cons c cs)
  obtain pid tid dir len where c: "c = (pid, tid, dir, len)" by (cases c)
  let ?s = "seq_used (seqKey pid tid dir) len s"
  note np = no_purge_step [OF Cons.prems(1,2) [unfolded length_Cons]]
  have step: "nextSeq pid tid dir len s = (seq_base s (seqKey pid tid dir), ?s)"
    using np(1) by (simp add: nextSeq_eq)
  have base: "seq_base ?s key = seq_base s key + (if key = seqKey pid tid dir then len else 0)" for key
    by (simp add: seq_used_def seq_base_def)
  show ?case
  proof (cases i)
    case 0
    then show ?thesis by (simp add: c step sent_before_def split: prod.split)
  next
    case (Suc j)
    have "fst (seq_run cs ?s) ! j = seq_base ?s (call_key (cs ! j)) + sent_before (call_key (cs ! j)) (take j cs)"
      using Cons.IH [of ?s j] np Cons.prems Suc by (simp add: seq_used_def)
    then show ?thesis
      by (auto simp: c step Suc base sent_before_Cons split: prod.split)
  qed
qed

section \<open>Delivery\<close>

lemma trySend_room: "length (packets s) < packetsCap \<Longrightarrow> trySend p s = s\<lparr>packets := packets s @ [p]\<rparr>"
  by (simp add: trySend_def)

lemma pktData_small:
  "length f < 4096 \<Longrightarrow> length stale = 4096 \<Longrightarrow> pktData (pkt_record_of f stale) = Some f"
  using pktData_record [of f stale] copied_small [of f] by simp

lemma readLoop_delivers:
  assumes "list_all2 (\<lambda>f r. length f < 4096 \<and> (\<exists>stale. length stale = 4096 \<and> r = pkt_record_of f stale)) fs rs"
    and "length (packets s) + length fs \<le> packetsCap"
  shows "xdp_readLoop newPacket rs s = s\<lparr>packets := packets s @ map newPacket fs,
    received := received s + of_nat (length fs)\<rparr>"
  using assms
proof (induction arbitrary: s rule: list_all2_induct)
  case Nil
  then show ?case by simp
next
  case (Cons f fs r rs)
  then have "xdp_read newPacket r s = s\<lparr>received := received s + 1, packets := packets s @ [newPacket f]\<rparr>"
    by (auto simp: xdp_read_def pktData_small trySend_room)
  with Cons.IH [of "s\<lparr>received := received s + 1, packets := packets s @ [newPacket f]\<rparr>"] Cons.prems
  show ?case by (simp add: add.assoc)
qed

section \<open>Properties\<close>







text \<open>
  A read or write of 4096 bytes or more is not delivered. The probe copies nothing and
  reports 4096 bytes, so the packet forwarded carries 4096 bytes the ring memory held before.
\<close>

theorem ssl_large_event_lost:
  assumes "4096 \<le> unat ret" and "umem k buf 0 = Some []" and "length stale = 4128"
  shows "take (unat (clamp_len ret)) (Data (parseSslEvent
      (ssl_event_of pt fd (clamp_len ret) dir ts (plaintext umem k buf (clamp_len ret)) stale)))
    = drop 32 stale"
proof -
  have "ret = 4096 \<or> 4096 < ret"
    using assms(1) by (auto simp: word_less_nat_alt word_unat_eq_iff)
  then have "clamp_len ret = 4096" by (auto simp: clamp_len_def MAX_DATA_LEN_def)
  with assms(2,3) show ?thesis by (simp add: plaintext_def parse_event)
qed

theorem ssl_large_event_lost_witness:
  "take 4096 (Data (parseSslEvent (ssl_event_of 9 0 (clamp_len 8192) DIR_WRITE 1
      (plaintext (\<lambda>k a n. Some (replicate n 1)) () 0x1000 (clamp_len 8192)) (replicate 4128 7))))
    = replicate 4096 7"
  using ssl_large_event_lost [of 8192 "\<lambda>k a n. Some (replicate n 1)" "()" "0x1000" "replicate 4128 7"]
  by (simp add: clamp_len_def MAX_DATA_LEN_def)

text \<open>
  Sequence numbers form a byte stream per half connection. In any run of calls that does
  not reach a purge, the number handed to a call is the number its half connection started with
  plus the bytes already sent on that half connection, modulo \<open>2 ^ 32\<close>, whatever the other
  connections did in between.
\<close>

theorem nextSeq_stream:
  assumes "unat (seqPurgeCounter s) mod 100000 + length cs < 100000"
    and "unat (seqPurgeCounter s) + length cs < 2 ^ 64" and "i < length cs"
  shows "fst (seq_run cs s) ! i
    = seq_base s (call_key (cs ! i)) + sent_before (call_key (cs ! i)) (take i cs)"
  using seq_run_stream [OF assms] .

theorem nextSeq_stream_witness:
  "fst (seq_run [(9, 9, 0, 10), (9, 9, 1, 4), (9, 9, 0, 20)]
     \<lparr>seqNums = Map.empty, seqLastSeen = Map.empty, seqPurgeCounter = 0\<rparr>) ! 2 = 11"
proof -
  have "seqKey 9 9 0 \<noteq> seqKey 9 9 1" by (simp add: seqKey_def push_bit_eq_mult)
  then show ?thesis
    using nextSeq_stream [of "\<lparr>seqNums = Map.empty, seqLastSeen = Map.empty, seqPurgeCounter = 0\<rparr>"
        "[(9, 9, 0, 10), (9, 9, 1, 4), (9, 9, 0, 20)]" 2]
    by (simp add: seq_base_def sent_before_def)
qed

text \<open>
  C19: The first purges forget live connections. The cutoff is computed by an unsigned
  subtraction that wraps while fewer than 500000 numbers have been handed out, so the purges at
  100000, 200000, 300000 and 400000 calls remove every entry, the one just used included, and
  every connection's next packet starts again at sequence number 1.
\<close>

theorem early_purge_resets:
  assumes "seq_ok s" and "(seqPurgeCounter s + 1) mod 100000 = 0"
    and "unat (seqPurgeCounter s) + 1 < 500000"
  shows "fst (nextSeq pid' tid' dir' len' (snd (nextSeq pid tid dir len s))) = 1"
proof -
  let ?s = "seq_used (seqKey pid tid dir) len s"
  have u: "unat (seqPurgeCounter s + 1) = unat (seqPurgeCounter s) + 1"
    using assms(3) by (simp add: unat_word_ariths)
  then have "seqPurgeCounter s + 1 \<noteq> 0" by (metis add_is_0 one_neq_zero unat_0)
  then have "seq_ok ?s" using assms(1) by (rule seq_used_ok [rotated])
  moreover have "unat (seqPurgeCounter ?s) < 500000"
    using assms(3) u by (simp add: seq_used_def)
  ultimately have "seqNums (purgeStaleSeqs ?s) = Map.empty" by (rule purge_wrapped)
  with assms(2) show ?thesis by (simp add: nextSeq_eq seq_base_def)
qed

theorem early_purge_resets_witness:
  "fst (nextSeq 9 9 0 5 (snd (nextSeq 9 9 0 5
     \<lparr>seqNums = [seqKey 9 9 0 \<mapsto> 500], seqLastSeen = [seqKey 9 9 0 \<mapsto> 99998], seqPurgeCounter = 99999\<rparr>))) = 1"
proof -
  have "seq_ok \<lparr>seqNums = [seqKey 9 9 0 \<mapsto> 500], seqLastSeen = [seqKey 9 9 0 \<mapsto> 99998], seqPurgeCounter = 99999\<rparr>"
    by (auto simp: seq_ok_def split: if_splits)
  from early_purge_resets [OF this, of 9 9 0 5 9 9 0 5] show ?thesis by simp
qed

text \<open>
  Later purges keep live connections: once 500000 numbers have been handed out, the entry
  a call uses and every other entry used in the last 500000 calls survives the purge.
\<close>

theorem late_purge_keeps_live:
  assumes "500000 \<le> unat (seqPurgeCounter s)" and "unat (seqPurgeCounter s) + 1 < 2 ^ 64"
    and "key \<noteq> seqKey pid tid dir" and "seqLastSeen s key = Some t"
    and "unat (seqPurgeCounter s) < unat t + 500000"
  shows "seqNums (snd (nextSeq pid tid dir len s)) key = seqNums s key
    \<and> seqNums (snd (nextSeq pid tid dir len s)) (seqKey pid tid dir)
      = Some (seq_base s (seqKey pid tid dir) + len)"
proof -
  let ?s = "seq_used (seqKey pid tid dir) len s"
  have u: "unat (seqPurgeCounter ?s) = unat (seqPurgeCounter s) + 1"
    using assms(2) by (simp add: unat_word_ariths seq_used_def)
  have "seqNums (purgeStaleSeqs ?s) key = seqNums ?s key"
    using u assms by (intro purge_keeps [of ?s key t]) (simp_all add: seq_used_def)
  moreover have "seqNums (purgeStaleSeqs ?s) (seqKey pid tid dir) = seqNums ?s (seqKey pid tid dir)"
    using u assms(1) by (intro purge_keeps [of ?s _ "seqPurgeCounter s"]) (simp_all add: seq_used_def)
  ultimately show ?thesis
    using assms(3) by (auto simp: nextSeq_eq Let_def seq_used_def)
qed

theorem late_purge_keeps_live_witness:
  "seqNums (snd (nextSeq 9 9 0 5 \<lparr>seqNums = [seqKey 9 9 1 \<mapsto> 500], seqLastSeen = [seqKey 9 9 1 \<mapsto> 99999],
      seqPurgeCounter = 599998\<rparr>)) (seqKey 9 9 1) = Some 500"
proof -
  have "seqKey 9 9 1 \<noteq> seqKey 9 9 0" by (simp add: seqKey_def push_bit_eq_mult)
  then show ?thesis
    using late_purge_keeps_live [of "\<lparr>seqNums = [seqKey 9 9 1 \<mapsto> 500],
        seqLastSeen = [seqKey 9 9 1 \<mapsto> 99999], seqPurgeCounter = 599998\<rparr>" "seqKey 9 9 1" 9 9 0 99999 5]
    by simp
qed

lemma word_bytes:
  "unat (ucast (drop_bit k (x :: u32)) :: byte) = unat x div 2 ^ k mod 256"
  "unat (ucast x :: byte) = unat x mod 256"
  "unat (ucast (x AND 0xFFFF) :: u16) = unat x mod 65536"
proof -
  show "unat (ucast (drop_bit k x) :: byte) = unat x div 2 ^ k mod 256"
    using unsigned_less [of x, where 'a = nat]
    by (simp only: unsigned_ucast_eq unsigned_drop_bit_eq) (simp add: take_bit_eq_mod drop_bit_eq_div)
  show "unat (ucast x :: byte) = unat x mod 256"
    by (simp add: unsigned_ucast_eq take_bit_eq_mod)
  have "(0xFFFF :: u32) = mask 16" by (simp add: mask_eq_exp_minus_1)
  then have "x AND 0xFFFF = take_bit 16 x" by (simp add: take_bit_eq_mask)
  then have "unat (x AND 0xFFFF) = unat x mod 65536" by (simp add: take_bit_eq_mod unat_mod_distrib)
  then show "unat (ucast (x AND 0xFFFF) :: u16) = unat x mod 65536"
    by (simp add: unsigned_ucast_eq take_bit_eq_mod)
qed

text \<open>
  The synthetic addresses tell threads apart only in part. Two threads of the same direction
  with process identifiers below \<open>2 ^ 16\<close> and thread identifiers below \<open>2 ^ 24\<close>, none of them with
  the low bits 5432 that are moved to 5433, get the same four-tuple only if they are the same
  thread; without the bounds, different threads share one.
\<close>

theorem synthetic_tuple_unique:
  assumes "unat pid < 2 ^ 16" and "unat pid' < 2 ^ 16" and "unat tid < 2 ^ 24" and "unat tid' < 2 ^ 24"
    and "unat tid mod 65536 \<noteq> 5432" and "unat tid' mod 65536 \<noteq> 5432"
    and "synthetic_tuple dir pid tid = synthetic_tuple dir pid' tid'"
  shows "pid = pid' \<and> tid = tid'"
proof -
  let ?lo = "\<lambda>t :: u32. ucast (t AND 0xFFFF) :: u16"
  have port: "?lo t \<noteq> 5432" if "unat t mod 65536 \<noteq> 5432" for t
    using that word_bytes(3) [of t] by (auto simp: word_unat_eq_iff)
  have eqs: "?lo tid = ?lo tid'" "(ucast (drop_bit 8 pid) :: byte) = ucast (drop_bit 8 pid')"
      "(ucast pid :: byte) = ucast pid'" "(ucast (drop_bit 16 tid) :: byte) = ucast (drop_bit 16 tid')"
    using assms(7) port [OF assms(5)] port [OF assms(6)]
    by (auto simp: synthetic_tuple_def Let_def split: if_splits)
  have "unat pid div 2 ^ 8 mod 256 = unat pid' div 2 ^ 8 mod 256" "unat pid mod 256 = unat pid' mod 256"
      "unat tid div 2 ^ 16 mod 256 = unat tid' div 2 ^ 16 mod 256" "unat tid mod 65536 = unat tid' mod 65536"
    using eqs by (metis word_bytes)+
  then have "unat pid = unat pid'" "unat tid = unat tid'"
    using assms(1-4) by simp_all (metis div_mult_mod_eq)+
  then show ?thesis by (simp add: word_unat_eq_iff)
qed

theorem synthetic_tuple_unique_witness:
  "synthetic_tuple 0 100 7 \<noteq> synthetic_tuple 0 101 7"
  using synthetic_tuple_unique [of 100 101 7 7 0] by auto

text \<open>Threads that share a four-tuple: process identifiers \<open>2 ^ 16\<close> apart, and the moved port.\<close>

lemma synthetic_tuple_collides:
  "synthetic_tuple 0 1 7 = synthetic_tuple 0 65537 7"
  "synthetic_tuple 0 1 5432 = synthetic_tuple 0 1 5433"
  by (simp_all add: synthetic_tuple_def Let_def drop_bit_eq_div)

lemma hostToNet16_bytes: "le_put (hostToNet16 v) = be_put v"
  by (simp add: hostToNet16_def le_put_get)

lemma sslEventSize_sizeof: "sslEventSize = sizeof struct_ssl_event"
  by (simp add: sslEventSize_def layout_simps)

end
