(* ===== verification/Core_Types.thy ===== *)
theory Core_Types
  imports Prelude
begin

text \<open>
  The data types that flow through the pipeline, \<^verbatim>\<open>src/pkg/core/types.go\<close>. A Go string is a
  \<open>string\<close>, a byte slice a list of bytes, a slice that may be \<open>nil\<close> an option. Times and durations
  are integers in nanoseconds. An address is the byte slice \<^verbatim>\<open>Addr.AsSlice\<close> gives, four or
  sixteen bytes, or none for the zero address.
\<close>

type_synonym addr = bytes

record ConnID =
  SrcIP :: addr
  SrcPort :: u16
  DstIP :: addr
  DstPort :: u16

record ParamInfo =
  OID :: u32
  Value :: "bytes option"
  Format :: u16

record SQLEvent =
  Conn :: ConnID
  SQL :: string
  Timestamp :: int
  TxID :: u64
  Seq :: u64
  Extended :: bool
  StmtName :: string
  Params :: "ParamInfo list"
  CopyData :: "bytes list"
  SourceExecTime :: int
  User :: string

record PGMessage =
  Type :: byte
  Length :: u32
  Payload :: bytes

datatype TxStatus = TxIdle | TxInTx | TxFailed

text \<open>The zero event, from which composite literals are built.\<close>

definition zero_event :: "ConnID \<Rightarrow> SQLEvent" where
  "zero_event conn = \<lparr>Conn = conn, SQL = '''', Timestamp = 0, TxID = 0, Seq = 0, Extended = False,
     StmtName = '''', Params = [], CopyData = [], SourceExecTime = 0, User = ''''\<rparr>"

text \<open>The conversions \<^verbatim>\<open>string(b)\<close> and \<^verbatim>\<open>[]byte(s)\<close>.\<close>

definition to_string :: "bytes \<Rightarrow> string" where
  "to_string bs = map (\<lambda>b. char_of (unat b)) bs"

definition of_string :: "string \<Rightarrow> bytes" where
  "of_string s = map (\<lambda>c. of_nat (of_char c)) s"

lemma byte_char: "of_nat (of_char (char_of (unat b))) = (b :: byte)"
  using unat_byte_less [of b] by (simp add: of_char_of take_bit_eq_mod)

lemma char_byte: "char_of (unat (of_nat (of_char c) :: byte)) = c"
proof -
  have "(of_char c :: nat) < 256" by (metis of_char_mod_256 mod_less_divisor zero_less_numeral)
  then show ?thesis by (simp add: unat_of_nat)
qed

lemma of_string_to_string [simp]: "of_string (to_string bs) = bs"
  using byte_char by (auto simp: of_string_def to_string_def intro!: map_idI)

lemma to_string_of_string [simp]: "to_string (of_string s) = s"
  by (simp add: of_string_def to_string_def char_byte comp_def)

lemma length_of_string [simp]: "length (of_string s) = length s"
  by (simp add: of_string_def)

lemma length_to_string [simp]: "length (to_string bs) = length bs"
  by (simp add: to_string_def)

section \<open>Per-connection state\<close>

text \<open>
  Several collaborators keep state per connection in one store. The contract they share: an
  operation for a connection changes what is seen of that connection by a local step and nothing
  of the others. Interleaving with other connections is then irrelevant.
\<close>

locale conn_local =
  fixes view :: "'s \<Rightarrow> ConnID \<Rightarrow> 'a"
    and step :: "ConnID \<Rightarrow> 'op \<Rightarrow> 's \<Rightarrow> 's"
    and lstep :: "ConnID \<Rightarrow> 'op \<Rightarrow> 'a \<Rightarrow> 'a"
    and ok :: "'s \<Rightarrow> bool"
  assumes step_view: "ok s \<Longrightarrow>
      view (step c op s) c' = (if c' = c then lstep c op (view s c) else view s c')"
    and step_ok: "ok s \<Longrightarrow> ok (step c op s)"
begin

lemma run_ok: "ok s \<Longrightarrow> ok (fold (\<lambda>(c, op). step c op) cops s)"
  by (induction cops arbitrary: s) (auto simp: step_ok)

lemma interleave:
  "ok s \<Longrightarrow> view (fold (\<lambda>(c, op). step c op) cops s) c
     = fold (lstep c) (map snd (filter (\<lambda>(c', op). c' = c) cops)) (view s c)"
  by (induction cops arbitrary: s) (auto simp: step_ok step_view)

end

end
