(* ===== verification/Event_Queue.thy ===== *)
theory Event_Queue
  imports Core_Types "HOL-Library.Sublist"
begin

text \<open>
  The contract of the buffer queue, \<^verbatim>\<open>src/pkg/queue/queue.go\<close>: a bounded first-in first-out queue
  with an overflow policy. An operation on a queue is one critical section; \<open>None\<close> means that the
  caller waits on the condition variable and will try again; a waiting producer may already have
  touched its buffers. A backend may keep a reduced form
  of an event, its \<open>stored\<close> form.
\<close>

datatype OverflowPolicy = DropOldest | DropNewest | Block

definition DefaultCapacity :: int where "DefaultCapacity = 2000000"

definition queue_capacity :: "int \<Rightarrow> nat" where
  "queue_capacity c = nat (if c \<le> 0 then DefaultCapacity else c)"

section \<open>The abstract queue\<close>

type_synonym aqueue = "SQLEvent list \<times> bool"

fun aq_Enqueue :: "nat \<Rightarrow> OverflowPolicy \<Rightarrow> SQLEvent \<Rightarrow> aqueue \<Rightarrow> bool option \<times> aqueue" where
  "aq_Enqueue cap pol e (xs, closed) =
     (if closed then (Some False, (xs, closed))
      else if length xs < cap then (Some False, (xs @ [e], closed))
      else case pol of
        DropNewest \<Rightarrow> (Some True, (xs, closed))
      | Block \<Rightarrow> (None, (xs, closed))
      | DropOldest \<Rightarrow> (Some True, (tl xs @ [e], closed)))"

fun aq_Dequeue :: "aqueue \<Rightarrow> (SQLEvent option \<times> aqueue) option" where
  "aq_Dequeue (x # xs, closed) = Some (Some x, (xs, closed))"
| "aq_Dequeue ([], closed) = (if closed then Some (None, ([], closed)) else None)"

fun aq_Close :: "aqueue \<Rightarrow> aqueue" where
  "aq_Close (xs, closed) = (xs, True)"

datatype q_op = QEnqueue SQLEvent | QDequeue | QClose

text \<open>
  One operation of a queue: the events delivered, the number of events reported as dropped, and
  the queue after it. An operation that would wait changes nothing.
\<close>

type_synonym 's q_result = "SQLEvent list \<times> nat \<times> 's"

definition enq_result :: "bool option \<times> 's \<Rightarrow> 's q_result" where
  "enq_result r = ([], of_bool (fst r = Some True), snd r)"

definition deq_result :: "'s \<Rightarrow> (SQLEvent option \<times> 's) option \<Rightarrow> 's q_result" where
  "deq_result s r = (case r of None \<Rightarrow> ([], 0, s)
     | Some (e, s') \<Rightarrow> (case e of None \<Rightarrow> [] | Some e \<Rightarrow> [e], 0, s'))"

fun aq_step :: "nat \<Rightarrow> OverflowPolicy \<Rightarrow> q_op \<Rightarrow> aqueue \<Rightarrow> aqueue q_result" where
  "aq_step cap pol (QEnqueue e) q = enq_result (aq_Enqueue cap pol e q)"
| "aq_step cap pol QDequeue q = deq_result q (aq_Dequeue q)"
| "aq_step cap pol QClose q = ([], 0, aq_Close q)"

fun q_run :: "('op \<Rightarrow> 's \<Rightarrow> 's q_result) \<Rightarrow> 'op list \<Rightarrow> 's \<Rightarrow> 's q_result" where
  "q_run step [] s = ([], 0, s)"
| "q_run step (op # ops) s = (case step op s of (out, n, s) \<Rightarrow>
     (case q_run step ops s of (out', n', s) \<Rightarrow> (out @ out', n + n', s)))"

text \<open>The event an operation adds to the stream, if the queue is open and does not make it wait.\<close>

fun admitted :: "nat \<Rightarrow> OverflowPolicy \<Rightarrow> q_op \<Rightarrow> aqueue \<Rightarrow> SQLEvent list" where
  "admitted cap pol (QEnqueue e) q = (if snd q \<or> fst (aq_Enqueue cap pol e q) = None then [] else [e])"
| "admitted cap pol _ q = []"

fun admitted_all :: "nat \<Rightarrow> OverflowPolicy \<Rightarrow> q_op list \<Rightarrow> aqueue \<Rightarrow> SQLEvent list" where
  "admitted_all cap pol [] q = []"
| "admitted_all cap pol (op # ops) q = admitted cap pol op q @ admitted_all cap pol ops (snd (snd (aq_step cap pol op q)))"

lemma aq_step_order:
  assumes "aq_step cap pol op (xs, cl) = (out, n, (ys, cl'))" and "0 < cap"
  shows "subseq (out @ ys) (xs @ admitted cap pol op (xs, cl))
    \<and> length out + length ys + n = length (xs @ admitted cap pol op (xs, cl))
    \<and> (length xs \<le> cap \<longrightarrow> length ys \<le> cap)"
proof (cases op)
  case (QEnqueue e)
  have "subseq (tl xs) xs" by (simp add: suffix_imp_subseq suffix_tl)
  then have "subseq (tl xs @ [e]) (xs @ [e])" by (simp add: list_emb_append_mono)
  moreover have "subseq xs (xs @ [e])" by (rule prefix_imp_subseq) simp
  ultimately show ?thesis
    using assms by (cases xs) (auto simp: QEnqueue enq_result_def split: if_splits OverflowPolicy.splits)
next
  case QDequeue
  then show ?thesis using assms by (cases xs) (auto simp: deq_result_def split: if_splits)
next
  case QClose
  then show ?thesis using assms by simp
qed

lemma aq_run_order:
  assumes "q_run (aq_step cap pol) ops q = (out, n, q')" and "0 < cap"
  shows "subseq (out @ fst q') (fst q @ admitted_all cap pol ops q)
    \<and> length out + length (fst q') + n = length (fst q) + length (admitted_all cap pol ops q)
    \<and> (length (fst q) \<le> cap \<longrightarrow> length (fst q') \<le> cap)"
  using assms(1)
proof (induction ops arbitrary: q out n q')
  case (Cons op ops)
  obtain o1 n1 q1 where s: "aq_step cap pol op q = (o1, n1, q1)" by (metis surj_pair)
  obtain o2 n2 where r: "q_run (aq_step cap pol) ops q1 = (o2, n2, q')" and o: "out = o1 @ o2" "n = n1 + n2"
    using Cons.prems by (auto simp: s split: prod.splits)
  note a = aq_step_order [of cap pol op "fst q" "snd q" o1 n1 "fst q1" "snd q1", simplified, OF s assms(2)]
    and b = Cons.IH [OF r]
  let ?A = "admitted cap pol op q" and ?B = "admitted_all cap pol ops q1"
  have "subseq (o1 @ o2 @ fst q') (o1 @ fst q1 @ ?B)" using b by (intro list_emb_append_mono [of _ o1 o1]) simp_all
  moreover have "subseq ((o1 @ fst q1) @ ?B) ((fst q @ ?A) @ ?B)" using a by (intro list_emb_append_mono [of _ "o1 @ fst q1"]) simp_all
  ultimately have "subseq (o1 @ o2 @ fst q') ((fst q @ ?A) @ ?B)" unfolding append_assoc by (rule subseq_order.trans)
  then show ?case using a b by (simp add: o s)
qed simp

lemma full_subseq: "subseq xs ys \<Longrightarrow> length xs = length ys \<Longrightarrow> xs = ys"
  by (simp add: subseq_same_length)

section \<open>The contract of a backend\<close>

fun backend_step ::
  "(SQLEvent \<Rightarrow> 's \<Rightarrow> bool option \<times> 's) \<Rightarrow> ('s \<Rightarrow> (SQLEvent option \<times> 's) option) \<Rightarrow> ('s \<Rightarrow> 's)
     \<Rightarrow> q_op \<Rightarrow> 's \<Rightarrow> 's q_result" where
  "backend_step enq deq close (QEnqueue e) s = enq_result (enq e s)"
| "backend_step enq deq close QDequeue s = deq_result s (deq s)"
| "backend_step enq deq close QClose s = ([], 0, close s)"

fun map_op :: "(SQLEvent \<Rightarrow> SQLEvent) \<Rightarrow> q_op \<Rightarrow> q_op" where
  "map_op f (QEnqueue e) = QEnqueue (f e)"
| "map_op f QDequeue = QDequeue"
| "map_op f QClose = QClose"

fun op_accepted :: "(SQLEvent \<Rightarrow> bool) \<Rightarrow> q_op \<Rightarrow> bool" where
  "op_accepted P (QEnqueue e) = P e"
| "op_accepted P _ = True"

locale queue_backend =
  fixes abs :: "'s \<Rightarrow> aqueue" and ok :: "'s \<Rightarrow> bool"
    and enq :: "SQLEvent \<Rightarrow> 's \<Rightarrow> bool option \<times> 's"
    and deq :: "'s \<Rightarrow> (SQLEvent option \<times> 's) option"
    and close :: "'s \<Rightarrow> 's"
    and stored :: "SQLEvent \<Rightarrow> SQLEvent" and accepts :: "SQLEvent \<Rightarrow> bool"
    and cap :: nat and pol :: OverflowPolicy
  assumes cap_pos: "ok s \<Longrightarrow> 0 < cap"
    and enq_refines: "ok s \<Longrightarrow> accepts e \<Longrightarrow>
      map_prod id abs (enq e s) = aq_Enqueue cap pol (stored e) (abs s)"
    and enq_ok: "ok s \<Longrightarrow> accepts e \<Longrightarrow> ok (snd (enq e s))"
    and deq_refines: "ok s \<Longrightarrow> map_option (map_prod id abs) (deq s) = aq_Dequeue (abs s)"
    and deq_ok: "ok s \<Longrightarrow> deq s = Some (r, s') \<Longrightarrow> ok s'"
    and close_refines: "ok s \<Longrightarrow> abs (close s) = aq_Close (abs s)"
    and close_ok: "ok s \<Longrightarrow> ok (close s)"
begin

lemma step_refines:
  assumes "ok s" and "op_accepted accepts op" and "backend_step enq deq close op s = (out, n, s')"
  shows "ok s' \<and> aq_step cap pol (map_op stored op) (abs s) = (out, n, abs s')"
proof (cases op)
  case (QEnqueue e)
  have acc: "accepts e" using assms(2) by (simp add: QEnqueue)
  show ?thesis
    using assms enq_refines [OF assms(1) acc] enq_ok [OF assms(1) acc]
    by (auto simp: QEnqueue enq_result_def prod_eq_iff)
next
  case QDequeue
  note ref = deq_refines [OF assms(1)]
  show ?thesis
  proof (cases "deq s")
    case None
    then show ?thesis using assms ref by (simp add: QDequeue deq_result_def)
  next
    case (Some r)
    obtain e s1 where r: "r = (e, s1)" by (cases r)
    show ?thesis
      using assms ref Some deq_ok [OF assms(1) Some [unfolded r]]
      by (simp add: QDequeue deq_result_def r flip: ref)
  qed
next
  case QClose
  then show ?thesis using assms close_refines [OF assms(1)] close_ok [OF assms(1)] by auto
qed

lemma run_refines:
  assumes "ok s" and "list_all (op_accepted accepts) ops" and "q_run (backend_step enq deq close) ops s = (out, n, s')"
  shows "ok s' \<and> q_run (aq_step cap pol) (map (map_op stored) ops) (abs s) = (out, n, abs s')"
  using assms
proof (induction ops arbitrary: s out n)
  case (Cons op ops)
  obtain o1 n1 s1 where st: "backend_step enq deq close op s = (o1, n1, s1)" by (metis surj_pair)
  obtain o2 n2 where r: "q_run (backend_step enq deq close) ops s1 = (o2, n2, s')" "out = o1 @ o2" "n = n1 + n2"
    using Cons.prems(3) by (auto simp: st split: prod.splits)
  have "ok s1 \<and> aq_step cap pol (map_op stored op) (abs s) = (o1, n1, abs s1)"
    using step_refines [OF Cons.prems(1) _ st] Cons.prems(2) by simp
  then show ?case using Cons.IH [OF _ _ r(1)] Cons.prems(2) r by simp
qed simp

lemma run_fifo:
  assumes "ok s" and "list_all (op_accepted accepts) ops" and "q_run (backend_step enq deq close) ops s = (out, n, s')"
    and "length (fst (abs s)) \<le> cap"
  defines "stream \<equiv> fst (abs s) @ admitted_all cap pol (map (map_op stored) ops) (abs s)"
  shows "subseq (out @ fst (abs s')) stream \<and> length out + length (fst (abs s')) + n = length stream
    \<and> length (fst (abs s')) \<le> cap \<and> (n = 0 \<longrightarrow> out @ fst (abs s') = stream)"
proof -
  have r: "q_run (aq_step cap pol) (map (map_op stored) ops) (abs s) = (out, n, abs s')"
    using run_refines [OF assms(1-3)] by blast
  show ?thesis
    using aq_run_order [OF r cap_pos [OF assms(1)]] assms(4) full_subseq [of "out @ fst (abs s')" stream]
    unfolding stream_def by simp
qed

end

end
