(* ===== verification/Trackers.thy ===== *)
theory Trackers
  imports Core_Types
begin

text \<open>
  The standalone per-connection collaborators of the protocol parser: transaction identifiers
  (\<^verbatim>\<open>src/pkg/protocol/txid.go\<close>), COPY streams (\<^verbatim>\<open>copybuffer.go\<close>) and source-side execution times
  (\<^verbatim>\<open>sourceexectimer.go\<close>). A Go map read at a missing key is the zero value, so a map whose
  entries are only read that way is a total function.
\<close>

section \<open>Transaction identifiers\<close>

record TxIDGenerator =
  tx_current :: "ConnID \<Rightarrow> u64 option"
  tx_counter :: u64

definition NewTxIDGenerator :: TxIDGenerator where
  "NewTxIDGenerator = \<lparr>tx_current = Map.empty, tx_counter = 0\<rparr>"

definition tx_Current :: "ConnID \<Rightarrow> TxIDGenerator \<Rightarrow> u64" where
  "tx_Current conn g = (case tx_current g conn of Some t \<Rightarrow> t | None \<Rightarrow> 0)"

definition tx_Advance :: "ConnID \<Rightarrow> TxIDGenerator \<Rightarrow> u64 \<times> TxIDGenerator" where
  "tx_Advance conn g = (let g = g\<lparr>tx_counter := tx_counter g + 1\<rparr> in
     (tx_counter g, g\<lparr>tx_current := (tx_current g)(conn \<mapsto> tx_counter g)\<rparr>))"

definition tx_Reset :: "ConnID \<Rightarrow> TxIDGenerator \<Rightarrow> TxIDGenerator" where
  "tx_Reset conn g = g\<lparr>tx_current := (tx_current g)(conn := None)\<rparr>"

section \<open>COPY streams\<close>

record CopyBuffer =
  cb_SQL :: string
  cb_Data :: "bytes list"

record CopyTracker =
  ct_active :: "ConnID \<Rightarrow> CopyBuffer option"
  ct_sizes :: "ConnID \<Rightarrow> int"
  ct_overflow :: "ConnID \<Rightarrow> bool"
  ct_maxBytes :: int

definition DefaultMaxCopyBytes :: int where "DefaultMaxCopyBytes = 256 * 2 ^ 20"

definition NewCopyTrackerWithLimit :: "int \<Rightarrow> CopyTracker" where
  "NewCopyTrackerWithLimit maxBytes =
     \<lparr>ct_active = Map.empty, ct_sizes = (\<lambda>_. 0), ct_overflow = (\<lambda>_. False),
      ct_maxBytes = (if maxBytes \<le> 0 then DefaultMaxCopyBytes else maxBytes)\<rparr>"

definition NewCopyTracker :: CopyTracker where
  "NewCopyTracker = NewCopyTrackerWithLimit DefaultMaxCopyBytes"

definition copy_Active :: "ConnID \<Rightarrow> CopyTracker \<Rightarrow> bool" where
  "copy_Active conn t \<longleftrightarrow> ct_active t conn \<noteq> None"

definition copy_clear :: "ConnID \<Rightarrow> CopyTracker \<Rightarrow> CopyTracker" where
  "copy_clear conn t = t\<lparr>ct_active := (ct_active t)(conn := None),
     ct_sizes := (ct_sizes t)(conn := 0), ct_overflow := (ct_overflow t)(conn := False)\<rparr>"

definition copy_Start :: "ConnID \<Rightarrow> string \<Rightarrow> CopyTracker \<Rightarrow> CopyTracker" where
  "copy_Start conn sql t = (let t = copy_clear conn t in
     t\<lparr>ct_active := (ct_active t)(conn \<mapsto> \<lparr>cb_SQL = sql, cb_Data = []\<rparr>)\<rparr>)"

definition appendSegment :: "bytes \<Rightarrow> CopyBuffer \<Rightarrow> CopyBuffer" where
  "appendSegment payload cb = cb\<lparr>cb_Data := cb_Data cb @ [payload]\<rparr>"

definition copy_Data :: "ConnID \<Rightarrow> bytes \<Rightarrow> CopyTracker \<Rightarrow> bool \<times> CopyTracker" where
  "copy_Data conn payload t = (case ct_active t conn of
       None \<Rightarrow> (False, t)
     | Some cb \<Rightarrow>
         if ct_overflow t conn then (False, t)
         else if ct_maxBytes t < ct_sizes t conn + int (length payload) then
           (False, t\<lparr>ct_overflow := (ct_overflow t)(conn := True),
                     ct_active := (ct_active t)(conn \<mapsto> cb\<lparr>cb_Data := []\<rparr>),
                     ct_sizes := (ct_sizes t)(conn := 0)\<rparr>)
         else (True, t\<lparr>ct_active := (ct_active t)(conn \<mapsto> appendSegment payload cb),
                       ct_sizes := (ct_sizes t)(conn := ct_sizes t conn + int (length payload))\<rparr>))"

definition copy_Done :: "ConnID \<Rightarrow> CopyTracker \<Rightarrow> (string \<times> bytes list) option \<times> CopyTracker" where
  "copy_Done conn t =
     (case (ct_active t conn, ct_overflow t conn) of
        (Some cb, False) \<Rightarrow> (Some (cb_SQL cb, cb_Data cb), copy_clear conn t)
      | _ \<Rightarrow> (None, copy_clear conn t))"

definition copy_Fail :: "ConnID \<Rightarrow> CopyTracker \<Rightarrow> CopyTracker" where
  "copy_Fail conn t = copy_clear conn t"

definition copy_Discard :: "ConnID \<Rightarrow> CopyTracker \<Rightarrow> CopyTracker" where
  "copy_Discard conn t = copy_clear conn t"

section \<open>Execution times\<close>

type_synonym SourceExecTimer = "ConnID \<Rightarrow> int option"

definition OnClientQuery :: "ConnID \<Rightarrow> int \<Rightarrow> SourceExecTimer \<Rightarrow> SourceExecTimer" where
  "OnClientQuery conn ts t = t(conn \<mapsto> ts)"

definition OnBackendComplete :: "ConnID \<Rightarrow> int \<Rightarrow> SourceExecTimer \<Rightarrow> int option \<times> SourceExecTimer" where
  "OnBackendComplete conn ts t = (case t conn of
       None \<Rightarrow> (None, t)
     | Some start \<Rightarrow> (Some (ts - start), t(conn := None)))"

definition timer_Forget :: "ConnID \<Rightarrow> SourceExecTimer \<Rightarrow> SourceExecTimer" where
  "timer_Forget conn t = t(conn := None)"

section \<open>Transaction identifiers are unique\<close>

datatype tx_op = TxAdvance | TxReset

fun tx_step :: "ConnID \<Rightarrow> tx_op \<Rightarrow> TxIDGenerator \<Rightarrow> TxIDGenerator" where
  "tx_step c TxAdvance g = snd (tx_Advance c g)"
| "tx_step c TxReset g = tx_Reset c g"

definition tx_ok :: "TxIDGenerator \<Rightarrow> bool" where
  "tx_ok g \<longleftrightarrow> (\<forall>c t. tx_current g c = Some t \<longrightarrow> 0 < t \<and> t \<le> tx_counter g)
     \<and> (\<forall>c c' t. tx_current g c = Some t \<longrightarrow> tx_current g c' = Some t \<longrightarrow> c = c')"

lemma tx_ok_new: "tx_ok NewTxIDGenerator"
  by (simp add: tx_ok_def NewTxIDGenerator_def)

lemma tx_reset_ok: "tx_ok g \<Longrightarrow> tx_ok (tx_Reset c g)"
  unfolding tx_ok_def tx_Reset_def by (auto split: if_splits)

lemma word_Suc_greater: "(w :: u64) + 1 \<noteq> 0 \<Longrightarrow> w < w + 1"
  using unatSuc [of w] by (simp add: word_less_nat_alt add.commute)

lemma tx_advance_ok:
  assumes "tx_ok g" and "tx_counter g + 1 \<noteq> 0"
  shows "tx_ok (snd (tx_Advance c g))"
    and "tx_current g c' = Some t \<Longrightarrow> t < fst (tx_Advance c g)"
    and "tx_Current c (snd (tx_Advance c g)) = fst (tx_Advance c g)" and "0 < fst (tx_Advance c g)"
proof -
  have lt: "tx_counter g < tx_counter g + 1" using word_Suc_greater [OF assms(2)] .
  then have old: "0 < t \<and> t < tx_counter g + 1" if "tx_current g c' = Some t" for c' t
    using assms(1) that unfolding tx_ok_def by (meson le_less_trans)
  show pos: "0 < fst (tx_Advance c g)" using assms(2) by (simp add: tx_Advance_def word_neq_0_conv)
  show "t < fst (tx_Advance c g)" if "tx_current g c' = Some t"
    using old [OF that] by (simp add: tx_Advance_def)
  show "tx_Current c (snd (tx_Advance c g)) = fst (tx_Advance c g)"
    by (simp add: tx_Advance_def tx_Current_def)
  have "tx_current g c1 = Some t \<Longrightarrow> tx_current g c2 = Some t \<Longrightarrow> c1 = c2" for c1 c2 t
    using assms(1) unfolding tx_ok_def by blast
  with old pos show "tx_ok (snd (tx_Advance c g))"
    unfolding tx_ok_def tx_Advance_def by (auto simp: less_imp_le Let_def)
qed

lemma tx_run:
  assumes "length (filter (\<lambda>(c, op). op = TxAdvance) ops) < 2 ^ 64"
  shows "tx_ok (fold (\<lambda>(c, op). tx_step c op) ops NewTxIDGenerator)
    \<and> unat (tx_counter (fold (\<lambda>(c, op). tx_step c op) ops NewTxIDGenerator))
        = length (filter (\<lambda>(c, op). op = TxAdvance) ops)"
  using assms
proof (induction ops rule: rev_induct)
  case Nil
  then show ?case using tx_ok_new by (simp add: NewTxIDGenerator_def)
next
  case (snoc x ops)
  obtain c op where x: "x = (c, op)" by (cases x)
  let ?g = "fold (\<lambda>(c, op). tx_step c op) ops NewTxIDGenerator"
  let ?n = "length (filter (\<lambda>(c, op). op = TxAdvance) ops)"
  show ?case
  proof (cases op)
    case TxAdvance
    then have n: "Suc ?n < 2 ^ 64" using snoc.prems by (simp add: x)
    then have IH: "tx_ok ?g" "unat (tx_counter ?g) = ?n" using snoc.IH by auto
    then have u: "unat (tx_counter ?g + 1) = Suc ?n"
      using n by (simp add: unat_word_ariths)
    then have "tx_counter ?g + 1 \<noteq> 0" by (metis nat.distinct(1) unat_0)
    with IH u TxAdvance show ?thesis
      using tx_advance_ok(1) [of ?g c] by (simp add: x tx_Advance_def Let_def)
  next
    case TxReset
    with snoc show ?thesis using tx_reset_ok [of ?g c] by (simp add: x tx_Reset_def)
  qed
qed

section \<open>COPY streams refine a per-connection buffer\<close>

datatype copy_state = NoCopy | Copying string "bytes list" | Overflowed string
datatype copy_op = CStart string | CData bytes | CDone | CFail | CDiscard

definition copy_view :: "CopyTracker \<Rightarrow> ConnID \<Rightarrow> copy_state" where
  "copy_view t c = (case ct_active t c of
       None \<Rightarrow> NoCopy
     | Some cb \<Rightarrow> if ct_overflow t c then Overflowed (cb_SQL cb) else Copying (cb_SQL cb) (cb_Data cb))"

fun copy_step :: "ConnID \<Rightarrow> copy_op \<Rightarrow> CopyTracker \<Rightarrow> CopyTracker" where
  "copy_step c (CStart sql) t = copy_Start c sql t"
| "copy_step c (CData p) t = snd (copy_Data c p t)"
| "copy_step c CDone t = snd (copy_Done c t)"
| "copy_step c CFail t = copy_Fail c t"
| "copy_step c CDiscard t = copy_Discard c t"

definition seg_bytes :: "bytes list \<Rightarrow> int" where
  "seg_bytes segs = int (sum_list (map length segs))"

fun copy_lstep :: "int \<Rightarrow> copy_op \<Rightarrow> copy_state \<Rightarrow> copy_state" where
  "copy_lstep mx (CStart sql) st = Copying sql []"
| "copy_lstep mx (CData p) (Copying sql segs) =
     (if seg_bytes segs + int (length p) \<le> mx then Copying sql (segs @ [p]) else Overflowed sql)"
| "copy_lstep mx (CData p) st = st"
| "copy_lstep mx CDone st = NoCopy"
| "copy_lstep mx CFail st = NoCopy"
| "copy_lstep mx CDiscard st = NoCopy"

fun copy_conn_ok :: "CopyBuffer option \<Rightarrow> int \<Rightarrow> bool \<Rightarrow> bool" where
  "copy_conn_ok None sz ovf \<longleftrightarrow> sz = 0 \<and> \<not> ovf"
| "copy_conn_ok (Some cb) sz ovf \<longleftrightarrow>
     (if ovf then cb_Data cb = [] \<and> sz = 0 else sz = seg_bytes (cb_Data cb))"

definition copy_ok :: "int \<Rightarrow> CopyTracker \<Rightarrow> bool" where
  "copy_ok mx t \<longleftrightarrow> ct_maxBytes t = mx
     \<and> (\<forall>c. copy_conn_ok (ct_active t c) (ct_sizes t c) (ct_overflow t c))"

lemmas copy_op_defs = copy_Start_def copy_Data_def copy_Done_def copy_Fail_def copy_Discard_def
  copy_clear_def appendSegment_def

lemma copy_okD:
  assumes "copy_ok mx t"
  shows "ct_maxBytes t = mx" and "copy_conn_ok (ct_active t c) (ct_sizes t c) (ct_overflow t c)"
  using assms by (simp_all add: copy_ok_def)

lemma copy_step_view:
  assumes "copy_ok mx t"
  shows "copy_view (copy_step c op t) c' = (if c' = c then copy_lstep mx op (copy_view t c) else copy_view t c')"
  using copy_okD(1) [OF assms] copy_okD(2) [OF assms, of c]
  by (cases op; cases "ct_active t c"; cases "ct_overflow t c")
    (auto simp: copy_view_def copy_op_defs Let_def split: option.split)

lemma copy_step_ok:
  assumes "copy_ok mx t"
  shows "copy_ok mx (copy_step c op t)"
  unfolding copy_ok_def
proof (intro conjI allI)
  show "ct_maxBytes (copy_step c op t) = mx"
    using copy_okD(1) [OF assms] by (cases op) (auto simp: copy_op_defs Let_def split: option.split bool.split)
  fix c'
  let ?t = "copy_step c op t"
  show "copy_conn_ok (ct_active ?t c') (ct_sizes ?t c') (ct_overflow ?t c')"
    using copy_okD(2) [OF assms, of c'] copy_okD(2) [OF assms, of c]
    by (cases op; cases "c' = c"; cases "ct_active t c"; cases "ct_overflow t c")
      (auto simp: copy_op_defs Let_def seg_bytes_def)
qed

interpretation copies: conn_local copy_view copy_step "\<lambda>_. copy_lstep mx" "copy_ok mx" for mx
  by unfold_locales (simp_all add: copy_step_view copy_step_ok)

lemma copy_ok_new: "copy_ok (if mx \<le> 0 then DefaultMaxCopyBytes else mx) (NewCopyTrackerWithLimit mx)"
  by (simp add: copy_ok_def NewCopyTrackerWithLimit_def)

lemma seg_bytes_append [simp]: "seg_bytes (xs @ ys) = seg_bytes xs + seg_bytes ys"
  "seg_bytes [] = 0" "seg_bytes (x # xs) = int (length x) + seg_bytes xs" "0 \<le> seg_bytes xs"
  by (simp_all add: seg_bytes_def)

lemma overflow_stays: "fold (copy_lstep mx) (map CData segs) (Overflowed sql) = Overflowed sql"
  by (induction segs) simp_all

lemma copy_fold:
  "seg_bytes pre \<le> mx \<Longrightarrow> fold (copy_lstep mx) (map CData segs) (Copying sql pre)
     = (if seg_bytes pre + seg_bytes segs \<le> mx then Copying sql (pre @ segs) else Overflowed sql)"
proof (induction segs arbitrary: pre)
  case Nil
  then show ?case by simp
next
  case (Cons p segs)
  then show ?case
    using Cons.IH [of "pre @ [p]"]
    by (simp add: overflow_stays) (use seg_bytes_append(4) [of segs] in linarith)
qed

lemma copy_Done_view:
  "fst (copy_Done c t) = (case copy_view t c of Copying sql segs \<Rightarrow> Some (sql, segs) | _ \<Rightarrow> None)"
  by (auto simp: copy_Done_def copy_view_def split: option.splits bool.splits)

section \<open>Properties\<close>


definition conn_a :: ConnID where
  "conn_a = \<lparr>SrcIP = [10, 0, 0, 1], SrcPort = 40000, DstIP = [10, 0, 0, 2], DstPort = 5432\<rparr>"
definition conn_b :: ConnID where
  "conn_b = \<lparr>SrcIP = [10, 0, 0, 1], SrcPort = 40001, DstIP = [10, 0, 0, 2], DstPort = 5432\<rparr>"

lemma conn_ab: "conn_a \<noteq> conn_b" "conn_b \<noteq> conn_a" by (simp_all add: conn_a_def conn_b_def)


text \<open>
  C26: A COPY stream is assembled whole or not at all. Between the start of a COPY on a
  connection and its CopyDone, whatever happens on other connections, the tracker returns the
  COPY statement with all its data segments in order if they fit the limit together, and nothing
  if they do not; never a part.
\<close>

theorem copy_all_or_nothing:
  assumes "copy_ok mx t" and "0 \<le> mx"
    and "map snd (filter (\<lambda>(c', op). c' = c) ops) = CStart sql # map CData segs"
  shows "fst (copy_Done c (fold (\<lambda>(c, op). copy_step c op) ops t))
    = (if seg_bytes segs \<le> mx then Some (sql, segs) else None)"
  using copies.interleave [OF assms(1), of ops c] assms(2,3) copy_fold [of "[]" mx segs sql]
  by (simp add: copy_Done_view)

theorem copy_all_or_nothing_witness:
  "fst (copy_Done conn_a (fold (\<lambda>(c, op). copy_step c op)
      [(conn_a, CStart ''COPY t FROM STDIN''), (conn_b, CStart ''COPY u FROM STDIN''),
       (conn_a, CData [1, 2]), (conn_b, CFail), (conn_a, CData [3])] (NewCopyTrackerWithLimit 100)))
   = Some (''COPY t FROM STDIN'', [[1, 2], [3]])"
  using copy_all_or_nothing [OF copy_ok_new [of 100], of conn_a
      "[(conn_a, CStart ''COPY t FROM STDIN''), (conn_b, CStart ''COPY u FROM STDIN''),
        (conn_a, CData [1, 2]), (conn_b, CFail), (conn_a, CData [3])]" "''COPY t FROM STDIN''" "[[1, 2], [3]]"]
  by (simp add: conn_ab)

end
