(* ===== verification/Ring_Buffer.thy ===== *)
theory Ring_Buffer
  imports Event_Queue Trackers
begin

text \<open>
  The in-memory backend, \<^verbatim>\<open>src/pkg/queue/ringbuffer.go\<close>: a fixed array of slots with head, tail and
  count. Indices are natural numbers; the array is a list of the slots, \<open>None\<close> for nil. Each
  operation is the critical section up to the point where the caller returns or waits;
  \<open>rb_overflows\<close> counts the overflow notifications.
\<close>

section \<open>The buffer\<close>

record ringBuffer =
  rb_buf :: "SQLEvent option list"
  rb_capacity :: nat
  rb_head :: nat
  rb_tail :: nat
  rb_count :: nat
  rb_closed :: bool
  rb_overflow :: OverflowPolicy
  rb_overflows :: nat

definition newRingBuffer :: "nat \<Rightarrow> OverflowPolicy \<Rightarrow> ringBuffer" where
  "newRingBuffer cap pol = \<lparr>rb_buf = replicate cap None, rb_capacity = cap, rb_head = 0, rb_tail = 0,
     rb_count = 0, rb_closed = False, rb_overflow = pol, rb_overflows = 0\<rparr>"

definition rb_push :: "SQLEvent \<Rightarrow> ringBuffer \<Rightarrow> ringBuffer" where
  "rb_push ev r = r\<lparr>rb_buf := (rb_buf r)[rb_tail r := Some ev], rb_tail := (rb_tail r + 1) mod rb_capacity r,
     rb_count := rb_count r + 1\<rparr>"

definition recordOverflow :: "ringBuffer \<Rightarrow> ringBuffer" where
  "recordOverflow r = r\<lparr>rb_overflows := rb_overflows r + 1\<rparr>"

definition rb_Enqueue :: "SQLEvent \<Rightarrow> ringBuffer \<Rightarrow> bool option \<times> ringBuffer" where
  "rb_Enqueue ev r =
     (if rb_closed r then (Some False, r)
      else if rb_count r < rb_capacity r then (Some False, rb_push ev r)
      else case rb_overflow r of
        DropNewest \<Rightarrow> (Some True, recordOverflow r)
      | Block \<Rightarrow> (None, r)
      | DropOldest \<Rightarrow>
          let r = r\<lparr>rb_head := (rb_head r + 1) mod rb_capacity r, rb_count := rb_count r - 1\<rparr> in
          (Some True, recordOverflow (rb_push ev r)))"

definition rb_Dequeue :: "ringBuffer \<Rightarrow> (SQLEvent option \<times> ringBuffer) option" where
  "rb_Dequeue r =
     (if rb_count r = 0 then (if rb_closed r then Some (None, r) else None)
      else Some (rb_buf r ! rb_head r,
        r\<lparr>rb_buf := (rb_buf r)[rb_head r := None], rb_head := (rb_head r + 1) mod rb_capacity r,
          rb_count := rb_count r - 1\<rparr>))"

definition rb_Depth :: "ringBuffer \<Rightarrow> nat" where
  "rb_Depth r = rb_count r"

definition rb_Close :: "ringBuffer \<Rightarrow> ringBuffer" where
  "rb_Close r = (if rb_closed r then r else r\<lparr>rb_closed := True\<rparr>)"

section \<open>What the buffer holds\<close>

definition slot :: "ringBuffer \<Rightarrow> nat \<Rightarrow> SQLEvent option" where
  "slot r i = rb_buf r ! ((rb_head r + i) mod rb_capacity r)"

definition rb_items :: "ringBuffer \<Rightarrow> SQLEvent list" where
  "rb_items r = map (\<lambda>i. the (slot r i)) [0..<rb_count r]"

definition rb_abs :: "ringBuffer \<Rightarrow> aqueue" where
  "rb_abs r = (rb_items r, rb_closed r)"

text \<open>Exactly the slots from head to tail are taken.\<close>

definition rb_ok :: "nat \<Rightarrow> OverflowPolicy \<Rightarrow> ringBuffer \<Rightarrow> bool" where
  "rb_ok cap pol r \<longleftrightarrow> 0 < cap \<and> rb_capacity r = cap \<and> rb_overflow r = pol \<and> length (rb_buf r) = cap
     \<and> rb_head r < cap \<and> rb_count r \<le> cap \<and> rb_tail r = (rb_head r + rb_count r) mod cap
     \<and> (\<forall>i < cap. slot r i = None \<longleftrightarrow> rb_count r \<le> i)"

lemma rb_new: "0 < cap \<Longrightarrow> rb_ok cap pol (newRingBuffer cap pol) \<and> rb_abs (newRingBuffer cap pol) = ([], False)"
  by (simp add: rb_ok_def newRingBuffer_def slot_def rb_abs_def rb_items_def)

lemma ring_index_eq:
  assumes "i < cap" and "j < cap"
  shows "(h + i) mod cap = (h + j) mod cap \<longleftrightarrow> i = (j :: nat)"
proof -
  have "a = b" if "(h + a) mod cap = (h + b) mod cap" "a < cap" "b < cap" "a \<le> b" for a b
  proof -
    have "cap dvd (h + b) - (h + a)" using that mod_eq_dvd_iff_nat [of "h + a" "h + b" cap] by simp
    then show ?thesis using that by (auto dest: dvd_imp_le)
  qed
  from this [of i j] this [of j i] show ?thesis using assms by (metis nat_le_linear)
qed

lemma slot_push:
  assumes "rb_ok cap pol r" and "rb_count r < cap" and "i < cap"
  shows "slot (rb_push e r) i = (if i = rb_count r then Some e else slot r i)"
  using assms ring_index_eq [of i cap "rb_count r" "rb_head r"]
  by (auto simp: slot_def rb_push_def rb_ok_def nth_list_update)

lemma push_ok:
  assumes "rb_ok cap pol r" and "rb_count r < cap"
  shows "rb_ok cap pol (rb_push e r)" and "rb_items (rb_push e r) = rb_items r @ [e]"
proof -
  show "rb_items (rb_push e r) = rb_items r @ [e]"
    using slot_push [OF assms] assms(2) by (simp add: rb_items_def) (simp add: rb_push_def)
  have "\<forall>i < cap. slot (rb_push e r) i = None \<longleftrightarrow> rb_count (rb_push e r) \<le> i"
    using slot_push [OF assms] assms by (auto simp: rb_ok_def rb_push_def)
  then show "rb_ok cap pol (rb_push e r)"
    using assms by (auto simp: rb_ok_def rb_push_def mod_Suc_eq)
qed

text \<open>Taking the head slot out.\<close>

definition rb_pop :: "ringBuffer \<Rightarrow> ringBuffer" where
  "rb_pop r = r\<lparr>rb_buf := (rb_buf r)[rb_head r := None], rb_head := (rb_head r + 1) mod rb_capacity r,
     rb_count := rb_count r - 1\<rparr>"

lemma slot_pop:
  assumes "rb_ok cap pol r" and "i < cap"
  shows "slot (rb_pop r) i = (if Suc i = cap then None else slot r (Suc i))"
proof -
  have cap: "rb_capacity r = cap" "rb_head r < cap" "length (rb_buf r) = cap" using assms by (simp_all add: rb_ok_def)
  have idx: "((rb_head r + 1) mod cap + i) mod cap = (rb_head r + Suc i) mod cap" by (simp add: mod_add_left_eq)
  show ?thesis
  proof (cases "Suc i = cap")
    case True
    then have "(rb_head r + Suc i) mod cap = rb_head r" using cap by simp
    then show ?thesis using True cap idx by (simp add: slot_def rb_pop_def)
  next
    case False
    then have "(rb_head r + Suc i) mod cap \<noteq> (rb_head r + 0) mod cap"
      using assms(2) ring_index_eq [of "Suc i" cap 0 "rb_head r"] by simp
    then have "rb_head r \<noteq> (rb_head r + Suc i) mod cap" using cap by simp
    then show ?thesis using False cap idx by (simp add: slot_def rb_pop_def)
  qed
qed

lemma pop_ok:
  assumes "rb_ok cap pol r" and "0 < rb_count r"
  shows "rb_ok cap pol (rb_pop r)" and "rb_items r = the (slot r 0) # rb_items (rb_pop r)"
    and "slot r 0 = Some (hd (rb_items r))"
proof -
  obtain n where n: "rb_count r = Suc n" "Suc n \<le> cap" using assms by (cases "rb_count r") (auto simp: rb_ok_def)
  have slots: "\<forall>i < cap. slot (rb_pop r) i = None \<longleftrightarrow> n \<le> i"
    using slot_pop [OF assms(1)] assms(1) n by (auto simp: rb_ok_def)
  have "(rb_head r + Suc n) mod cap = ((rb_head r + 1) mod cap + n) mod cap" by (simp add: mod_add_left_eq)
  then show "rb_ok cap pol (rb_pop r)"
    using assms(1) n slots by (simp add: rb_ok_def) (simp add: rb_pop_def)
  have "slot (rb_pop r) i = slot r (Suc i)" if "i < n" for i using slot_pop [OF assms(1), of i] that n by simp
  then have "rb_items (rb_pop r) = map (\<lambda>i. the (slot r (Suc i))) [0..<n]"
    using n by (auto simp: rb_items_def rb_pop_def [of r])
  moreover have "[0..<Suc n] = 0 # map Suc [0..<n]" by (simp add: map_Suc_upt upt_conv_Cons del: upt_Suc)
  ultimately show "rb_items r = the (slot r 0) # rb_items (rb_pop r)"
    using n by (simp add: rb_items_def [of r] del: upt_Suc)
  then show "slot r 0 = Some (hd (rb_items r))" using assms(1) n by (auto simp: rb_ok_def)
qed

lemma evict_push:
  assumes "rb_ok cap pol r" and "rb_count r = cap"
  shows "rb_push e (r\<lparr>rb_head := (rb_head r + 1) mod rb_capacity r, rb_count := rb_count r - 1\<rparr>) = rb_push e (rb_pop r)"
  using assms by (simp add: rb_push_def rb_pop_def rb_ok_def)

lemma overflow_ok [simp]:
  "rb_ok cap pol (recordOverflow r) = rb_ok cap pol r" "rb_abs (recordOverflow r) = rb_abs r"
  by (simp_all add: rb_ok_def rb_abs_def rb_items_def slot_def recordOverflow_def)

lemma items_length [simp]: "length (rb_items r) = rb_count r"
  by (simp add: rb_items_def)

lemma rb_enqueue_refines:
  assumes "rb_ok cap pol r"
  shows "map_prod id rb_abs (rb_Enqueue e r) = aq_Enqueue cap pol e (rb_abs r)"
    and "rb_ok cap pol (snd (rb_Enqueue e r))"
proof -
  have fixed: "rb_capacity r = cap" "rb_overflow r = pol" "0 < cap" "rb_count r \<le> cap" using assms by (simp_all add: rb_ok_def)
  have ab: "rb_abs s = (rb_items s, rb_closed s)" for s by (simp add: rb_abs_def)
  have cl: "rb_closed (rb_push e s) = rb_closed s" "rb_closed (rb_pop s) = rb_closed s" for s
    by (simp_all add: rb_push_def rb_pop_def)
  have room: "rb_ok cap pol (rb_push e r)" "rb_items (rb_push e r) = rb_items r @ [e]" if "rb_count r < cap"
    using push_ok [OF assms that] by simp_all
  have full: "rb_ok cap pol (rb_push e (rb_pop r))" "rb_items (rb_push e (rb_pop r)) = tl (rb_items r) @ [e]"
    if "rb_count r = cap"
  proof -
    have "0 < rb_count r" using that fixed by simp
    note p = pop_ok [OF assms this]
    have "rb_count (rb_pop r) < cap" using that fixed by (simp add: rb_pop_def)
    with p push_ok [OF p(1) this] show "rb_ok cap pol (rb_push e (rb_pop r))"
      "rb_items (rb_push e (rb_pop r)) = tl (rb_items r) @ [e]" by (simp_all, metis list.sel(3))
  qed
  have enq: "rb_Enqueue e r = (if rb_closed r then (Some False, r) else if rb_count r < cap then (Some False, rb_push e r)
      else case pol of DropNewest \<Rightarrow> (Some True, recordOverflow r) | Block \<Rightarrow> (None, r)
        | DropOldest \<Rightarrow> (Some True, recordOverflow (rb_push e (rb_pop r))))"
    using fixed evict_push [OF assms] by (auto simp: rb_Enqueue_def Let_def split: OverflowPolicy.split)
  have is_full: "rb_count r = cap" if "\<not> rb_count r < cap" using that fixed by simp
  show "map_prod id rb_abs (rb_Enqueue e r) = aq_Enqueue cap pol e (rb_abs r)"
    using room(2) full(2) [OF is_full] by (simp add: enq ab cl overflow_ok(2) [unfolded ab] split: OverflowPolicy.split)
  show "rb_ok cap pol (snd (rb_Enqueue e r))"
    using assms room(1) full(1) [OF is_full] by (auto simp: enq split: if_splits OverflowPolicy.splits)
qed

lemma rb_dequeue_refines:
  assumes "rb_ok cap pol r"
  shows "map_option (map_prod id rb_abs) (rb_Dequeue r) = aq_Dequeue (rb_abs r)"
    and "rb_Dequeue r = Some (x, r') \<Longrightarrow> rb_ok cap pol r'"
proof -
  have deq: "rb_Dequeue r = (if rb_count r = 0 then (if rb_closed r then Some (None, r) else None)
      else Some (slot r 0, rb_pop r))"
    using assms by (simp add: rb_Dequeue_def slot_def rb_pop_def rb_ok_def)
  show "map_option (map_prod id rb_abs) (rb_Dequeue r) = aq_Dequeue (rb_abs r)"
  proof (cases "rb_count r = 0")
    case True
    then show ?thesis by (simp add: deq rb_abs_def rb_items_def)
  next
    case False
    then have "0 < rb_count r" by simp
    note p = pop_ok [OF assms this]
    obtain y ys where y: "rb_items r = y # ys" using p(2) by blast
    with p have "rb_items (rb_pop r) = ys" "slot r 0 = Some y" by simp_all
    then show ?thesis using False y by (simp add: deq rb_abs_def rb_pop_def [of r] del: items_length)
  qed
  show "rb_ok cap pol r'" if "rb_Dequeue r = Some (x, r')"
    using that assms pop_ok(1) [OF assms] by (auto simp: deq split: if_splits)
qed

lemma rb_close_refines:
  "rb_abs (rb_Close r) = aq_Close (rb_abs r)" "rb_ok cap pol r \<Longrightarrow> rb_ok cap pol (rb_Close r)"
  by (simp add: rb_Close_def rb_abs_def rb_items_def slot_def) (auto simp: rb_Close_def slot_def rb_ok_def)

interpretation ring: queue_backend rb_abs "rb_ok cap pol" rb_Enqueue rb_Dequeue rb_Close id "\<lambda>_. True" cap pol
  for cap pol
proof (unfold_locales, goal_cases)
  case 1 then show ?case by (simp add: rb_ok_def)
next
  case (2 r e) then show ?case using rb_enqueue_refines(1) by simp
next
  case (3 r e) then show ?case using rb_enqueue_refines(2) by blast
next
  case (4 r) then show ?case using rb_dequeue_refines(1) by simp
next
  case (5 r x r') then show ?case using rb_dequeue_refines(2) by blast
next
  case (6 r) then show ?case using rb_close_refines(1) by simp
next
  case (7 r) then show ?case using rb_close_refines(2) by blast
qed

lemma capacity_pos: "0 < queue_capacity c"
  by (simp add: queue_capacity_def DefaultCapacity_def)

lemma map_op_id [simp]: "map_op id = id"
proof
  fix op show "map_op id op = id op" by (cases op) simp_all
qed

abbreviation ring_step :: "q_op \<Rightarrow> ringBuffer \<Rightarrow> ringBuffer q_result" where
  "ring_step \<equiv> backend_step rb_Enqueue rb_Dequeue rb_Close"

lemma all_accepted: "list_all (op_accepted (\<lambda>_. True)) ops"
proof -
  have "op_accepted (\<lambda>_. True) op" for op by (cases op) simp_all
  then show ?thesis by (simp add: list_all_iff)
qed

section \<open>Properties\<close>

text \<open>
  C12: the ring buffer implements the bounded queue: over any sequence of operations it delivers
  the same events, reports the same drops and ends holding the same events as the abstract queue
  of its capacity and policy, and exactly its live slots are occupied.
\<close>

theorem ring_refines:
  "case q_run ring_step ops (newRingBuffer (queue_capacity c) pol) of (out, n, r) \<Rightarrow>
     q_run (aq_step (queue_capacity c) pol) ops ([], False) = (out, n, rb_abs r)
     \<and> rb_ok (queue_capacity c) pol r"
proof -
  obtain out n r where q: "q_run ring_step ops (newRingBuffer (queue_capacity c) pol) = (out, n, r)" by (metis surj_pair)
  note new = rb_new [OF capacity_pos [of c], of pol]
  show ?thesis
    using ring.run_refines [OF conjunct1 [OF new] all_accepted q] new by (simp add: q)
qed

text \<open>
  C13: events leave the ring buffer in the order they were admitted: what it delivered followed by
  what it holds is a subsequence of the admitted events, for every connection too; every missing
  event was reported as dropped; and never more than the capacity is held.
\<close>

theorem ring_fifo:
  "case q_run ring_step ops (newRingBuffer (queue_capacity c) pol) of (out, n, r) \<Rightarrow>
     let stream = admitted_all (queue_capacity c) pol ops ([], False) in
     subseq (out @ rb_items r) stream
     \<and> subseq (filter (\<lambda>e. Conn e = conn) out) (filter (\<lambda>e. Conn e = conn) stream)
     \<and> length stream = length out + rb_Depth r + n \<and> rb_Depth r \<le> queue_capacity c"
proof -
  obtain out n r where q: "q_run ring_step ops (newRingBuffer (queue_capacity c) pol) = (out, n, r)" by (metis surj_pair)
  note new = rb_new [OF capacity_pos [of c], of pol]
  let ?stream = "admitted_all (queue_capacity c) pol ops ([], False)"
  have f: "subseq (out @ rb_items r) ?stream" "length out + rb_count r + n = length ?stream" "rb_count r \<le> queue_capacity c"
    using ring.run_fifo [OF conjunct1 [OF new] all_accepted q] new
    by (simp_all add: rb_abs_def, simp_all add: newRingBuffer_def)
  have "subseq out (out @ rb_items r)" by (rule prefix_imp_subseq) simp
  with f(1) have "subseq out ?stream" by (meson subseq_order.trans)
  then have "subseq (filter (\<lambda>e. Conn e = conn) out) (filter (\<lambda>e. Conn e = conn) ?stream)" by (rule subseq_filter)
  with f show ?thesis by (simp add: q rb_Depth_def Let_def)
qed

end
