(* ===== verification/Event_Codec.thy ===== *)
theory Event_Codec
  imports Trackers
begin

text \<open>
  The binary event codec of the file queue, \<^verbatim>\<open>src/pkg/queue/filequeue_codec.go\<close>. The decoder's
  offset into the payload is the bytes that remain. Its \<^verbatim>\<open>need\<close> check is \<open>ShortRead\<close>; the slice
  of sixteen address bytes it does not check is \<open>Panic\<close> when it exceeds the payload. Lengths are
  truncated to 32 bits on encoding, as in the code.
\<close>

section \<open>Encoding\<close>

definition put_addr :: "addr \<Rightarrow> bytes" where
  "put_addr a = (if length a = 4 then 4 # a else 16 # (if length a = 16 then a else replicate 16 0))"

definition put_blob :: "bytes \<Rightarrow> bytes" where
  "put_blob bs = le_put (of_nat (length bs) :: u32) @ bs"

definition value_bytes :: "bytes option \<Rightarrow> bytes" where
  "value_bytes v = (case v of None \<Rightarrow> [] | Some bs \<Rightarrow> bs)"

definition put_param :: "ParamInfo \<Rightarrow> bytes" where
  "put_param p = le_put (OID p) @ le_put (Format p) @ put_blob (value_bytes (Value p))"

definition estimateEventSize :: "SQLEvent \<Rightarrow> nat" where
  "estimateEventSize ev = 1 + 16 + 2 + 1 + 16 + 2 + (4 + length (SQL ev)) + (8 + 8 + 8 + 1)
     + (4 + length (StmtName ev)) + 4
     + sum_list (map (\<lambda>p. 4 + 2 + 4 + length (value_bytes (Value p))) (Params ev)) + 4
     + sum_list (map (\<lambda>chunk. 4 + length chunk) (CopyData ev)) + 8"

definition encodeBinary :: "SQLEvent \<Rightarrow> bytes" where
  "encodeBinary ev =
     put_addr (SrcIP (Conn ev)) @ le_put (SrcPort (Conn ev))
     @ put_addr (DstIP (Conn ev)) @ le_put (DstPort (Conn ev))
     @ put_blob (of_string (SQL ev))
     @ le_put (of_int (Timestamp ev) :: u64)
     @ le_put (TxID ev) @ le_put (Seq ev)
     @ [if Extended ev then 1 else 0]
     @ put_blob (of_string (StmtName ev))
     @ le_put (of_nat (length (Params ev)) :: u32) @ concat (map put_param (Params ev))
     @ le_put (of_nat (length (CopyData ev)) :: u32) @ concat (map put_blob (CopyData ev))
     @ le_put (of_int (SourceExecTime ev) :: u64)"

section \<open>Decoding\<close>

datatype codec_error = EmptyPayload | ShortRead | Panic

type_synonym 'a parsed = "codec_error + ('a \<times> bytes)"

definition andThen :: "'a parsed \<Rightarrow> ('a \<Rightarrow> bytes \<Rightarrow> codec_error + 'b) \<Rightarrow> codec_error + 'b" where
  "andThen r k = (case r of Inl e \<Rightarrow> Inl e | Inr (x, b) \<Rightarrow> k x b)"

definition need :: "nat \<Rightarrow> bytes \<Rightarrow> bytes parsed" where
  "need n b = (if length b < n then Inl ShortRead else Inr (take n b, drop n b))"

definition get_word :: "bytes \<Rightarrow> 'a::len word parsed" where
  "get_word b = andThen (need (LENGTH('a) div 8) b) (\<lambda>w b. Inr (le_get w, b))"

definition get_blob :: "bytes \<Rightarrow> bytes parsed" where
  "get_blob b = andThen (get_word b) (\<lambda>n. need (unat (n :: u32)))"

definition get_addr :: "bytes \<Rightarrow> addr parsed" where
  "get_addr b = andThen (need 1 b) (\<lambda>l b. let n = unat (hd l) in
     andThen (need n b) (\<lambda>a rest.
       if n = 4 then Inr (a, rest)
       else if length b < 16 then Inl Panic
       else Inr (take 16 b, rest)))"

fun get_params :: "nat \<Rightarrow> bytes \<Rightarrow> ParamInfo list parsed" where
  "get_params 0 b = Inr ([], b)"
| "get_params (Suc n) b = andThen (need 10 b) (\<lambda>h b.
     andThen (need (unat (le_get (drop 6 h) :: u32)) b) (\<lambda>v b.
     andThen (get_params n b) (\<lambda>ps b.
       Inr (\<lparr>OID = le_get (take 4 h), Value = (if v = [] then None else Some v),
             Format = le_get (take 2 (drop 4 h))\<rparr> # ps, b))))"

fun get_chunks :: "nat \<Rightarrow> bytes \<Rightarrow> bytes list parsed" where
  "get_chunks 0 b = Inr ([], b)"
| "get_chunks (Suc n) b = andThen (get_blob b) (\<lambda>c b. andThen (get_chunks n b) (\<lambda>cs b. Inr (c # cs, b)))"

definition decodeBinary :: "bytes \<Rightarrow> codec_error + SQLEvent" where
  "decodeBinary data = (if length data < 1 then Inl EmptyPayload else
     andThen (get_addr data) (\<lambda>srcIP b.
     andThen (get_word b) (\<lambda>srcPort b.
     andThen (get_addr b) (\<lambda>dstIP b.
     andThen (get_word b) (\<lambda>dstPort b.
     andThen (get_blob b) (\<lambda>sql b.
     andThen (get_word b) (\<lambda>ts b.
     andThen (need 16 b) (\<lambda>ids b.
     andThen (need 1 b) (\<lambda>ext b.
     andThen (get_blob b) (\<lambda>stmt b.
     andThen (get_word b) (\<lambda>paramCount b.
     andThen (get_params (unat (paramCount :: u32)) b) (\<lambda>params b.
     andThen (get_word b) (\<lambda>copyCount b.
     andThen (get_chunks (unat (copyCount :: u32)) b) (\<lambda>chunks b.
     andThen (get_word b) (\<lambda>exec b.
       Inr \<lparr>Conn = \<lparr>SrcIP = srcIP, SrcPort = srcPort, DstIP = dstIP, DstPort = dstPort\<rparr>,
            SQL = to_string sql, Timestamp = sint (ts :: u64),
            TxID = le_get (take 8 ids), Seq = le_get (drop 8 ids), Extended = (hd ext = 1),
            StmtName = to_string stmt, Params = params, CopyData = chunks,
            SourceExecTime = sint (exec :: u64), User = ''''\<rparr>)))))))))))))))"

section \<open>Decoding inverts encoding\<close>

lemma andThen_simps [simp]: "andThen (Inl e) k = Inl e" "andThen (Inr (x, b)) k = k x b"
  by (simp_all add: andThen_def)

lemma need_append [simp]: "n = length xs \<Longrightarrow> need n (xs @ b) = Inr (xs, b)"
  by (simp add: need_def)

lemma get_word_put [simp]: "8 dvd LENGTH('a) \<Longrightarrow> get_word (le_put (w :: 'a::len word) @ b) = Inr (w, b)"
  by (simp add: get_word_def le_get_put)

lemma get_blob_put: "length bs < 2 ^ 32 \<Longrightarrow> get_blob (put_blob bs @ b) = Inr (bs, b)"
  by (simp add: get_blob_def put_blob_def unat_of_nat)

definition addr_ok :: "addr \<Rightarrow> bool" where
  "addr_ok a \<longleftrightarrow> length a = 4 \<or> length a = 16"

lemma get_addr_put: "addr_ok a \<Longrightarrow> get_addr (put_addr a @ b) = Inr (a, b)"
  by (auto simp: addr_ok_def get_addr_def put_addr_def need_def Let_def)

text \<open>What the codec keeps of a parameter and of an event.\<close>

definition canonical_param :: "ParamInfo \<Rightarrow> ParamInfo" where
  "canonical_param p = p\<lparr>Value := (if value_bytes (Value p) = [] then None else Value p)\<rparr>"

definition canonical :: "SQLEvent \<Rightarrow> SQLEvent" where
  "canonical ev = ev\<lparr>Params := map canonical_param (Params ev), User := ''''\<rparr>"

definition int64_ok :: "int \<Rightarrow> bool" where
  "int64_ok i \<longleftrightarrow> - (2 ^ 63) \<le> i \<and> i < 2 ^ 63"

definition encodable :: "SQLEvent \<Rightarrow> bool" where
  "encodable ev \<longleftrightarrow> addr_ok (SrcIP (Conn ev)) \<and> addr_ok (DstIP (Conn ev))
     \<and> length (SQL ev) < 2 ^ 32 \<and> length (StmtName ev) < 2 ^ 32
     \<and> length (Params ev) < 2 ^ 32 \<and> length (CopyData ev) < 2 ^ 32
     \<and> list_all (\<lambda>p. length (value_bytes (Value p)) < 2 ^ 32) (Params ev)
     \<and> list_all (\<lambda>c. length c < 2 ^ 32) (CopyData ev)
     \<and> int64_ok (Timestamp ev) \<and> int64_ok (SourceExecTime ev)"

lemma sint_of_int64: "int64_ok i \<Longrightarrow> sint (of_int i :: u64) = i"
  by (simp add: int64_ok_def signed_of_int signed_take_bit_int_eq_self)

lemma get_params_put:
  "list_all (\<lambda>p. length (value_bytes (Value p)) < 2 ^ 32) ps \<Longrightarrow>
     get_params (length ps) (concat (map put_param ps) @ b) = Inr (map canonical_param ps, b)"
proof (induction ps)
  case (Cons p ps)
  let ?v = "value_bytes (Value p)"
  let ?h = "le_put (OID p) @ le_put (Format p) @ le_put (of_nat (length ?v) :: u32)"
  have h: "take 4 ?h = le_put (OID p)" "take 2 (drop 4 ?h) = le_put (Format p)"
    "drop 6 ?h = le_put (of_nat (length ?v) :: u32)" "length ?h = 10" by simp_all
  have c: "concat (map put_param (p # ps)) @ b = ?h @ ?v @ concat (map put_param ps) @ b"
    by (simp add: put_param_def put_blob_def)
  have "get_params (length (p # ps)) (concat (map put_param (p # ps)) @ b)
      = Inr (\<lparr>OID = OID p, Value = (if ?v = [] then None else Some ?v), Format = Format p\<rparr> # map canonical_param ps, b)"
    unfolding c using Cons h by (simp add: need_append [of 10 ?h, unfolded append_assoc] le_get_put unat_of_nat)
  then show ?case by (cases p; cases "Value p") (simp_all add: canonical_param_def value_bytes_def)
qed simp

lemma get_chunks_put:
  "list_all (\<lambda>c. length c < 2 ^ 32) cs \<Longrightarrow> get_chunks (length cs) (concat (map put_blob cs) @ b) = Inr (cs, b)"
  by (induction cs) (simp_all add: get_blob_put)

lemma decode_encode:
  assumes "encodable ev"
  shows "decodeBinary (encodeBinary ev @ rest) = Inr (canonical ev)"
proof -
  have ids: "take 8 (le_put (TxID ev) @ le_put (Seq ev)) = le_put (TxID ev)"
    "drop 8 (le_put (TxID ev) @ le_put (Seq ev)) = le_put (Seq ev)" by simp_all
  have n16: "need 16 (le_put (TxID ev) @ le_put (Seq ev) @ b) = Inr (le_put (TxID ev) @ le_put (Seq ev), b)" for b
    using need_append [of 16 "le_put (TxID ev) @ le_put (Seq ev)" b] by simp
  have n1: "need (Suc 0) (x # b) = Inr ([x], b)" for x b by (simp add: need_def)
  have ne: "\<not> length (encodeBinary ev @ rest) < 1" by (simp add: encodeBinary_def put_addr_def)
  show ?thesis
    using assms
    unfolding decodeBinary_def if_not_P [OF ne] encodable_def
    unfolding encodeBinary_def append_assoc
    by (simp add: get_addr_put get_blob_put n16 n1 ids le_get_put get_params_put get_chunks_put sint_of_int64
        unat_of_nat canonical_def)
qed

section \<open>Properties\<close>

text \<open>
  C29: what the file queue writes it reads back: an event whose addresses are four or sixteen bytes
  and whose lengths and times fit their fields decodes to itself, up to the user name, which is
  not stored, and empty parameter values, which become NULL.
\<close>

theorem codec_roundtrip:
  assumes "encodable ev"
  shows "decodeBinary (encodeBinary ev) = Inr (canonical ev)"
  using decode_encode [OF assms, of "[]"] by simp

definition sample_event :: SQLEvent where
  "sample_event = (zero_event conn_a)\<lparr>SQL := ''q'', Extended := True, Seq := 3,
     Params := [\<lparr>OID = 25, Value = Some [], Format = 0\<rparr>], CopyData := [[1, 2], []]\<rparr>"

theorem codec_roundtrip_witness:
  "decodeBinary (encodeBinary sample_event)
     = Inr (sample_event\<lparr>Params := [\<lparr>OID = 25, Value = None, Format = 0\<rparr>]\<rparr>)"
proof -
  have "encodable sample_event"
    by (simp add: encodable_def sample_event_def zero_event_def conn_a_def addr_ok_def int64_ok_def value_bytes_def)
  from codec_roundtrip [OF this] show ?thesis
    by (simp add: canonical_def canonical_param_def sample_event_def zero_event_def value_bytes_def)
qed

text \<open>
  The size estimate is enough: the encoder never grows its buffer.
\<close>

theorem estimate_enough: "length (encodeBinary ev) \<le> estimateEventSize ev"
proof -
  have addr: "length (put_addr a) \<le> 17" for a by (simp add: put_addr_def)
  have params: "length (concat (map put_param ps)) = sum_list (map (\<lambda>p. 4 + 2 + 4 + length (value_bytes (Value p))) ps)" for ps
    by (induction ps) (simp_all add: put_param_def put_blob_def)
  have chunks: "length (concat (map put_blob cs)) = sum_list (map (\<lambda>c. 4 + length c) cs)" for cs
    by (induction cs) (simp_all add: put_blob_def)
  show ?thesis
    using addr [of "SrcIP (Conn ev)"] addr [of "DstIP (Conn ev)"]
    unfolding encodeBinary_def estimateEventSize_def length_append params chunks
    by (simp add: put_blob_def)
qed

text \<open>
  An empty parameter value is stored as NULL: a Bind of the empty string and a Bind of NULL
  have the same encoding, so the replay of the one is the replay of the other.
\<close>

theorem codec_empty_is_null:
  "encodeBinary (ev\<lparr>Params := ps @ \<lparr>OID = i, Value = Some [], Format = fm\<rparr> # ps'\<rparr>)
     = encodeBinary (ev\<lparr>Params := ps @ \<lparr>OID = i, Value = None, Format = fm\<rparr> # ps'\<rparr>)"
  by (simp add: encodeBinary_def put_param_def value_bytes_def)

text \<open>
  A damaged record can crash the reader: an address length other than 4 passes the bounds
  check, but sixteen bytes are sliced whatever it was, so a short payload panics.
\<close>

theorem codec_panics:
  assumes "unat n \<noteq> 4" and "unat n \<le> length b" and "length b < 16"
  shows "decodeBinary (n # b) = Inl Panic"
proof -
  have "get_addr (n # b) = Inl Panic" using assms by (simp add: get_addr_def need_def)
  then show ?thesis by (simp add: decodeBinary_def)
qed

theorem codec_panics_witness: "decodeBinary [5, 1, 2, 3, 4, 5, 6, 7] = Inl Panic"
  by (rule codec_panics) simp_all

end
