(* ===== verification/File_Queue.thy ===== *)
theory File_Queue
  imports Ring_Buffer Event_Codec
begin

text \<open>
  The on-disk backend, \<^verbatim>\<open>src/pkg/queue/filequeue.go\<close>: a log of length-prefixed records with a read
  cursor. The file is a parameter: its operations with what a reliable file promises of them.
  The encode buffer is shared by all callers, so the backing arrays are a list and a payload is
  an address and a length; the write buffer is private to a call and has no counterpart.
\<close>

section \<open>State\<close>

record 'f file_ops =
  WriteAt :: "bytes \<Rightarrow> nat \<Rightarrow> 'f \<Rightarrow> bool \<times> 'f"
  ReadAt :: "nat \<Rightarrow> nat \<Rightarrow> 'f \<Rightarrow> bytes option"
  Truncate :: "'f \<Rightarrow> 'f"

definition frameHeaderLen :: nat where "frameHeaderLen = 4"
definition maxFramePayload :: nat where "maxFramePayload = 64 * 2 ^ 20"

record 'f fileQueue =
  fq_f :: "'f option"
  fq_capacity :: nat
  fq_overflow :: OverflowPolicy
  fq_closed :: bool
  fq_writeOff :: nat
  fq_readOff :: nat
  fq_count :: nat
  fq_arrays :: "bytes list"
  fq_encodeBuf :: "nat option"
  fq_overflows :: nat

definition newFileQueueWithFile :: "'f \<Rightarrow> nat \<Rightarrow> OverflowPolicy \<Rightarrow> 'f fileQueue" where
  "newFileQueueWithFile f cap pol = \<lparr>fq_f = Some f, fq_capacity = cap, fq_overflow = pol, fq_closed = False,
     fq_writeOff = 0, fq_readOff = 0, fq_count = 0, fq_arrays = [], fq_encodeBuf = None, fq_overflows = 0\<rparr>"

definition fq_recordOverflow :: "'f fileQueue \<Rightarrow> 'f fileQueue" where
  "fq_recordOverflow q = q\<lparr>fq_overflows := fq_overflows q + 1\<rparr>"

section \<open>The log\<close>

definition writeRecord :: "'f file_ops \<Rightarrow> bytes \<Rightarrow> 'f fileQueue \<Rightarrow> bool \<times> 'f fileQueue" where
  "writeRecord ops payload q = (case fq_f q of
       None \<Rightarrow> (False, q)
     | Some f \<Rightarrow>
         case WriteAt ops (be_put (of_nat (length payload) :: u32) @ payload) (fq_writeOff q) f of (ok, f) \<Rightarrow>
           if ok then (True, q\<lparr>fq_f := Some f, fq_writeOff := fq_writeOff q + (frameHeaderLen + length payload)\<rparr>)
           else (False, q\<lparr>fq_f := Some f\<rparr>))"

definition read_file :: "'f file_ops \<Rightarrow> nat \<Rightarrow> nat \<Rightarrow> 'f fileQueue \<Rightarrow> bytes option" where
  "read_file ops n off q = (case fq_f q of None \<Rightarrow> None | Some f \<Rightarrow> ReadAt ops n off f)"

definition readLenAt :: "'f file_ops \<Rightarrow> nat \<Rightarrow> 'f fileQueue \<Rightarrow> u32 option" where
  "readLenAt ops off q = map_option be_get (read_file ops frameHeaderLen off q)"

definition releaseLocked :: "'f fileQueue \<Rightarrow> 'f fileQueue" where
  "releaseLocked q = q\<lparr>fq_f := None\<rparr>"

definition compactIfDrained :: "'f file_ops \<Rightarrow> 'f fileQueue \<Rightarrow> 'f fileQueue" where
  "compactIfDrained ops q =
     (if fq_count q \<noteq> 0 then q
      else if fq_closed q then releaseLocked q
      else q\<lparr>fq_readOff := 0, fq_writeOff := 0, fq_f := map_option (Truncate ops) (fq_f q)\<rparr>)"

text \<open>The read cursor moved past the record at it.\<close>

definition skip_record :: "nat \<Rightarrow> 'f fileQueue \<Rightarrow> 'f fileQueue" where
  "skip_record n q = q\<lparr>fq_readOff := fq_readOff q + n, fq_count := fq_count q - 1\<rparr>"

definition fq_dropOldest :: "'f file_ops \<Rightarrow> 'f fileQueue \<Rightarrow> bool \<times> 'f fileQueue" where
  "fq_dropOldest ops q = (case readLenAt ops (fq_readOff q) q of
       None \<Rightarrow> (False, q)
     | Some n \<Rightarrow> (True, compactIfDrained ops (skip_record (frameHeaderLen + unat n) q)))"

section \<open>Enqueue\<close>

text \<open>The encoder writes into the shared buffer when it is large enough, else into a new one.\<close>

definition encode_into :: "SQLEvent \<Rightarrow> 'f fileQueue \<Rightarrow> (nat \<times> nat) \<times> 'f fileQueue" where
  "encode_into ev q =
     (let p = encodeBinary ev; sz = estimateEventSize ev;
          fresh = ((length (fq_arrays q), length p),
            q\<lparr>fq_arrays := fq_arrays q @ [p @ replicate (sz - length p) 0],
              fq_encodeBuf := Some (length (fq_arrays q))\<rparr>) in
      case fq_encodeBuf q of
        None \<Rightarrow> fresh
      | Some a \<Rightarrow>
          if sz \<le> length (fq_arrays q ! a)
          then ((a, length p), q\<lparr>fq_arrays := (fq_arrays q)[a := p @ drop (length p) (fq_arrays q ! a)]\<rparr>)
          else fresh)"

definition payload_bytes :: "nat \<times> nat \<Rightarrow> 'f fileQueue \<Rightarrow> bytes" where
  "payload_bytes pl q = take (snd pl) (fq_arrays q ! fst pl)"

definition fq_write :: "'f file_ops \<Rightarrow> nat \<times> nat \<Rightarrow> 'f fileQueue \<Rightarrow> bool option \<times> 'f fileQueue" where
  "fq_write ops pl q = (case writeRecord ops (payload_bytes pl q) q of
       (True, q) \<Rightarrow> (Some False, q\<lparr>fq_count := fq_count q + 1\<rparr>)
     | (False, q) \<Rightarrow> (Some True, fq_recordOverflow q))"

definition fq_replace :: "'f file_ops \<Rightarrow> nat \<times> nat \<Rightarrow> 'f fileQueue \<Rightarrow> bool option \<times> 'f fileQueue" where
  "fq_replace ops pl q = (case fq_dropOldest ops q of
       (False, q) \<Rightarrow> (Some True, q)
     | (True, q) \<Rightarrow> (case writeRecord ops (payload_bytes pl q) q of
         (True, q) \<Rightarrow> (Some True, fq_recordOverflow (q\<lparr>fq_count := fq_count q + 1\<rparr>))
       | (False, q) \<Rightarrow> (Some True, fq_recordOverflow q)))"

definition fq_Enqueue :: "'f file_ops \<Rightarrow> SQLEvent \<Rightarrow> 'f fileQueue \<Rightarrow> bool option \<times> 'f fileQueue" where
  "fq_Enqueue ops ev q =
     (if fq_closed q then (Some False, q)
      else let (pl, q) = encode_into ev q in
        if fq_count q < fq_capacity q then fq_write ops pl q
        else case fq_overflow q of
          DropNewest \<Rightarrow> (Some True, fq_recordOverflow q)
        | Block \<Rightarrow> (None, q)
        | DropOldest \<Rightarrow> fq_replace ops pl q)"

text \<open>A producer that waited, woken with the payload it had encoded.\<close>

definition fq_resume :: "'f file_ops \<Rightarrow> nat \<times> nat \<Rightarrow> 'f fileQueue \<Rightarrow> bool option \<times> 'f fileQueue" where
  "fq_resume ops pl q =
     (if fq_count q = fq_capacity q \<and> \<not> fq_closed q then (None, q)
      else if fq_closed q then (Some False, q)
      else fq_write ops pl q)"

section \<open>Dequeue\<close>

datatype 's deq_outcome = DWait | DReturn "SQLEvent option" 's | DPanic

text \<open>The loop over the records: damaged ones are skipped.\<close>

function fq_scan :: "'f file_ops \<Rightarrow> 'f fileQueue \<Rightarrow> 'f fileQueue deq_outcome" where
  "fq_scan ops q =
     (if fq_count q = 0 then DReturn None q
      else case readLenAt ops (fq_readOff q) q of
        None \<Rightarrow> fq_scan ops (skip_record frameHeaderLen q)
      | Some n \<Rightarrow>
          let next = skip_record (frameHeaderLen + unat n) q in
          if maxFramePayload < unat n then fq_scan ops next
          else case read_file ops (unat n) (fq_readOff q + frameHeaderLen) q of
            None \<Rightarrow> fq_scan ops next
          | Some payload \<Rightarrow> (case decodeBinary payload of
              Inl Panic \<Rightarrow> DPanic
            | Inl _ \<Rightarrow> fq_scan ops next
            | Inr ev \<Rightarrow> DReturn (Some ev) (compactIfDrained ops next)))"
  by pat_completeness auto
termination
  by (relation "measure (\<lambda>(ops, q). fq_count q)") (auto simp: skip_record_def)

declare fq_scan.simps [simp del]

definition fq_Dequeue :: "'f file_ops \<Rightarrow> 'f fileQueue \<Rightarrow> 'f fileQueue deq_outcome" where
  "fq_Dequeue ops q = (if fq_count q = 0 \<and> \<not> fq_closed q then DWait else fq_scan ops q)"

definition fq_Depth :: "'f fileQueue \<Rightarrow> nat" where
  "fq_Depth q = fq_count q"

definition fq_Close :: "'f fileQueue \<Rightarrow> 'f fileQueue" where
  "fq_Close q =
     (if fq_closed q then q
      else let q = q\<lparr>fq_closed := True\<rparr> in if fq_count q = 0 then releaseLocked q else q)"

section \<open>A reliable file\<close>

text \<open>
  What a regular file promises when the disk does not fail: writes succeed and replace the bytes
  they cover, reads inside the file return them, truncation empties the file or leaves it.
\<close>

locale reliable_file =
  fixes ops :: "'f file_ops" and contents :: "'f \<Rightarrow> bytes"
  assumes write_ok: "fst (WriteAt ops d off f)"
    and write_contents: "off \<le> length (contents f) \<Longrightarrow>
      contents (snd (WriteAt ops d off f)) = take off (contents f) @ d @ drop (off + length d) (contents f)"
    and read_contents: "off + n \<le> length (contents f) \<Longrightarrow>
      ReadAt ops n off f = Some (take n (drop off (contents f)))"
    and truncate_contents: "contents (Truncate ops f) \<in> {contents f, []}"

definition memory_file :: "bytes file_ops" where
  "memory_file = \<lparr>WriteAt = (\<lambda>d off f. (True, take off f @ replicate (off - length f) 0 @ d @ drop (off + length d) f)),
     ReadAt = (\<lambda>n off f. if off + n \<le> length f then Some (take n (drop off f)) else None),
     Truncate = (\<lambda>f. [])\<rparr>"

interpretation memory: reliable_file memory_file "\<lambda>f. f"
  by unfold_locales (simp_all add: memory_file_def)

section \<open>What the log holds\<close>

definition record_bytes :: "SQLEvent \<Rightarrow> bytes" where
  "record_bytes e = be_put (of_nat (length (encodeBinary e)) :: u32) @ encodeBinary e"

definition storable :: "SQLEvent \<Rightarrow> bool" where
  "storable e \<longleftrightarrow> encodable e \<and> length (encodeBinary e) \<le> maxFramePayload"

definition log_region :: "('f \<Rightarrow> bytes) \<Rightarrow> 'f fileQueue \<Rightarrow> bytes" where
  "log_region contents q = (case fq_f q of None \<Rightarrow> []
     | Some f \<Rightarrow> drop (fq_readOff q) (take (fq_writeOff q) (contents f)))"

fun frames :: "nat \<Rightarrow> bytes \<Rightarrow> SQLEvent list" where
  "frames 0 b = []"
| "frames (Suc n) b = (let len = unat (be_get (take 4 b) :: u32) in
     (case decodeBinary (take len (drop 4 b)) of Inr ev \<Rightarrow> [ev] | Inl _ \<Rightarrow> []) @ frames n (drop (4 + len) b))"

definition fq_abs :: "('f \<Rightarrow> bytes) \<Rightarrow> 'f fileQueue \<Rightarrow> aqueue" where
  "fq_abs contents q = (frames (fq_count q) (log_region contents q), fq_closed q)"

text \<open>The log between the cursors is the records of \<open>evs\<close>; a released log is closed and empty.\<close>

definition holds :: "('f \<Rightarrow> bytes) \<Rightarrow> 'f fileQueue \<Rightarrow> SQLEvent list \<Rightarrow> bool" where
  "holds contents q evs \<longleftrightarrow> list_all storable evs \<and> fq_count q = length evs
     \<and> log_region contents q = concat (map record_bytes evs)
     \<and> (case fq_f q of None \<Rightarrow> fq_closed q \<and> evs = []
        | Some f \<Rightarrow> fq_readOff q \<le> fq_writeOff q \<and> fq_writeOff q \<le> length (contents f))"

definition fq_ok :: "('f \<Rightarrow> bytes) \<Rightarrow> nat \<Rightarrow> OverflowPolicy \<Rightarrow> 'f fileQueue \<Rightarrow> bool" where
  "fq_ok contents cap pol q \<longleftrightarrow> 0 < cap \<and> fq_capacity q = cap \<and> fq_overflow q = pol \<and> fq_count q \<le> cap
     \<and> (\<forall>a. fq_encodeBuf q = Some a \<longrightarrow> a < length (fq_arrays q)) \<and> (\<exists>evs. holds contents q evs)"

lemma max_payload_word: "n \<le> maxFramePayload \<Longrightarrow> unat (of_nat n :: u32) = n"
  by (simp add: maxFramePayload_def unat_of_nat)

lemma frames_records:
  "list_all storable evs \<Longrightarrow> frames (length evs) (concat (map record_bytes evs)) = map canonical evs"
proof (induction evs)
  case (Cons e evs)
  let ?p = "encodeBinary e"
  have len: "unat (be_get (be_put (of_nat (length ?p) :: u32)) :: u32) = length ?p"
    using Cons.prems by (simp add: be_get_put storable_def max_payload_word)
  have dec: "decodeBinary ?p = Inr (canonical e)"
    using Cons.prems decode_encode [of e "[]"] by (simp add: storable_def)
  show ?case using Cons by (simp add: record_bytes_def len dec Let_def)
qed simp

lemma abs_holds: "holds contents q evs \<Longrightarrow> fq_abs contents q = (map canonical evs, fq_closed q)"
  using frames_records by (simp add: holds_def fq_abs_def)

lemma abs_depth: "holds contents q evs \<Longrightarrow> fq_Depth q = length (fst (fq_abs contents q))"
  by (frule abs_holds) (simp add: fq_Depth_def holds_def)

lemma record_length: "length (record_bytes e) = frameHeaderLen + length (encodeBinary e)"
  by (simp add: record_bytes_def frameHeaderLen_def)

section \<open>The encode buffer\<close>

lemma encode_into_payload:
  assumes "\<And>a. fq_encodeBuf q = Some a \<Longrightarrow> a < length (fq_arrays q)" and "encode_into ev q = (pl, q')"
  shows "payload_bytes pl q' = encodeBinary ev"
    and "\<And>a. fq_encodeBuf q' = Some a \<Longrightarrow> a < length (fq_arrays q')"
    and "q' = q\<lparr>fq_arrays := fq_arrays q', fq_encodeBuf := fq_encodeBuf q'\<rparr>"
  using assms(2) assms(1) estimate_enough [of ev]
  by (auto simp: encode_into_def payload_bytes_def Let_def nth_append split: option.splits if_splits)

lemma holds_arrays: "holds contents (q\<lparr>fq_arrays := as, fq_encodeBuf := b\<rparr>) evs = holds contents q evs"
  by (simp add: holds_def log_region_def split: option.splits)

lemma holds_overflow [simp]: "holds contents (fq_recordOverflow q) evs = holds contents q evs"
  by (simp add: holds_def log_region_def fq_recordOverflow_def split: option.splits)

context reliable_file
begin

lemma write_holds:
  assumes "holds contents q evs" and "\<not> fq_closed q" and "storable e"
  obtains f where "writeRecord ops (encodeBinary e) q =
      (True, q\<lparr>fq_f := Some f, fq_writeOff := fq_writeOff q + length (record_bytes e)\<rparr>)"
    and "holds contents (q\<lparr>fq_f := Some f, fq_writeOff := fq_writeOff q + length (record_bytes e),
      fq_count := fq_count q + 1\<rparr>) (evs @ [e])"
proof -
  obtain f where f: "fq_f q = Some f" "fq_readOff q \<le> fq_writeOff q" "fq_writeOff q \<le> length (contents f)"
    using assms(1,2) by (auto simp: holds_def split: option.splits)
  let ?r = "record_bytes e" and ?f = "snd (WriteAt ops (record_bytes e) (fq_writeOff q) f)"
  have c: "contents ?f = take (fq_writeOff q) (contents f) @ ?r @ drop (fq_writeOff q + length ?r) (contents f)"
    by (rule write_contents [OF f(3)])
  have "writeRecord ops (encodeBinary e) q =
      (True, q\<lparr>fq_f := Some ?f, fq_writeOff := fq_writeOff q + length ?r\<rparr>)"
    using write_ok f(1) by (simp add: writeRecord_def record_length split_beta flip: record_bytes_def)
  moreover have "drop (fq_readOff q) (take (fq_writeOff q + length ?r) (contents ?f))
      = drop (fq_readOff q) (take (fq_writeOff q) (contents f)) @ ?r"
    using f(2,3) by (simp add: c)
  then have "holds contents (q\<lparr>fq_f := Some ?f, fq_writeOff := fq_writeOff q + length ?r,
      fq_count := fq_count q + 1\<rparr>) (evs @ [e])"
    using assms f c by (simp add: holds_def log_region_def)
  ultimately show thesis using that by blast
qed

lemma compact_holds:
  assumes "holds contents q evs"
  shows "holds contents (compactIfDrained ops q) evs"
proof (cases "fq_count q = 0")
  case True
  then have evs: "evs = []" using assms by (simp add: holds_def)
  show ?thesis
    using assms True evs by (auto simp: compactIfDrained_def holds_def log_region_def releaseLocked_def split: option.splits)
next
  case False
  then show ?thesis using assms by (simp add: compactIfDrained_def)
qed

text \<open>The first record: its length prefix, its payload, and what is left once it is skipped.\<close>

lemma head_record:
  assumes "holds contents q (e # evs)"
  shows "readLenAt ops (fq_readOff q) q = Some (of_nat (length (encodeBinary e)))"
    and "read_file ops (length (encodeBinary e)) (fq_readOff q + frameHeaderLen) q = Some (encodeBinary e)"
    and "holds contents (skip_record (frameHeaderLen + length (encodeBinary e)) q) evs"
proof -
  obtain f where f: "fq_f q = Some f" "fq_readOff q \<le> fq_writeOff q" "fq_writeOff q \<le> length (contents f)"
    using assms by (auto simp: holds_def split: option.splits)
  let ?c = "contents f" and ?p = "encodeBinary e" and ?rest = "concat (map record_bytes evs)"
  have reg: "drop (fq_readOff q) (take (fq_writeOff q) ?c) = record_bytes e @ ?rest"
    using assms f(1) by (simp add: holds_def log_region_def)
  from arg_cong [OF this, of length] have len: "fq_readOff q + length (record_bytes e) \<le> fq_writeOff q"
    using f by simp
  have slice: "take n (drop (fq_readOff q + k) ?c) = take n (drop k (record_bytes e @ ?rest))"
    if "k + n \<le> length (record_bytes e)" for k n
  proof -
    have "drop k (record_bytes e @ ?rest) = drop (fq_readOff q + k) (take (fq_writeOff q) ?c)"
      using reg by (metis drop_drop add.commute)
    then show ?thesis using that len by (simp add: drop_take take_take min_def)
  qed
  have read: "read_file ops n (fq_readOff q + k) q = Some (take n (drop k (record_bytes e)))"
    if "k + n \<le> length (record_bytes e)" for k n
    using that len f read_contents [of "fq_readOff q + k" n f] slice [OF that] by (simp add: read_file_def)
  show "readLenAt ops (fq_readOff q) q = Some (of_nat (length ?p))"
    using read [of 0 frameHeaderLen]
    by (simp add: readLenAt_def frameHeaderLen_def record_bytes_def be_get_put)
  show "read_file ops (length ?p) (fq_readOff q + frameHeaderLen) q = Some ?p"
    using read [of frameHeaderLen "length ?p"] by (simp add: frameHeaderLen_def record_bytes_def)
  have "drop (fq_readOff q + length (record_bytes e)) (take (fq_writeOff q) ?c) = ?rest"
    using arg_cong [OF reg, of "drop (length (record_bytes e))"] by (simp add: add.commute)
  then show "holds contents (skip_record (frameHeaderLen + length ?p) q) evs"
    using assms f len by (simp add: holds_def skip_record_def log_region_def record_length)
qed

end

section \<open>Every operation keeps the log\<close>

text \<open>Dequeue as the contract sees it: no value where it waits or the decoder panics.\<close>

definition fq_take :: "'f file_ops \<Rightarrow> 'f fileQueue \<Rightarrow> (SQLEvent option \<times> 'f fileQueue) option" where
  "fq_take ops q = (case fq_Dequeue ops q of DReturn r q \<Rightarrow> Some (r, q) | _ \<Rightarrow> None)"

lemma okI:
  "0 < cap \<Longrightarrow> fq_capacity q = cap \<Longrightarrow> fq_overflow q = pol \<Longrightarrow> fq_count q \<le> cap
    \<Longrightarrow> (\<And>a. fq_encodeBuf q = Some a \<Longrightarrow> a < length (fq_arrays q)) \<Longrightarrow> holds contents q evs
    \<Longrightarrow> fq_ok contents cap pol q"
  by (auto simp: fq_ok_def)

lemma compact_fields [simp]:
  "fq_capacity (compactIfDrained ops q) = fq_capacity q" "fq_overflow (compactIfDrained ops q) = fq_overflow q"
  "fq_count (compactIfDrained ops q) = fq_count q" "fq_closed (compactIfDrained ops q) = fq_closed q"
  "fq_arrays (compactIfDrained ops q) = fq_arrays q" "fq_encodeBuf (compactIfDrained ops q) = fq_encodeBuf q"
  by (simp_all add: compactIfDrained_def releaseLocked_def)

lemma skip_fields [simp]:
  "fq_capacity (skip_record n q) = fq_capacity q" "fq_overflow (skip_record n q) = fq_overflow q"
  "fq_count (skip_record n q) = fq_count q - 1" "fq_closed (skip_record n q) = fq_closed q"
  "fq_arrays (skip_record n q) = fq_arrays q" "fq_encodeBuf (skip_record n q) = fq_encodeBuf q"
  by (simp_all add: skip_record_def)

lemma overflow_fields [simp]:
  "fq_capacity (fq_recordOverflow q) = fq_capacity q" "fq_overflow (fq_recordOverflow q) = fq_overflow q"
  "fq_count (fq_recordOverflow q) = fq_count q" "fq_closed (fq_recordOverflow q) = fq_closed q"
  "fq_arrays (fq_recordOverflow q) = fq_arrays q" "fq_encodeBuf (fq_recordOverflow q) = fq_encodeBuf q"
  by (simp_all add: fq_recordOverflow_def)

context reliable_file
begin

lemma drop_holds:
  assumes "holds contents q (e # evs)"
  shows "fq_dropOldest ops q =
      (True, compactIfDrained ops (skip_record (frameHeaderLen + length (encodeBinary e)) q))"
    and "holds contents (compactIfDrained ops (skip_record (frameHeaderLen + length (encodeBinary e)) q)) evs"
proof -
  have "unat (of_nat (length (encodeBinary e)) :: u32) = length (encodeBinary e)"
    using assms by (simp add: holds_def storable_def max_payload_word)
  then show "fq_dropOldest ops q =
      (True, compactIfDrained ops (skip_record (frameHeaderLen + length (encodeBinary e)) q))"
    using head_record(1) [OF assms] by (simp add: fq_dropOldest_def)
  show "holds contents (compactIfDrained ops (skip_record (frameHeaderLen + length (encodeBinary e)) q)) evs"
    by (rule compact_holds [OF head_record(3) [OF assms]])
qed

lemma scan_head:
  assumes "holds contents q (e # evs)"
  shows "fq_scan ops q = DReturn (Some (canonical e))
    (compactIfDrained ops (skip_record (frameHeaderLen + length (encodeBinary e)) q))"
proof -
  have st: "storable e" and n: "fq_count q \<noteq> 0" using assms by (simp_all add: holds_def)
  then have len: "unat (of_nat (length (encodeBinary e)) :: u32) = length (encodeBinary e)"
    and dec: "decodeBinary (encodeBinary e) = Inr (canonical e)"
    using decode_encode [of e "[]"] by (simp_all add: storable_def max_payload_word)
  show ?thesis
    using st by (subst fq_scan.simps) (simp add: n head_record [OF assms] len dec Let_def storable_def)
qed

lemma write_ok_step:
  assumes "holds contents q evs" and "\<not> fq_closed q" and "storable e" and "payload_bytes pl q = encodeBinary e"
  obtains q' where "fq_write ops pl q = (Some False, q')" and "holds contents q' (evs @ [e])"
    and "fq_capacity q' = fq_capacity q" "fq_overflow q' = fq_overflow q" "fq_closed q' = fq_closed q"
      "fq_arrays q' = fq_arrays q" "fq_encodeBuf q' = fq_encodeBuf q" "fq_count q' = fq_count q + 1"
proof -
  from write_holds [OF assms(1-3)] obtain f where
    w: "writeRecord ops (encodeBinary e) q =
      (True, q\<lparr>fq_f := Some f, fq_writeOff := fq_writeOff q + length (record_bytes e)\<rparr>)"
    and h: "holds contents (q\<lparr>fq_f := Some f, fq_writeOff := fq_writeOff q + length (record_bytes e),
      fq_count := fq_count q + 1\<rparr>) (evs @ [e])" by blast
  show thesis by (rule that [OF _ h]) (simp_all add: fq_write_def assms(4) w)
qed

lemma replace_step:
  assumes "holds contents q (x # evs)" and "\<not> fq_closed q" and "storable e" and "payload_bytes pl q = encodeBinary e"
  obtains q' where "fq_replace ops pl q = (Some True, q')" and "holds contents q' (evs @ [e])"
    and "fq_capacity q' = fq_capacity q" "fq_overflow q' = fq_overflow q" "fq_closed q' = fq_closed q"
      "fq_arrays q' = fq_arrays q" "fq_encodeBuf q' = fq_encodeBuf q" "fq_count q' = fq_count q"
proof -
  let ?q = "compactIfDrained ops (skip_record (frameHeaderLen + length (encodeBinary x)) q)"
  have cl: "\<not> fq_closed ?q" and n: "fq_count q = Suc (length evs)" using assms(1,2) by (simp_all add: holds_def)
  have pl: "payload_bytes pl ?q = encodeBinary e" using assms(4) by (simp add: payload_bytes_def)
  from write_holds [OF drop_holds(2) [OF assms(1)] cl assms(3)] obtain f where
    w: "writeRecord ops (encodeBinary e) ?q =
      (True, ?q\<lparr>fq_f := Some f, fq_writeOff := fq_writeOff ?q + length (record_bytes e)\<rparr>)"
    and h: "holds contents (?q\<lparr>fq_f := Some f, fq_writeOff := fq_writeOff ?q + length (record_bytes e),
      fq_count := fq_count ?q + 1\<rparr>) (evs @ [e])" by blast
  show thesis
    by (rule that [OF _ iffD2 [OF holds_overflow h]])
      (simp_all add: fq_replace_def drop_holds(1) [OF assms(1)] pl w n)
qed

lemma enqueue_refines:
  assumes ok: "fq_ok contents cap pol q" and e: "storable e"
  shows "map_prod id (fq_abs contents) (fq_Enqueue ops e q) = aq_Enqueue cap pol (canonical e) (fq_abs contents q)"
    and "fq_ok contents cap pol (snd (fq_Enqueue ops e q))"
proof (atomize (full), cases "fq_closed q")
  case True
  obtain xs where "fq_abs contents q = (xs, True)" by (simp add: fq_abs_def True)
  then show "map_prod id (fq_abs contents) (fq_Enqueue ops e q) = aq_Enqueue cap pol (canonical e) (fq_abs contents q)
      \<and> fq_ok contents cap pol (snd (fq_Enqueue ops e q))"
    using ok True by (simp add: fq_Enqueue_def)
next
  case False
  obtain evs where h: "holds contents q evs" using ok by (auto simp: fq_ok_def)
  obtain pl q1 where enc: "encode_into e q = (pl, q1)" by (metis surj_pair)
  have buf: "\<And>a. fq_encodeBuf q = Some a \<Longrightarrow> a < length (fq_arrays q)" using ok by (simp add: fq_ok_def)
  note p = encode_into_payload [OF buf enc]
  obtain as b where q1: "q1 = q\<lparr>fq_arrays := as, fq_encodeBuf := b\<rparr>" using p(3) by blast
  have h1: "holds contents q1 evs" by (simp add: q1 holds_arrays h)
  have ok1: "fq_ok contents cap pol q1" using ok h1 p(2) by (auto intro!: okI simp: fq_ok_def q1)
  have cl: "\<not> fq_closed q1" and k: "fq_capacity q1 = cap" "fq_overflow q1 = pol" "0 < cap" "fq_count q1 \<le> cap"
    "fq_count q1 = length evs" using False ok h by (simp_all add: q1 fq_ok_def holds_def)
  have a: "fq_abs contents q = (map canonical evs, False)" "fq_abs contents q1 = (map canonical evs, False)"
    using abs_holds [OF h] abs_holds [OF h1] False cl by simp_all
  have E: "fq_Enqueue ops e q = (if length evs < cap then fq_write ops pl q1
        else case pol of DropNewest \<Rightarrow> (Some True, fq_recordOverflow q1) | Block \<Rightarrow> (None, q1)
        | DropOldest \<Rightarrow> fq_replace ops pl q1)"
    using False by (simp add: fq_Enqueue_def enc k)
  from write_ok_step [OF h1 cl e p(1)] obtain qw where w: "fq_write ops pl q1 = (Some False, qw)"
    "holds contents qw (evs @ [e])" "fq_capacity qw = cap" "fq_overflow qw = pol" "\<not> fq_closed qw"
    "fq_arrays qw = fq_arrays q1" "fq_encodeBuf qw = fq_encodeBuf q1" "fq_count qw = length evs + 1"
    using cl k by metis
  have over: "fq_ok contents cap pol (fq_recordOverflow q1)"
    "fq_abs contents (fq_recordOverflow q1) = (map canonical evs, False)"
    using ok1 abs_holds [of contents "fq_recordOverflow q1" evs] h1 cl by (simp_all add: fq_ok_def)
  have repl: "map_prod id (fq_abs contents) (fq_replace ops pl q1) = (Some True, (tl (map canonical evs) @ [canonical e], False))
      \<and> fq_ok contents cap pol (snd (fq_replace ops pl q1))" if full: "\<not> length evs < cap"
  proof -
    obtain x xs where evs: "evs = x # xs" using full k(3) by (cases evs) auto
    from replace_step [OF h1 [unfolded evs] cl e p(1)] obtain qr where r: "fq_replace ops pl q1 = (Some True, qr)"
      "holds contents qr (xs @ [e])" "fq_capacity qr = cap" "fq_overflow qr = pol" "\<not> fq_closed qr"
      "fq_arrays qr = fq_arrays q1" "fq_encodeBuf qr = fq_encodeBuf q1" "fq_count qr = length evs"
      using cl k by metis
    show ?thesis
      using abs_holds [OF r(2)] r p(2) k by (auto intro!: okI simp: evs)
  qed
  show "map_prod id (fq_abs contents) (fq_Enqueue ops e q) = aq_Enqueue cap pol (canonical e) (fq_abs contents q)
      \<and> fq_ok contents cap pol (snd (fq_Enqueue ops e q))"
  proof (cases "length evs < cap")
    case True
    then show ?thesis
      using abs_holds [OF w(2)] w p(2) k by (auto intro!: okI simp: E a)
  next
    case full: False
    then show ?thesis using over repl ok1 by (cases pol) (simp_all add: E a)
  qed
qed

lemma dequeue_refines:
  assumes ok: "fq_ok contents cap pol q"
  shows "map_option (map_prod id (fq_abs contents)) (fq_take ops q) = aq_Dequeue (fq_abs contents q)"
    and "fq_take ops q = Some (r, q') \<Longrightarrow> fq_ok contents cap pol q'"
proof -
  obtain evs where h: "holds contents q evs" using ok by (auto simp: fq_ok_def)
  have n: "fq_count q = length evs" using h by (simp add: holds_def)
  show "map_option (map_prod id (fq_abs contents)) (fq_take ops q) = aq_Dequeue (fq_abs contents q)"
  proof (cases evs)
    case Nil
    then show ?thesis
      using abs_holds [OF h] n by (simp add: fq_take_def fq_Dequeue_def fq_scan.simps)
  next
    case (Cons e xs)
    note h' = h [unfolded Cons]
    show ?thesis
      using abs_holds [OF drop_holds(2) [OF h']] abs_holds [OF h'] n
      by (simp add: Cons fq_take_def fq_Dequeue_def scan_head [OF h'])
  qed
  show "fq_ok contents cap pol q'" if "fq_take ops q = Some (r, q')"
  proof (cases evs)
    case Nil
    then have "q' = q" using that n
      by (simp add: fq_take_def fq_Dequeue_def fq_scan.simps split: if_splits)
    then show ?thesis using ok by simp
  next
    case (Cons e xs)
    note h' = h [unfolded Cons]
    have "q' = compactIfDrained ops (skip_record (frameHeaderLen + length (encodeBinary e)) q)"
      using that n by (simp add: Cons fq_take_def fq_Dequeue_def scan_head [OF h'])
    then show ?thesis using drop_holds(2) [OF h'] ok by (auto intro!: okI simp: fq_ok_def)
  qed
qed

lemma close_refines:
  assumes ok: "fq_ok contents cap pol q"
  shows "fq_abs contents (fq_Close q) = aq_Close (fq_abs contents q)" and "fq_ok contents cap pol (fq_Close q)"
proof -
  obtain evs where h: "holds contents q evs" using ok by (auto simp: fq_ok_def)
  have h': "holds contents (fq_Close q) evs" and c: "fq_closed (fq_Close q)"
    using h by (auto simp: fq_Close_def holds_def log_region_def releaseLocked_def Let_def split: option.splits)
  show "fq_abs contents (fq_Close q) = aq_Close (fq_abs contents q)"
    using abs_holds [OF h] abs_holds [OF h'] c by simp
  show "fq_ok contents cap pol (fq_Close q)"
    using ok h' by (auto intro!: okI simp: fq_ok_def fq_Close_def releaseLocked_def Let_def)
qed

end

sublocale reliable_file \<subseteq> backend: queue_backend "fq_abs contents" "fq_ok contents cap pol"
  "fq_Enqueue ops" "fq_take ops" fq_Close canonical storable cap pol for cap pol
proof (unfold_locales, goal_cases)
  case 1 then show ?case by (simp add: fq_ok_def)
next
  case (2 q e) then show ?case by (rule enqueue_refines(1))
next
  case (3 q e) then show ?case by (rule enqueue_refines(2))
next
  case (4 q) then show ?case by (rule dequeue_refines(1))
next
  case (5 q x q') then show ?case by (rule dequeue_refines(2))
next
  case (6 q) then show ?case by (rule close_refines(1))
next
  case (7 q) then show ?case by (rule close_refines(2))
qed

lemma fq_new:
  assumes "0 < cap"
  shows "fq_ok contents cap pol (newFileQueueWithFile f cap pol)
    \<and> fq_abs contents (newFileQueueWithFile f cap pol) = ([], False)"
proof -
  have "holds contents (newFileQueueWithFile f cap pol) []"
    by (simp add: holds_def newFileQueueWithFile_def log_region_def)
  then show ?thesis using assms abs_holds
    by (fastforce intro!: okI simp: newFileQueueWithFile_def)
qed

section \<open>Properties\<close>

definition file_step :: "'f file_ops \<Rightarrow> q_op \<Rightarrow> 'f fileQueue \<Rightarrow> 'f fileQueue q_result" where
  "file_step ops = backend_step (fq_Enqueue ops) (fq_take ops) fq_Close"

context reliable_file
begin

lemma run_new:
  assumes "list_all (op_accepted storable) opl"
    and "q_run (file_step ops) opl (newFileQueueWithFile f (queue_capacity c) pol) = (out, n, q)"
  shows "fq_ok contents (queue_capacity c) pol q
    \<and> q_run (aq_step (queue_capacity c) pol) (map (map_op canonical) opl) ([], False) = (out, n, fq_abs contents q)"
  using backend.run_refines [OF conjunct1 [OF fq_new [OF capacity_pos]] assms(1) assms(2) [unfolded file_step_def]]
    fq_new [OF capacity_pos, of contents c pol f] by simp

end

lemma sample_storable: "storable sample_event"
proof -
  have "estimateEventSize sample_event \<le> maxFramePayload"
    by (simp add: estimateEventSize_def sample_event_def zero_event_def conn_a_def maxFramePayload_def value_bytes_def)
  then have "length (encodeBinary sample_event) \<le> maxFramePayload"
    using estimate_enough [of sample_event] by linarith
  moreover have "encodable sample_event"
    by (simp add: encodable_def sample_event_def zero_event_def conn_a_def addr_ok_def int64_ok_def value_bytes_def)
  ultimately show ?thesis by (simp add: storable_def)
qed

text \<open>Renaming the events of a run of the contract.\<close>

lemma aq_step_map:
  "aq_step cap pol (map_op g op) (map_prod (map g) id q)
     = (case aq_step cap pol op q of (out, n, q) \<Rightarrow> (map g out, n, map_prod (map g) id q))"
proof (cases op)
  case (QEnqueue e)
  then show ?thesis by (cases q) (auto simp: enq_result_def map_tl split: OverflowPolicy.splits)
next
  case QDequeue
  then show ?thesis by (cases q; cases "fst q") (auto simp: deq_result_def)
qed (cases q, simp)

lemma aq_run_map:
  "q_run (aq_step cap pol) (map (map_op g) opl) (map_prod (map g) id q)
     = (case q_run (aq_step cap pol) opl q of (out, n, q) \<Rightarrow> (map g out, n, map_prod (map g) id q))"
  by (induction opl arbitrary: q) (auto simp: aq_step_map split: prod.splits)





text \<open>How the scan of the records may end.\<close>

definition scan_ended :: "'f fileQueue \<Rightarrow> 'f fileQueue deq_outcome \<Rightarrow> bool" where
  "scan_ended q out = (case out of DWait \<Rightarrow> False
     | DReturn None q' \<Rightarrow> fq_count q' = 0
     | DReturn (Some e) q' \<Rightarrow> fq_count q' < fq_count q \<and> fq_closed q' = fq_closed q
     | DPanic \<Rightarrow> 0 < fq_count q \<and> (\<exists>payload. decodeBinary payload = Inl Panic))"

lemma scan_ended_skip: "scan_ended (skip_record n q) out \<Longrightarrow> scan_ended q out"
  by (auto simp: scan_ended_def split: deq_outcome.splits option.splits)

lemma scan_ends: "scan_ended q (fq_scan ops q)"
proof (induction ops q rule: fq_scan.induct)
  case (1 ops q)
  show ?case
  proof (cases "fq_count q = 0")
    case True
    then show ?thesis by (simp add: fq_scan.simps scan_ended_def)
  next
    case False
    then have stop: "scan_ended q (DReturn (Some e) (compactIfDrained ops (skip_record n q)))"
      "decodeBinary p = Inl Panic \<Longrightarrow> scan_ended q DPanic" for e n p
      by (auto simp: scan_ended_def)
    show ?thesis
    proof (cases "readLenAt ops (fq_readOff q) q")
      case None
      then show ?thesis using 1(1) [OF False None, THEN scan_ended_skip] False by (simp add: fq_scan.simps [of ops q])
    next
      case (Some n)
      note next_ok = 1(2) [OF False Some refl, THEN scan_ended_skip] 1(3) [OF False Some refl, THEN scan_ended_skip]
        1(4) [OF False Some refl, THEN scan_ended_skip] 1(5) [OF False Some refl, THEN scan_ended_skip]
      show ?thesis
        using False Some next_ok stop
        by (subst fq_scan.simps) (simp add: Let_def split: option.split sum.split codec_error.split)
    qed
  qed
qed

text \<open>
  C34: Dequeue ends whatever the file does: it waits only on an empty open queue, an event it
  returns was one of the counted records, it gives up only when every counted record has been
  read or skipped, and it panics only where the decoder does.
\<close>

theorem file_dequeue_ends:
  "case fq_Dequeue ops q of
     DWait \<Rightarrow> fq_count q = 0 \<and> \<not> fq_closed q
   | DReturn None q' \<Rightarrow> fq_count q' = 0 \<and> (0 < fq_count q \<or> fq_closed q)
   | DReturn (Some e) q' \<Rightarrow> fq_count q' < fq_count q \<and> fq_closed q' = fq_closed q
   | DPanic \<Rightarrow> 0 < fq_count q \<and> (\<exists>payload. decodeBinary payload = Inl Panic)"
  using scan_ends [of q ops] by (auto simp: fq_Dequeue_def scan_ended_def split: deq_outcome.splits option.splits)

text \<open>
  A record above the payload limit is accepted and counted as stored, yet the consumer that
  reaches it skips it, and when it is the last one Dequeue reports the end of an open queue.
\<close>

theorem oversize_ends_consumer:
  assumes "reliable_file ops contents"
    and "maxFramePayload < length (encodeBinary e)" and "length (encodeBinary e) < 2 ^ 32"
  shows "\<exists>q1 q2. fq_Enqueue ops e (newFileQueueWithFile f (queue_capacity c) pol) = (Some False, q1)
    \<and> fq_overflows q1 = 0 \<and> fq_Dequeue ops q1 = DReturn None q2 \<and> \<not> fq_closed q2"
proof -
  let ?q = "newFileQueueWithFile f (queue_capacity c) pol"
  obtain pl q0 where enc: "encode_into e ?q = (pl, q0)" by (metis surj_pair)
  have buf: "fq_encodeBuf ?q = None" by (simp add: newFileQueueWithFile_def)
  note p = encode_into_payload [OF _ enc, unfolded buf, simplified]
  obtain as b where q0: "q0 = ?q\<lparr>fq_arrays := as, fq_encodeBuf := b\<rparr>" using p(3) by blast
  let ?f = "snd (WriteAt ops (record_bytes e) 0 f)"
  define q1 where "q1 = q0\<lparr>fq_f := Some ?f, fq_writeOff := length (record_bytes e), fq_count := 1\<rparr>"
  have q1: "fq_count q1 = 1" "fq_readOff q1 = 0" "\<not> fq_closed q1" "fq_overflows q1 = 0"
    by (simp_all add: q1_def q0 newFileQueueWithFile_def)
  have new: "\<not> fq_closed ?q" "fq_count q0 < fq_capacity q0"
    using capacity_pos [of c] by (simp_all add: q0 newFileQueueWithFile_def)
  have "fq_Enqueue ops e ?q = fq_write ops pl q0"
    unfolding fq_Enqueue_def enc by (simp only: new if_False if_True Let_def split)
  moreover have "fq_write ops pl q0 = (Some False, q1)"
    using reliable_file.write_ok [OF assms(1)] unfolding fq_write_def p(1) writeRecord_def
    by (simp add: split_beta q1_def q0 newFileQueueWithFile_def record_length flip: record_bytes_def)
  ultimately have enq: "fq_Enqueue ops e ?q = (Some False, q1)" by simp
  have "contents ?f = record_bytes e @ drop (length (record_bytes e)) (contents f)"
    using reliable_file.write_contents [OF assms(1), of 0 f "record_bytes e"] by simp
  then have "readLenAt ops 0 q1 = Some (of_nat (length (encodeBinary e)))"
    using reliable_file.read_contents [OF assms(1), of 0 frameHeaderLen ?f]
    by (simp add: readLenAt_def read_file_def q1_def frameHeaderLen_def record_bytes_def be_get_put)
  moreover have "unat (of_nat (length (encodeBinary e)) :: u32) = length (encodeBinary e)"
    using assms(3) by (simp add: unat_of_nat)
  ultimately have "fq_Dequeue ops q1 = DReturn None (skip_record (frameHeaderLen + length (encodeBinary e)) q1)"
    using assms(2) q1 by (simp add: fq_Dequeue_def fq_scan.simps [of _ q1] fq_scan.simps [of _ "skip_record n q1" for n] Let_def)
  then show ?thesis using enq q1 by simp
qed

definition huge_event :: SQLEvent where
  "huge_event = (zero_event conn_a)\<lparr>SQL := replicate (maxFramePayload + 1) CHR ''a''\<rparr>"

lemma oversize_ends_consumer_witness:
  "\<exists>q1 q2. fq_Enqueue memory_file huge_event (newFileQueueWithFile [] (queue_capacity 1) Block) = (Some False, q1)
    \<and> fq_overflows q1 = 0 \<and> fq_Dequeue memory_file q1 = DReturn None q2 \<and> \<not> fq_closed q2"
proof (rule oversize_ends_consumer [OF memory.reliable_file_axioms])
  show "maxFramePayload < length (encodeBinary huge_event)"
    by (simp add: encodeBinary_def huge_event_def put_blob_def of_string_def)
  have "estimateEventSize huge_event < 2 ^ 32"
    by (simp add: estimateEventSize_def huge_event_def zero_event_def maxFramePayload_def)
  then show "length (encodeBinary huge_event) < 2 ^ 32"
    using estimate_enough [of huge_event] by linarith
qed

text \<open>
  A producer that waits keeps a payload in the shared buffer: an event of the same length that
  another producer encodes meanwhile replaces it.
\<close>

lemma waiting_payload_overwritten:
  assumes "\<And>a. fq_encodeBuf q = Some a \<Longrightarrow> a < length (fq_arrays q)"
    and "encode_into a q = (pl, q1)" and "encode_into b q1 = (pl', q2)"
    and "estimateEventSize b \<le> estimateEventSize a" and "length (encodeBinary b) = length (encodeBinary a)"
  shows "payload_bytes pl q2 = encodeBinary b"
  using assms estimate_enough [of a] estimate_enough [of b]
  by (auto simp: encode_into_def payload_bytes_def Let_def nth_append split: option.splits if_splits)

end
