(* ===== verification/Classifier.thy ===== *)
theory Classifier
  imports Core_Types "HOL-Library.Sublist"
begin

text \<open>
  The statement classifier, \<^verbatim>\<open>src/pkg/filter/classifier.go\<close>, with the classes of \<^verbatim>\<open>filter.go\<close>. The
  scanners walk an index over the text; here they consume the text, so the remaining string is
  \<^verbatim>\<open>sql[i:]\<close>. \<^verbatim>\<open>strings.ToLower\<close> and \<^verbatim>\<open>strings.TrimSpace\<close> are their ASCII mappings.
\<close>

section \<open>Characters\<close>

abbreviation code :: "char \<Rightarrow> nat" where "code c \<equiv> of_char c"

definition lower_char :: "char \<Rightarrow> char" where
  "lower_char c = (if 65 \<le> code c \<and> code c \<le> 90 then char_of (code c + 32) else c)"

definition ToLower :: "string \<Rightarrow> string" where
  "ToLower s = map lower_char s"

definition space_char :: "char \<Rightarrow> bool" where
  "space_char c \<longleftrightarrow> code c \<in> {9, 10, 11, 12, 13, 32}"

definition TrimSpace :: "string \<Rightarrow> string" where
  "TrimSpace s = rev (dropWhile space_char (rev (dropWhile space_char s)))"

definition isIdentStart :: "char \<Rightarrow> bool" where
  "isIdentStart c \<longleftrightarrow> c = CHR ''_'' \<or> 97 \<le> code c \<and> code c \<le> 122 \<or> 65 \<le> code c \<and> code c \<le> 90 \<or> 128 \<le> code c"

definition isDigit :: "char \<Rightarrow> bool" where
  "isDigit c \<longleftrightarrow> 48 \<le> code c \<and> code c \<le> 57"

definition isIdentPart :: "char \<Rightarrow> bool" where
  "isIdentPart c \<longleftrightarrow> isIdentStart c \<or> isDigit c"

abbreviation quote :: char where "quote \<equiv> CHR 0x27"
abbreviation dquote :: char where "dquote \<equiv> CHR 0x22"
abbreviation newline :: char where "newline \<equiv> CHR 0x0A"

fun starts :: "char \<Rightarrow> string \<Rightarrow> bool" where
  "starts c [] = False"
| "starts c (x # xs) = (x = c)"

section \<open>Skipping literals and comments\<close>

definition skip_line :: "string \<Rightarrow> string" where
  "skip_line s = dropWhile (\<lambda>c. c \<noteq> newline) s"

fun skip_block :: "nat \<Rightarrow> string \<Rightarrow> string" where
  "skip_block 0 s = s"
| "skip_block (Suc d) [] = []"
| "skip_block (Suc d) [c] = []"
| "skip_block (Suc d) (c1 # c2 # s) =
     (if c1 = CHR ''/'' \<and> c2 = CHR ''*'' then skip_block (Suc (Suc d)) s
      else if c1 = CHR ''*'' \<and> c2 = CHR ''/'' then skip_block d s
      else skip_block (Suc d) (c2 # s))"

fun skip_squote :: "string \<Rightarrow> string" where
  "skip_squote [] = []"
| "skip_squote [c] = []"
| "skip_squote (c1 # c2 # s) =
     (if c1 = quote then (if c2 = quote then skip_squote s else c2 # s)
      else skip_squote (c2 # s))"

fun read_dquote :: "string \<Rightarrow> string \<times> string" where
  "read_dquote [] = ([], [])"
| "read_dquote [c] = (if c = dquote then ([], []) else ([c], []))"
| "read_dquote (c1 # c2 # s) =
     (if c1 = dquote
      then (if c2 = dquote then (case read_dquote s of (t, r) \<Rightarrow> (dquote # t, r)) else ([], c2 # s))
      else (case read_dquote (c2 # s) of (t, r) \<Rightarrow> (c1 # t, r)))"

text \<open>\<open>dollarTag\<close> is given the text after the \<open>$\<close>; it returns the tag and what follows the opener.\<close>

definition dollarTag :: "string \<Rightarrow> (string \<times> string) option" where
  "dollarTag s = (let tag = takeWhile isIdentPart s; r = dropWhile isIdentPart s in
     if starts CHR ''$'' r \<and> (tag = [] \<or> isIdentStart (hd tag)) then Some (tag, tl r) else None)"

text \<open>What follows the first occurrence of \<open>pat\<close>; nothing if there is none.\<close>

fun after_sub :: "string \<Rightarrow> string \<Rightarrow> string" where
  "after_sub pat [] = []"
| "after_sub pat (c # s) = (if prefix pat (c # s) then drop (length pat) (c # s) else after_sub pat s)"

section \<open>The lexer\<close>

datatype token = TWord string | TLParen | TRParen | TDot | TString | TOther

lemma skip_block_length: "length (skip_block d s) \<le> length s"
  by (induction d s rule: skip_block.induct) auto

lemma skip_squote_length: "length (skip_squote s) \<le> length s"
  by (induction s rule: skip_squote.induct) auto

lemma read_dquote_length: "length (snd (read_dquote s)) \<le> length s"
  by (induction s rule: read_dquote.induct) (auto split: prod.splits)

lemma after_sub_length: "length (after_sub pat s) \<le> length s"
  by (induction pat s rule: after_sub.induct) auto

lemma dollarTag_length: "dollarTag s = Some (tag, r) \<Longrightarrow> length r \<le> length s"
  using length_dropWhile_le [of isIdentPart s]
  by (auto simp: dollarTag_def Let_def split: if_splits)

lemma skip_line_length: "length (skip_line s) \<le> length s"
  by (simp add: skip_line_def length_dropWhile_le)

function lex :: "string \<Rightarrow> token list" where
  "lex [] = []"
| "lex (c # s) =
     (if space_char c then lex s
      else if c = CHR ''-'' \<and> starts CHR ''-'' s then lex (skip_line (tl s))
      else if c = CHR ''/'' \<and> starts CHR ''*'' s then lex (skip_block 1 (tl s))
      else if c = quote then TString # lex (skip_squote s)
      else if c = dquote then TWord (fst (read_dquote s)) # lex (snd (read_dquote s))
      else if c = CHR ''$'' then
        (case dollarTag s of
           Some (tag, r) \<Rightarrow> TString # lex (after_sub (CHR ''$'' # tag @ [CHR ''$'']) r)
         | None \<Rightarrow> TOther # lex (dropWhile isDigit s))
      else if c = CHR ''('' then TLParen # lex s
      else if c = CHR '')'' then TRParen # lex s
      else if c = CHR ''.'' then TDot # lex s
      else if isIdentStart c then TWord (c # takeWhile isIdentPart s) # lex (dropWhile isIdentPart s)
      else TOther # lex s)"
  by pat_completeness auto
termination
proof (relation "measure length", goal_cases)
  case (3 c s)
  then show ?case using skip_line_length [of "tl s"] by simp
next
  case (4 c s)
  then show ?case using skip_block_length [of 1 "tl s"] by simp
next
  case (8 c s a tag r)
  then show ?case
    using dollarTag_length [of s tag r] after_sub_length [of "CHR ''$'' # tag @ [CHR ''$'']" r] by simp
qed (auto simp: length_dropWhile_le less_Suc_eq_le skip_squote_length read_dquote_length)

declare lex.simps(2) [simp del]

section \<open>Classes\<close>

datatype StmtClass = ClassUnknown | ClassPlainSelect | ClassProcSelect | ClassCall | ClassDML
  | ClassDDL | ClassBegin | ClassCommitRollback | ClassUtility | ClassCopyFrom

definition DefaultBuiltinFunctions :: "string list" where
  "DefaultBuiltinFunctions = [
     ''count'', ''sum'', ''avg'', ''min'', ''max'', ''array_agg'', ''string_agg'', ''bool_and'',
     ''bool_or'', ''every'', ''json_agg'', ''jsonb_agg'', ''json_object_agg'',
     ''jsonb_object_agg'', ''xmlagg'', ''row_number'', ''rank'', ''dense_rank'',
     ''percent_rank'', ''cume_dist'', ''ntile'', ''lead'', ''lag'', ''first_value'',
     ''last_value'', ''nth_value'', ''now'', ''current_timestamp'', ''current_date'',
     ''current_time'', ''clock_timestamp'', ''statement_timestamp'', ''transaction_timestamp'',
     ''age'', ''date_part'', ''date_trunc'', ''extract'', ''make_date'', ''make_interval'',
     ''make_time'', ''make_timestamp'', ''coalesce'', ''nullif'', ''greatest'', ''least'',
     ''cast'', ''to_char'', ''to_date'', ''to_number'', ''to_timestamp'', ''generate_series'',
     ''unnest'', ''array_length'', ''array_upper'', ''array_lower'', ''array_cat'',
     ''array_append'', ''array_remove'', ''length'', ''upper'', ''lower'', ''trim'', ''ltrim'',
     ''rtrim'', ''substring'', ''replace'', ''concat'', ''concat_ws'', ''format'', ''left'',
     ''right'', ''repeat'', ''reverse'', ''split_part'', ''abs'', ''ceil'', ''floor'',
     ''round'', ''trunc'', ''mod'', ''power'', ''sqrt'', ''random'', ''sign'',
     ''json_build_object'', ''jsonb_build_object'', ''json_build_array'', ''jsonb_build_array'',
     ''row_to_json'', ''to_json'', ''to_jsonb'', ''pg_typeof'', ''version'',
     ''current_database'', ''current_schema'', ''current_user'', ''session_user'',
     ''txid_current'']"

definition sqlKeywordsBeforeParen :: "string list" where
  "sqlKeywordsBeforeParen = [
     ''as'', ''in'', ''exists'', ''all'', ''any'', ''some'', ''values'', ''over'', ''filter'',
     ''within'', ''from'', ''where'', ''and'', ''or'', ''not'', ''on'', ''using'', ''when'',
     ''then'', ''case'', ''by'', ''having'', ''group'', ''order'', ''select'', ''union'',
     ''intersect'', ''except'', ''join'', ''into'', ''distinct'', ''between'', ''like'',
     ''ilike'', ''similar'', ''is'', ''null'', ''returning'', ''do'', ''else'', ''end'',
     ''limit'', ''offset'', ''fetch'', ''with'', ''recursive'', ''left'', ''right'', ''full'',
     ''inner'', ''outer'', ''cross'', ''lateral'', ''natural'', ''asc'', ''desc'', ''nulls'',
     ''first'', ''last'', ''for'', ''of'', ''only'', ''tablesample'', ''window'', ''partition'',
     ''range'', ''rows'', ''groups'', ''unbounded'', ''preceding'', ''following'', ''current'',
     ''row'', ''grouping'', ''cube'', ''rollup'', ''sets'', ''array'', ''set'', ''to'', ''if'',
     ''numeric'', ''decimal'', ''dec'', ''char'', ''character'', ''varchar'', ''varbit'',
     ''bit'', ''time'', ''timestamp'', ''timestamptz'', ''interval'', ''float'', ''double'',
     ''real'', ''int'', ''integer'', ''bigint'', ''smallint'', ''money'', ''bool'', ''boolean'',
     ''text'', ''bytea'', ''uuid'', ''json'', ''jsonb'', ''xml'']"

definition NewClassifier :: "string list \<Rightarrow> string list" where
  "NewClassifier extraBuiltins =
     (if extraBuiltins = [] then map ToLower DefaultBuiltinFunctions
      else map ToLower DefaultBuiltinFunctions @ map ToLower extraBuiltins)"

section \<open>Scanning the tokens\<close>

fun firstWord :: "token list \<Rightarrow> string" where
  "firstWord [] = []"
| "firstWord (TWord w # ts) = ToLower w"
| "firstWord (t # ts) = firstWord ts"

fun words :: "token list \<Rightarrow> string list" where
  "words [] = []"
| "words (TWord w # ts) = ToLower w # words ts"
| "words (t # ts) = words ts"

definition hasSecondWord :: "token list \<Rightarrow> string \<Rightarrow> bool" where
  "hasSecondWord toks word = (case words toks of w1 # w2 # ws \<Rightarrow> w2 = word | _ \<Rightarrow> False)"

fun depthZeroHasWord :: "nat \<Rightarrow> token list \<Rightarrow> string \<Rightarrow> bool" where
  "depthZeroHasWord depth [] word = False"
| "depthZeroHasWord depth (TLParen # ts) word = depthZeroHasWord (depth + 1) ts word"
| "depthZeroHasWord depth (TRParen # ts) word = depthZeroHasWord (depth - 1) ts word"
| "depthZeroHasWord depth (TWord w # ts) word =
     (if depth = 0 \<and> ToLower w = word then True else depthZeroHasWord depth ts word)"
| "depthZeroHasWord depth (t # ts) word = depthZeroHasWord depth ts word"

fun primaryCommandAfterWith :: "nat \<Rightarrow> token list \<Rightarrow> string" where
  "primaryCommandAfterWith depth [] = []"
| "primaryCommandAfterWith depth (TLParen # ts) = primaryCommandAfterWith (depth + 1) ts"
| "primaryCommandAfterWith depth (TRParen # ts) = primaryCommandAfterWith (depth - 1) ts"
| "primaryCommandAfterWith depth (TWord w # ts) =
     (if depth = 0 \<and> ToLower w \<in> {''select'', ''insert'', ''update'', ''delete''} then ToLower w
      else primaryCommandAfterWith depth ts)"
| "primaryCommandAfterWith depth (t # ts) = primaryCommandAfterWith depth ts"

text \<open>The last segment of a qualified name and the tokens after it.\<close>

fun walk_name :: "string \<Rightarrow> token list \<Rightarrow> string \<times> token list" where
  "walk_name w (TDot # TWord w2 # ts) = walk_name (ToLower w2) ts"
| "walk_name w ts = (w, ts)"

lemma walk_name_length: "length (snd (walk_name w ts)) \<le> length ts"
  by (induction w ts rule: walk_name.induct) auto

fun call_follows :: "token list \<Rightarrow> bool" where
  "call_follows (TLParen # ts) = True"
| "call_follows ts = False"

function isProcInvoking :: "string list \<Rightarrow> token list \<Rightarrow> bool" where
  "isProcInvoking builtins [] = False"
| "isProcInvoking builtins (t # ts) = (case t of
     TWord w \<Rightarrow>
       let firstSeg = ToLower w; lastSeg = fst (walk_name firstSeg ts); rest = snd (walk_name firstSeg ts) in
       if call_follows rest \<and> firstSeg \<notin> set sqlKeywordsBeforeParen
          \<and> lastSeg \<notin> set sqlKeywordsBeforeParen \<and> lastSeg \<notin> set builtins
       then True else isProcInvoking builtins rest
   | _ \<Rightarrow> isProcInvoking builtins ts)"
  by pat_completeness auto
termination
  by (relation "measure (\<lambda>(b, ts). length ts)") (auto simp: walk_name_length less_Suc_eq_le)

declare isProcInvoking.simps(2) [simp del]

section \<open>One statement\<close>

definition classifySingle :: "string list \<Rightarrow> string \<Rightarrow> StmtClass" where
  "classifySingle builtins sql =
     (let toks = lex sql; leading = firstWord toks;
          select = (if isProcInvoking builtins toks then ClassProcSelect else ClassPlainSelect) in
      if leading = '''' then ClassUnknown
      else if leading = ''call'' then ClassCall
      else if leading \<in> {''insert'', ''update'', ''delete''} then ClassDML
      else if leading \<in> {''create'', ''alter'', ''drop''} then ClassDDL
      else if leading \<in> {''begin'', ''start''} then ClassBegin
      else if leading \<in> {''commit'', ''end''} then ClassCommitRollback
      else if leading = ''rollback'' then
        (if hasSecondWord toks ''to'' then ClassUtility else ClassCommitRollback)
      else if leading \<in> {''savepoint'', ''release''} then ClassUtility
      else if leading \<in> {''set'', ''reset'', ''discard''} then ClassUtility
      else if leading = ''copy'' then
        (if depthZeroHasWord 0 toks ''from'' then ClassCopyFrom else ClassUnknown)
      else if leading = ''select'' then select
      else if leading = ''with'' then
        (let cmd = primaryCommandAfterWith 0 toks in
         if cmd = ''select'' then select
         else if cmd \<in> {''insert'', ''update'', ''delete''} then ClassDML
         else ClassUnknown)
      else ClassUnknown)"

definition IsProcInvokingSelect :: "string list \<Rightarrow> string \<Rightarrow> bool" where
  "IsProcInvokingSelect builtins sql =
     (let toks = lex sql; leading = firstWord toks;
          isSelect = (if leading = ''with'' then primaryCommandAfterWith 0 toks = ''select''
                      else leading = ''select'') in
      if \<not> isSelect then False else isProcInvoking builtins toks)"

section \<open>Several statements\<close>

text \<open>
  One step of the two semicolon scanners at a character other than a depth-zero semicolon: the
  new depth and the text at the next index.
\<close>

definition skip_one :: "nat \<Rightarrow> char \<Rightarrow> string \<Rightarrow> nat \<times> string" where
  "skip_one depth c s =
     (if c = CHR ''-'' \<and> starts CHR ''-'' s then (depth, drop 1 (skip_line (tl s)))
      else if c = CHR ''/'' \<and> starts CHR ''*'' s then (depth, skip_block 1 (tl s))
      else if c = quote then (depth, skip_squote s)
      else if c = CHR ''$'' then
        (case dollarTag s of
           Some (tag, r) \<Rightarrow> (depth, after_sub (CHR ''$'' # tag @ [CHR ''$'']) r)
         | None \<Rightarrow> (depth, s))
      else if c = CHR ''('' then (depth + 1, s)
      else if c = CHR '')'' then (depth - 1, s)
      else (depth, s))"

lemma skip_one_length: "length (snd (skip_one depth c s)) \<le> length s"
proof -
  have "length (after_sub p r) \<le> length s" if "dollarTag s = Some (tag, r)" for p tag r
    using dollarTag_length [OF that] after_sub_length [of p r] by linarith
  moreover have "length (skip_line (tl s)) - 1 \<le> length s" "length (skip_block 1 (tl s)) \<le> length s"
    using skip_line_length [of "tl s"] skip_block_length [of 1 "tl s"] by simp_all
  ultimately show ?thesis
    by (auto simp: skip_one_def skip_squote_length split: option.split)
qed

definition blank_char :: "char \<Rightarrow> bool" where
  "blank_char c \<longleftrightarrow> code c \<in> {32, 9, 10, 13}"

text \<open>\<open>n\<close> is the length of the whole text, so the index is \<open>n\<close> minus what remains.\<close>

function indexDepthZeroSemicolon :: "nat \<Rightarrow> nat \<Rightarrow> string \<Rightarrow> nat option" where
  "indexDepthZeroSemicolon n depth [] = None"
| "indexDepthZeroSemicolon n depth (c # s) =
     (if c = CHR '';'' \<and> depth = 0 then
        (if list_all blank_char s then None else Some (n - length (c # s)))
      else indexDepthZeroSemicolon n (fst (skip_one depth c s)) (snd (skip_one depth c s)))"
  by pat_completeness auto
termination
  by (relation "measure (\<lambda>(n, d, s). length s)") (auto simp: skip_one_length less_Suc_eq_le split_beta)

declare indexDepthZeroSemicolon.simps(2) [simp del]

text \<open>\<open>acc\<close> is \<^verbatim>\<open>sql[start:i]\<close>.\<close>

function splitOnDepthZeroSemicolons :: "nat \<Rightarrow> string \<Rightarrow> string \<Rightarrow> string list" where
  "splitOnDepthZeroSemicolons depth acc [] = (if acc = [] then [] else [acc])"
| "splitOnDepthZeroSemicolons depth acc (c # s) =
     (if c = CHR '';'' \<and> depth = 0 then acc # splitOnDepthZeroSemicolons depth [] s
      else let rest = snd (skip_one depth c s) in
        splitOnDepthZeroSemicolons (fst (skip_one depth c s))
          (acc @ take (length (c # s) - length rest) (c # s)) rest)"
  by pat_completeness auto
termination
  by (relation "measure (\<lambda>(d, acc, s). length s)") (auto simp: skip_one_length less_Suc_eq_le split_beta)

declare splitOnDepthZeroSemicolons.simps(2) [simp del]

fun stmtClassPriority :: "StmtClass \<Rightarrow> nat" where
  "stmtClassPriority ClassUnknown = 0"
| "stmtClassPriority ClassPlainSelect = 1"
| "stmtClassPriority ClassUtility = 2"
| "stmtClassPriority ClassProcSelect = 3"
| "stmtClassPriority ClassCopyFrom = 4"
| "stmtClassPriority ClassDML = 5"
| "stmtClassPriority ClassDDL = 6"
| "stmtClassPriority ClassBegin = 7"
| "stmtClassPriority ClassCommitRollback = 8"
| "stmtClassPriority ClassCall = 5"

fun best_class :: "StmtClass \<Rightarrow> StmtClass list \<Rightarrow> StmtClass" where
  "best_class best [] = best"
| "best_class best (cls # rest) =
     best_class (if stmtClassPriority best < stmtClassPriority cls then cls else best) rest"

definition classifyMultiStatement :: "string list \<Rightarrow> string \<Rightarrow> StmtClass" where
  "classifyMultiStatement builtins sql =
     best_class ClassUnknown (map (classifySingle builtins)
       (filter (\<lambda>stmt. stmt \<noteq> '''') (map TrimSpace (splitOnDepthZeroSemicolons 0 [] sql))))"

definition Classify :: "string list \<Rightarrow> string \<Rightarrow> StmtClass" where
  "Classify builtins sql = (case indexDepthZeroSemicolon (length sql) 0 sql of
       Some i \<Rightarrow> classifyMultiStatement builtins sql
     | None \<Rightarrow> classifySingle builtins sql)"

end
