(* ===== verification/Executors.thy ===== *)
theory Executors
  imports Complex_Main Classifier
begin

text \<open>
  The execution chain of the replayer, \<^verbatim>\<open>src/pkg/replayer/exec_decorators.go\<close>, \<^verbatim>\<open>dialect.go\<close> and
  the parameter handling of \<^verbatim>\<open>replayer_impl.go\<close>. An executor is a function on the state \<open>'w\<close> of the
  target and the clock; \<^verbatim>\<open>ctx.Err() != nil\<close> is a predicate of that state. The float arithmetic of the
  pacing factor, the rate limiter and the target are parameters.
\<close>

type_synonym 'w executor = "ConnID \<Rightarrow> SQLEvent \<Rightarrow> 'w \<Rightarrow> string option \<times> 'w"

section \<open>Error policy\<close>

datatype ErrorPolicy = Skip | Retry | Abort

definition defaultRetryAttempts :: nat where "defaultRetryAttempts = 3"

record 'w errorPolicyExecutor =
  ep_next :: "'w executor"
  ep_policy :: ErrorPolicy
  ep_maxAttempts :: nat
  ep_onAbort :: "('w \<Rightarrow> 'w) option"
  ep_resetExec :: "'w executor option"

definition newErrorPolicyExecutor ::
    "'w executor \<Rightarrow> ErrorPolicy \<Rightarrow> ('w \<Rightarrow> 'w) option \<Rightarrow> 'w errorPolicyExecutor" where
  "newErrorPolicyExecutor next policy onAbort =
     \<lparr>ep_next = next, ep_policy = policy, ep_maxAttempts = defaultRetryAttempts, ep_onAbort = onAbort, ep_resetExec = None\<rparr>"

definition resetTxState :: "'w errorPolicyExecutor \<Rightarrow> ConnID \<Rightarrow> 'w \<Rightarrow> 'w" where
  "resetTxState e conn w = (case ep_resetExec e of
       None \<Rightarrow> w
     | Some reset \<Rightarrow> snd (reset conn ((zero_event conn)\<lparr>SQL := ''ROLLBACK''\<rparr>) w))"

text \<open>The attempts left, the last error, and whether the loop returned.\<close>

fun retry_loop :: "('w \<Rightarrow> bool) \<Rightarrow> 'w executor \<Rightarrow> ConnID \<Rightarrow> SQLEvent \<Rightarrow> nat \<Rightarrow> string \<Rightarrow> 'w
    \<Rightarrow> string option option \<times> 'w" where
  "retry_loop ctx next conn ev 0 err w = (None, w)"
| "retry_loop ctx next conn ev (Suc n) err w =
     (if ctx w then (Some (Some err), w)
      else case next conn ev w of
        (None, w) \<Rightarrow> (Some None, w)
      | (Some err, w) \<Rightarrow> retry_loop ctx next conn ev n err w)"

definition errorPolicy_Exec :: "('w \<Rightarrow> bool) \<Rightarrow> 'w errorPolicyExecutor \<Rightarrow> 'w executor" where
  "errorPolicy_Exec ctx e conn ev w = (case ep_next e conn ev w of
       (None, w) \<Rightarrow> (None, w)
     | (Some err, w) \<Rightarrow>
         if ctx w then (Some err, w)
         else (case ep_policy e of
           Retry \<Rightarrow> (case retry_loop ctx (ep_next e) conn ev (ep_maxAttempts e) err w of
               (Some res, w) \<Rightarrow> (res, w)
             | (None, w) \<Rightarrow> (None, resetTxState e conn w))
         | Abort \<Rightarrow> (Some err, case ep_onAbort e of None \<Rightarrow> w | Some f \<Rightarrow> f w)
         | Skip \<Rightarrow> (None, resetTxState e conn w)))"

section \<open>Pacing and rate limit\<close>

definition maxPacingDelay :: int where "maxPacingDelay = 30 * 10 ^ 9"

text \<open>\<open>fdiv\<close> is the quotient of two float64, truncated to a duration.\<close>

definition pacingDelay :: "(int \<Rightarrow> rat \<Rightarrow> int) \<Rightarrow> int \<Rightarrow> rat \<Rightarrow> int" where
  "pacingDelay fdiv gap factor = (if factor \<le> 0 \<or> gap \<le> 0 then 0 else fdiv gap factor)"

record pacing =
  pc_factor :: rat
  pc_prev :: "int option"

text \<open>The pacing state is shared by all lanes; the delay is handed to the sleeper.\<close>

definition pacing_step :: "(int \<Rightarrow> rat \<Rightarrow> int) \<Rightarrow> SQLEvent \<Rightarrow> pacing \<Rightarrow> int \<times> pacing" where
  "pacing_step fdiv ev p =
     (let delay = (case pc_prev p of None \<Rightarrow> 0 | Some prev \<Rightarrow> pacingDelay fdiv (Timestamp ev - prev) (pc_factor p));
          delay = (if delay > maxPacingDelay then maxPacingDelay else delay)
      in (delay, p\<lparr>pc_prev := Some (Timestamp ev)\<rparr>))"

definition pacing_Exec ::
    "(int \<Rightarrow> rat \<Rightarrow> int) \<Rightarrow> (int \<Rightarrow> 'w \<Rightarrow> 'w) \<Rightarrow> 'w executor \<Rightarrow> ConnID \<Rightarrow> SQLEvent \<Rightarrow> pacing \<times> 'w
       \<Rightarrow> string option \<times> pacing \<times> 'w" where
  "pacing_Exec fdiv sleep next conn ev pw =
     (case pacing_step fdiv ev (fst pw) of (delay, p) \<Rightarrow>
        case next conn ev (if delay > 0 then sleep delay (snd pw) else snd pw) of (err, w) \<Rightarrow> (err, p, w))"

definition rateLimit_Exec :: "('w \<Rightarrow> string option \<times> 'w) \<Rightarrow> 'w executor \<Rightarrow> 'w executor" where
  "rateLimit_Exec wait next conn ev w = (case wait w of
       (Some err, w) \<Rightarrow> (Some err, w)
     | (None, w) \<Rightarrow> next conn ev w)"

section \<open>Dialect\<close>

definition txControlKeywords :: "string list" where
  "txControlKeywords = [''begin'', ''start'', ''commit'', ''end'', ''rollback'', ''abort'']"

definition ascii_letter :: "char \<Rightarrow> bool" where
  "ascii_letter c \<longleftrightarrow> 97 \<le> code c \<and> code c \<le> 122 \<or> 65 \<le> code c \<and> code c \<le> 90"

function skipLeadingNoise :: "string \<Rightarrow> string" where
  "skipLeadingNoise [] = []"
| "skipLeadingNoise (c # s) =
     (if space_char c then skipLeadingNoise s
      else if c = CHR ''-'' \<and> starts CHR ''-'' s then skipLeadingNoise (skip_line (tl s))
      else if c = CHR ''/'' \<and> starts CHR ''*'' s then skipLeadingNoise (skip_block 1 (tl s))
      else c # s)"
  by pat_completeness auto
termination
proof (relation "measure length", goal_cases)
  case (3 c s)
  then show ?case using skip_line_length [of "tl s"] by simp
next
  case (4 c s)
  then show ?case using skip_block_length [of 1 "tl s"] by simp
qed simp_all

definition leadingKeyword :: "string \<Rightarrow> string" where
  "leadingKeyword sql = ToLower (takeWhile (\<lambda>c. ascii_letter c \<or> c = CHR ''_'') (skipLeadingNoise sql))"

definition isTransactionControl :: "string \<Rightarrow> bool" where
  "isTransactionControl sql \<longleftrightarrow> leadingKeyword sql \<in> set txControlKeywords"

definition greenplum_Exec :: "'w executor \<Rightarrow> 'w executor" where
  "greenplum_Exec next conn ev w = (if isTransactionControl (SQL ev) then (None, w) else next conn ev w)"

definition newDialectExecutor :: "'w executor \<Rightarrow> string \<Rightarrow> 'w executor" where
  "newDialectExecutor next dialect =
     (if ToLower (TrimSpace dialect) = ''greenplum'' then greenplum_Exec next else next)"

section \<open>The statement sent to the target\<close>

definition splitParams :: "ParamInfo list \<Rightarrow> u32 list \<times> bytes option list \<times> u16 list" where
  "splitParams ps = (map OID ps, map Value ps, map Format ps)"

definition copyDataReader :: "bytes list \<Rightarrow> bytes" where
  "copyDataReader data = concat data"

datatype pg_call =
  CopyFrom bytes string
| ExecParams string "bytes option list" "u32 list" "u16 list"
| PlainExec string

definition pool_call :: "SQLEvent \<Rightarrow> pg_call" where
  "pool_call ev =
     (if CopyData ev \<noteq> [] then CopyFrom (copyDataReader (CopyData ev)) (SQL ev)
      else if Extended ev \<and> Params ev \<noteq> []
      then (case splitParams (Params ev) of (oids, values, formats) \<Rightarrow> ExecParams (SQL ev) values oids formats)
      else PlainExec (SQL ev))"

section \<open>The error policy\<close>

text \<open>The calls of an executor with their outcomes, recorded in the state.\<close>

type_synonym exec_log = "(SQLEvent \<times> string option) list"

definition logged :: "'w executor \<Rightarrow> (exec_log \<times> 'w) executor" where
  "logged next conn ev lw = (case next conn ev (snd lw) of (err, w) \<Rightarrow> (err, fst lw @ [(ev, err)], w))"

abbreviation failures :: "SQLEvent \<Rightarrow> string list \<Rightarrow> exec_log" where
  "failures ev errs \<equiv> map (\<lambda>x. (ev, Some x)) errs"

lemma logged_call: "next conn ev w = (err, w') \<Longrightarrow> logged next conn ev (l, w) = (err, l @ [(ev, err)], w')"
  by (simp add: logged_def)

lemma retry_loop_log:
  assumes "retry_loop (\<lambda>lw. ctx (snd lw)) (logged next) conn ev n err (l, w) = (res, (l', w'))"
  shows "\<exists>errs. (res = Some None \<and> l' = l @ failures ev errs @ [(ev, None)] \<and> length errs < n)
    \<or> (res = None \<and> l' = l @ failures ev errs \<and> length errs = n)
    \<or> (res = Some (Some (last (err # errs))) \<and> l' = l @ failures ev errs \<and> length errs < n \<and> ctx w')"
  using assms
proof (induction n arbitrary: err l w)
  case (Suc n)
  show ?case
  proof (cases "ctx w")
    case True
    then show ?thesis using Suc.prems by (intro exI [of _ "[]"]) simp
  next
    case False
    obtain e w1 where nx: "next conn ev w = (e, w1)" by (cases "next conn ev w")
    show ?thesis
    proof (cases e)
      case None
      then show ?thesis using Suc.prems False nx by (intro exI [of _ "[]"]) (simp add: logged_call)
    next
      case (Some err1)
      then have "retry_loop (\<lambda>lw. ctx (snd lw)) (logged next) conn ev n err1 (l @ failures ev [err1], w1) = (res, (l', w'))"
        using Suc.prems False nx by (simp add: logged_call)
      from Suc.IH [OF this] obtain errs where
        "(res = Some None \<and> l' = l @ failures ev (err1 # errs) @ [(ev, None)] \<and> length (err1 # errs) < Suc n)
        \<or> (res = None \<and> l' = l @ failures ev (err1 # errs) \<and> length (err1 # errs) = Suc n)
        \<or> (res = Some (Some (last (err # err1 # errs))) \<and> l' = l @ failures ev (err1 # errs) \<and> length (err1 # errs) < Suc n \<and> ctx w')"
        by auto
      then show ?thesis by blast
    qed
  qed
qed simp

text \<open>
  C35: what the error policy does with an event, whatever the target does. Only that event is sent;
  either an attempt succeeds, the only one or under retry one of the first four; or the event is
  given up under skip or retry, no error is returned and the connection's transaction is rolled
  back; or the last error is returned, which happens only under abort or when the context is done.
\<close>

theorem error_policy:
  assumes "errorPolicy_Exec (\<lambda>lw. ctx (snd lw))
      ((newErrorPolicyExecutor (logged target) policy None)\<lparr>ep_resetExec := Some (logged target)\<rparr>) conn ev ([], w)
      = (res, (calls, w'))"
  shows "\<exists>errs. (calls = failures ev errs @ [(ev, None)] \<and> res = None \<and> length errs \<le> (if policy = Retry then 3 else 0))
    \<or> (\<exists>y. calls = failures ev errs @ [((zero_event conn)\<lparr>SQL := ''ROLLBACK''\<rparr>, y)] \<and> res = None
        \<and> policy \<noteq> Abort \<and> length errs = (if policy = Retry then 4 else 1))
    \<or> (calls = failures ev errs \<and> errs \<noteq> [] \<and> res = Some (last errs) \<and> (ctx w' \<or> policy = Abort)
        \<and> length errs \<le> (if policy = Retry then 4 else 1))"
proof -
  obtain r1 w1 where t: "target conn ev w = (r1, w1)" by (cases "target conn ev w")
  note run = assms [unfolded errorPolicy_Exec_def newErrorPolicyExecutor_def defaultRetryAttempts_def]
  consider "r1 = None" | err where "r1 = Some err" "ctx w1 \<or> policy \<noteq> Retry" | err where "r1 = Some err" "\<not> ctx w1" "policy = Retry"
    by (cases r1) blast+
  then show ?thesis
  proof cases
    case 1
    then show ?thesis using run t by (intro exI [of _ "[]"]) (simp add: logged_call)
  next
    case (2 err)
    then show ?thesis using run t
      by (intro exI [of _ "[err]"], cases policy)
        (auto simp: logged_call resetTxState_def logged_def [of _ _ "_ :: SQLEvent" "(_, _)"] split: if_splits prod.splits)
  next
    case (3 err)
    obtain r2 l2 w2 where loop:
      "retry_loop (\<lambda>lw. ctx (snd lw)) (logged target) conn ev 3 err ([(ev, Some err)], w1) = (r2, (l2, w2))"
      by (metis surj_pair)
    from retry_loop_log [OF loop] obtain errs where errs:
      "(r2 = Some None \<and> l2 = failures ev (err # errs) @ [(ev, None)] \<and> length errs < 3)
      \<or> (r2 = None \<and> l2 = failures ev (err # errs) \<and> length errs = 3)
      \<or> (r2 = Some (Some (last (err # errs))) \<and> l2 = failures ev (err # errs) \<and> length errs < 3 \<and> ctx w2)" by auto
    have run': "(res, (calls, w')) = (case r2 of Some r \<Rightarrow> (r, (l2, w2))
        | None \<Rightarrow> (None, snd (logged target conn ((zero_event conn)\<lparr>SQL := ''ROLLBACK''\<rparr>) (l2, w2))))"
      using run t 3 loop by (simp add: logged_call resetTxState_def split: option.splits)
    then show ?thesis using errs 3(3)
      by (intro exI [of _ "err # errs"]) (auto simp: logged_def split: prod.splits)
  qed
qed

definition sample_source :: ConnID where
  "sample_source = \<lparr>SrcIP = [10, 0, 0, 1], SrcPort = 40000, DstIP = [10, 0, 0, 2], DstPort = 5432\<rparr>"

text \<open>A target that fails twice.\<close>

definition flaky :: "nat executor" where
  "flaky conn ev n = (if n < 2 then Some ''deadlock'' else None, n + 1)"

lemma error_policy_witness:
  "\<exists>res calls w' errs. errorPolicy_Exec (\<lambda>lw. snd lw = 9)
      ((newErrorPolicyExecutor (logged flaky) Retry None)\<lparr>ep_resetExec := Some (logged flaky)\<rparr>)
      sample_source (zero_event sample_source) ([], 0) = (res, (calls, w'))
    \<and> ((calls = failures (zero_event sample_source) errs @ [(zero_event sample_source, None)] \<and> res = None
         \<and> length errs \<le> (if Retry = Retry then 3 else 0))
     \<or> (\<exists>y. calls = failures (zero_event sample_source) errs @ [((zero_event sample_source)\<lparr>SQL := ''ROLLBACK''\<rparr>, y)]
          \<and> res = None \<and> Retry \<noteq> Abort \<and> length errs = (if Retry = Retry then 4 else 1))
     \<or> (calls = failures (zero_event sample_source) errs \<and> errs \<noteq> [] \<and> res = Some (last errs)
          \<and> (w' = 9 \<or> Retry = Abort) \<and> length errs \<le> (if Retry = Retry then 4 else 1)))"
proof -
  let ?ev = "zero_event sample_source"
  have call: "logged flaky c ev (l, n) = (if n < 2 then Some ''deadlock'' else None, l @ [(ev, if n < 2 then Some ''deadlock'' else None)], n + 1)"
    for c ev l n by (rule logged_call) (simp add: flaky_def)
  have run: "errorPolicy_Exec (\<lambda>lw. snd lw = 9)
      ((newErrorPolicyExecutor (logged flaky) Retry None)\<lparr>ep_resetExec := Some (logged flaky)\<rparr>)
      sample_source ?ev ([], 0) = (None, (failures ?ev [''deadlock'', ''deadlock''] @ [(?ev, None)], 3))"
    by (simp add: errorPolicy_Exec_def newErrorPolicyExecutor_def defaultRetryAttempts_def numeral_3_eq_3 call)
  show ?thesis by (rule exI [of _ None], rule exI, rule exI [of _ 3]) (use run error_policy [OF run] in blast)
qed

section \<open>Pacing\<close>

text \<open>
  Pacing never waits longer than thirty seconds for an event, never for an event captured before
  the previous one, and not at all when the factor asks for full speed.
\<close>

theorem pacing_bounded:
  "fst (pacing_step fdiv ev p) \<le> maxPacingDelay
    \<and> (pc_prev p = Some t \<and> Timestamp ev \<le> t \<longrightarrow> fst (pacing_step fdiv ev p) = 0)
    \<and> (pc_factor p \<le> 0 \<longrightarrow> fst (pacing_step fdiv ev p) = 0)
    \<and> pc_prev (snd (pacing_step fdiv ev p)) = Some (Timestamp ev)"
  by (auto simp: pacing_step_def pacingDelay_def maxPacingDelay_def Let_def split: option.split)

section \<open>Dialect\<close>

lemma lex_noise: "lex (skipLeadingNoise sql) = lex sql"
proof (induction sql rule: skipLeadingNoise.induct)
  case (2 c s)
  show ?case
  proof (cases "space_char c \<or> c = CHR ''-'' \<and> starts CHR ''-'' s \<or> c = CHR ''/'' \<and> starts CHR ''*'' s")
    case True
    then show ?thesis using 2 by (auto simp: lex.simps(2) [of c s])
  next
    case False
    then have "skipLeadingNoise (c # s) = c # s" by auto
    then show ?thesis by simp
  qed
qed simp

lemma takeWhile_same:
  assumes "\<And>x. P x \<Longrightarrow> Q x" and "\<forall>x \<in> set (takeWhile Q xs). P x"
  shows "takeWhile P xs = takeWhile Q xs"
  using assms(2)
proof (induction xs)
  case (Cons x xs)
  then show ?case using assms(1) [of x] by (cases "Q x") auto
qed simp

lemma if_memI: "(P \<Longrightarrow> x \<in> A) \<Longrightarrow> (\<not> P \<Longrightarrow> y \<in> A) \<Longrightarrow> (if P then x else y) \<in> A"
  by simp

lemma classify_tx:
  "classifySingle b sql \<in> {ClassBegin, ClassCommitRollback} \<longleftrightarrow>
     firstWord (lex sql) \<in> {''begin'', ''start''} \<or> firstWord (lex sql) \<in> {''commit'', ''end''}
     \<or> firstWord (lex sql) = ''rollback'' \<and> \<not> hasSecondWord (lex sql) ''to''"
proof -
  let ?w = "firstWord (lex sql)"
  consider "?w \<in> {''begin'', ''start'', ''commit'', ''end'', ''rollback''}"
    | "?w \<notin> {''begin'', ''start''}" "?w \<notin> {''commit'', ''end''}" "?w \<noteq> ''rollback''" by blast
  then show ?thesis
  proof cases
    case 1
    then show ?thesis by (elim insertE emptyE) (simp_all add: classifySingle_def Let_def)
  next
    case 2
    have sel: "x \<notin> {ClassBegin, ClassCommitRollback}" if "x \<in> {ClassUnknown, ClassCall, ClassDML, ClassDDL, ClassUtility,
      ClassCopyFrom, ClassProcSelect, ClassPlainSelect}" for x using that by auto
    have "classifySingle b sql \<in> {ClassUnknown, ClassCall, ClassDML, ClassDDL, ClassUtility,
      ClassCopyFrom, ClassProcSelect, ClassPlainSelect}"
      unfolding classifySingle_def Let_def by (intro if_memI; use 2 in blast)
    then show ?thesis using 2 sel by blast
  qed
qed

lemma lex_letter:
  assumes "ascii_letter c \<or> c = CHR ''_''"
  shows "lex (c # s) = TWord (c # takeWhile isIdentPart s) # lex (dropWhile isIdentPart s)"
proof -
  have "code c \<notin> {9, 10, 11, 12, 13, 32, 34, 36, 39, 40, 41, 45, 46, 47}" and "isIdentStart c"
    using assms by (auto simp: ascii_letter_def isIdentStart_def)
  moreover from this have "c \<noteq> CHR ''-'' \<and> c \<noteq> CHR ''/'' \<and> c \<noteq> quote \<and> c \<noteq> dquote \<and> c \<noteq> CHR ''$''
      \<and> c \<noteq> CHR ''('' \<and> c \<noteq> CHR '')'' \<and> c \<noteq> CHR ''.''" by auto
  ultimately show ?thesis by (subst lex.simps(2)) (simp add: space_char_def)
qed



text \<open>A batch that opens a transaction is dropped as a whole, with the statements in it.\<close>

lemma greenplum_drops_batch:
  "isTransactionControl ''BEGIN; INSERT INTO t VALUES (1); COMMIT''"
  "SQL ev = ''BEGIN; INSERT INTO t VALUES (1); COMMIT'' \<Longrightarrow> greenplum_Exec next conn ev w = (None, w)"
proof -
  show "isTransactionControl ''BEGIN; INSERT INTO t VALUES (1); COMMIT''" by code_simp
  then show "greenplum_Exec next conn ev w = (None, w)" if "SQL ev = ''BEGIN; INSERT INTO t VALUES (1); COMMIT''"
    using that by (simp add: greenplum_Exec_def)
qed

end
