(* ===== verification/Replay_Guard.thy ===== *)
theory Replay_Guard
  imports Executors
begin

text \<open>
  The safeguards applied before an event is replayed, \<^verbatim>\<open>src/pkg/replayguard/replayguard.go\<close> and the
  decorator of \<^verbatim>\<open>src/pkg/replayer/replayguard_executor.go\<close>. A compiled regular expression is the
  pair of what its \<^verbatim>\<open>MatchString\<close> and its \<^verbatim>\<open>ReplaceAllString\<close> compute; the renderings of a time are
  parameters. As in the classifier, a scanner consumes the text. \<^verbatim>\<open>strings.ToUpper\<close> is its ASCII mapping.
\<close>

section \<open>Literals\<close>

definition tag_char :: "char \<Rightarrow> bool" where
  "tag_char c \<longleftrightarrow> ascii_letter c \<or> isDigit c \<or> c = CHR ''_''"

definition parseDollarTag :: "string \<Rightarrow> string" where
  "parseDollarTag s = (case s of [] \<Rightarrow> []
     | c # r \<Rightarrow> if c = CHR ''$'' \<and> starts CHR ''$'' (dropWhile tag_char r)
         then CHR ''$'' # takeWhile tag_char r @ ''$'' else [])"

fun hasDollarQuote :: "string \<Rightarrow> bool" where
  "hasDollarQuote [] = False"
| "hasDollarQuote (c # s) = (c = CHR ''$'' \<and> parseDollarTag (c # s) \<noteq> [] \<or> hasDollarQuote s)"

text \<open>\<^verbatim>\<open>strings.Index\<close>.\<close>

fun Index :: "string \<Rightarrow> string \<Rightarrow> nat option" where
  "Index s sub = (if prefix sub s then Some 0 else case s of [] \<Rightarrow> None | c # r \<Rightarrow> map_option Suc (Index r sub))"

declare Index.simps [simp del]

lemma Index_bound: "Index s sub = Some n \<Longrightarrow> n + length sub \<le> length s"
proof (induction s sub arbitrary: n rule: Index.induct)
  case (1 s sub)
  then show ?case
    by (subst (asm) Index.simps) (auto split: if_splits list.splits dest: prefix_length_le)
qed

lemma parse_tag_shape:
  assumes "parseDollarTag s = t" "t \<noteq> []"
  shows "2 \<le> length t" and "prefix t s"
proof -
  obtain r where s: "s = CHR ''$'' # r" and t: "t = CHR ''$'' # takeWhile tag_char r @ ''$''"
    and d: "starts CHR ''$'' (dropWhile tag_char r)"
    using assms by (auto simp: parseDollarTag_def split: list.splits if_splits)
  show "2 \<le> length t" by (simp add: t)
  have "prefix (takeWhile tag_char r @ ''$'') (takeWhile tag_char r @ dropWhile tag_char r)"
    using d by (cases "dropWhile tag_char r") simp_all
  then show "prefix t s" by (simp add: s t)
qed

text \<open>
  The loop of \<^verbatim>\<open>stripStringLiterals\<close>, outside and inside a literal.
\<close>

function (sequential) strip_out :: "string \<Rightarrow> string" and strip_in :: "string \<Rightarrow> string" where
  "strip_out [] = []"
| "strip_out (c # s) =
     (if c = quote then quote # strip_in s
      else if c = CHR ''$'' \<and> parseDollarTag (c # s) \<noteq> [] then
        (let tag = parseDollarTag (c # s); r = drop (length tag) (c # s) in
         case Index r tag of
           Some e \<Rightarrow> tag @ tag @ strip_out (drop (e + length tag) r)
         | None \<Rightarrow> tag @ r)
      else c # strip_out s)"
| "strip_in [] = []"
| "strip_in (c # s) =
     (if c = quote then (if starts quote s then strip_in (tl s) else quote # strip_out s)
      else strip_in s)"
  by pat_completeness auto
termination
proof (relation "measure (case_sum length length)", goal_cases)
  case (3 c s tag r e)
  then show ?case using parse_tag_shape [of "c # s" tag] by auto
qed auto

definition stripStringLiterals :: "string \<Rightarrow> string" where
  "stripStringLiterals sql = strip_out sql"

record regexp =
  MatchString :: "string \<Rightarrow> bool"
  ReplaceAllString :: "string \<Rightarrow> string \<Rightarrow> string"

text \<open>The loop of \<^verbatim>\<open>replaceOutsideStrings\<close>, with the segment read so far.\<close>

function (sequential) replace_out :: "(string \<Rightarrow> string) \<Rightarrow> string \<Rightarrow> string \<Rightarrow> string"
    and replace_in :: "(string \<Rightarrow> string) \<Rightarrow> string \<Rightarrow> string \<Rightarrow> string" where
  "replace_out f seg [] = f seg"
| "replace_out f seg (c # s) =
     (if c = quote then f seg @ quote # replace_in f [] s
      else if c = CHR ''$'' \<and> parseDollarTag (c # s) \<noteq> [] then
        (let tag = parseDollarTag (c # s); r = drop (length tag) (c # s) in
         f seg @ tag @ (case Index r tag of
           Some e \<Rightarrow> take e r @ tag @ replace_out f [] (drop (e + length tag) r)
         | None \<Rightarrow> r))
      else replace_out f (seg @ [c]) s)"
| "replace_in f seg [] = seg"
| "replace_in f seg (c # s) =
     (if c = quote
      then (if starts quote s then replace_in f (seg @ [c, quote]) (tl s) else seg @ [c] @ replace_out f [] s)
      else replace_in f (seg @ [c]) s)"
  by pat_completeness auto
termination
proof (relation "measure (case_sum (\<lambda>(f, seg, s). length s) (\<lambda>(f, seg, s). length s))", goal_cases)
  case (3 f seg c s tag r e)
  then show ?case using parse_tag_shape [of "c # s" tag] by auto
qed auto

definition replaceOutsideStrings :: "string \<Rightarrow> regexp \<Rightarrow> string \<Rightarrow> string" where
  "replaceOutsideStrings sql pat replacement = replace_out (\<lambda>seg. ReplaceAllString pat seg replacement) [] sql"

section \<open>The guard\<close>

record guard_config =
  ExcludeDDL :: bool
  RewriteTimeFunctions :: bool
  SkipExternalDeps :: bool
  MaxReplayLagSeconds :: rat
  MaxQueueDepth :: int
  MaxTransactionDuration :: int
  MaxStatementsPerTx :: int
  MaskPatterns :: "(string \<times> string) list"
  ReplayPercentage :: rat
  IncludeTables :: "string list"
  ExcludeTables :: "string list"
  IncludeUsers :: "string list"
  ReadOnly :: bool

text \<open>
  What the regexp package compiles: the fixed patterns, the word pattern of a table name, and a
  mask pattern, which may be invalid; and the three renderings of a time.
\<close>

record guard_library =
  lib_ddl :: regexp
  lib_time :: "regexp list"
  lib_external :: "regexp list"
  lib_table :: "string \<Rightarrow> regexp"
  lib_compile :: "string \<Rightarrow> regexp option"
  lib_timestamptz :: "int \<Rightarrow> string"
  lib_date :: "int \<Rightarrow> string"
  lib_timetz :: "int \<Rightarrow> string"

record Guard =
  g_cfg :: guard_config
  ddlPattern :: regexp
  timePatterns :: "regexp list"
  externalPatterns :: "regexp list"
  maskPatterns :: "(regexp \<times> string) list"
  tablePatterns :: "regexp list"
  excludeTablePat :: "regexp list"
  includeUsers :: "string list"
  g_paused :: bool
  g_counter :: u64

definition new_guard :: "guard_library \<Rightarrow> guard_config \<Rightarrow> Guard" where
  "new_guard lib cfg = \<lparr>g_cfg = cfg, ddlPattern = lib_ddl lib, timePatterns = lib_time lib,
     externalPatterns = lib_external lib,
     maskPatterns = concat (map (\<lambda>(p, repl). case lib_compile lib p of None \<Rightarrow> [] | Some re \<Rightarrow> [(re, repl)]) (MaskPatterns cfg)),
     tablePatterns = map (lib_table lib) (IncludeTables cfg), excludeTablePat = map (lib_table lib) (ExcludeTables cfg),
     includeUsers = map ToLower (IncludeUsers cfg), g_paused = False, g_counter = 0\<rparr>"

datatype Decision = Allow | DBlock | Rewrite

definition upper_char :: "char \<Rightarrow> char" where
  "upper_char c = (if 97 \<le> code c \<and> code c \<le> 122 then char_of (code c - 32) else c)"

definition ToUpper :: "string \<Rightarrow> string" where
  "ToUpper s = map upper_char s"

definition isSelect :: "string \<Rightarrow> bool" where
  "isSelect sql = (let upper = ToUpper (TrimSpace sql) in
     prefix ''SELECT'' upper \<or> prefix ''WITH'' upper \<or> prefix ''EXPLAIN'' upper)"

definition isSessionCommand :: "string \<Rightarrow> bool" where
  "isSessionCommand sql = (let upper = ToUpper (TrimSpace sql) in
     prefix ''SET '' upper \<or> prefix ''RESET '' upper \<or> prefix ''DISCARD '' upper)"

text \<open>The test that avoids the scan of the literals.\<close>

definition stripped_of :: "string \<Rightarrow> string" where
  "stripped_of sql = (if quote \<in> set sql \<or> hasDollarQuote sql then stripStringLiterals sql else sql)"

fun mask_all :: "(regexp \<times> string) list \<Rightarrow> string \<Rightarrow> bool \<times> string" where
  "mask_all [] sql = (False, sql)"
| "mask_all ((re, repl) # ms) sql =
     (if MatchString re sql
      then (True, snd (mask_all ms (ReplaceAllString re sql repl)))
      else mask_all ms sql)"

text \<open>The time functions in turn, \<open>i\<close> the index of the next pattern.\<close>

fun rewrite_times :: "guard_library \<Rightarrow> int \<Rightarrow> nat \<Rightarrow> regexp list \<Rightarrow> bool \<times> string \<Rightarrow> bool \<times> string" where
  "rewrite_times lib t i [] rs = rs"
| "rewrite_times lib t i (pat # pats) (rewritten, sql) =
     (let ts = (if i = 2 then lib_date lib t else if i = 6 then lib_timetz lib t else lib_timestamptz lib t);
          cur = stripped_of sql in
      if MatchString pat cur
      then rewrite_times lib t (Suc i) pats
        (True, if cur = sql then ReplaceAllString pat sql ts else replaceOutsideStrings sql pat ts)
      else rewrite_times lib t (Suc i) pats (rewritten, sql))"

definition table_blocks :: "Guard \<Rightarrow> string \<Rightarrow> string \<Rightarrow> bool" where
  "table_blocks g sql stripped \<longleftrightarrow>
     (tablePatterns g \<noteq> [] \<or> excludeTablePat g \<noteq> []) \<and> \<not> isSessionCommand sql
     \<and> (tablePatterns g \<noteq> [] \<and> \<not> list_ex (\<lambda>p. MatchString p stripped) (tablePatterns g)
        \<or> list_ex (\<lambda>p. MatchString p stripped) (excludeTablePat g))"

definition content_blocks :: "Guard \<Rightarrow> SQLEvent \<Rightarrow> string \<Rightarrow> bool" where
  "content_blocks g ev sql \<longleftrightarrow>
     includeUsers g \<noteq> [] \<and> ToLower (User ev) \<notin> set (includeUsers g)
     \<or> ReadOnly (g_cfg g) \<and> \<not> isSelect sql
     \<or> ExcludeDDL (g_cfg g) \<and> MatchString (ddlPattern g) sql
     \<or> SkipExternalDeps (g_cfg g) \<and> list_ex (\<lambda>p. MatchString p (stripped_of sql)) (externalPatterns g)
     \<or> table_blocks g sql (stripped_of sql)"

definition sampled_out :: "Guard \<Rightarrow> bool \<times> Guard" where
  "sampled_out g =
     (if 0 < ReplayPercentage (g_cfg g) \<and> ReplayPercentage (g_cfg g) < 100
      then let cnt = g_counter g + 1 in
        (ReplayPercentage (g_cfg g) \<le> of_nat (unat cnt mod 100), g\<lparr>g_counter := cnt\<rparr>)
      else (False, g))"

definition Apply :: "guard_library \<Rightarrow> SQLEvent \<Rightarrow> Guard \<Rightarrow> Decision \<times> SQLEvent \<times> Guard" where
  "Apply lib ev g =
     (let (masked, sql) = mask_all (maskPatterns g) (SQL ev);
          ev = (if masked then ev\<lparr>SQL := sql\<rparr> else ev);
          (out, g) = sampled_out g in
      if out then (DBlock, ev, g)
      else if content_blocks g ev sql then (DBlock, ev, g)
      else
        let (rewritten, sql) =
          (if RewriteTimeFunctions (g_cfg g) \<and> Timestamp ev \<noteq> 0
           then rewrite_times lib (Timestamp ev) 0 (timePatterns g) (masked, sql) else (masked, sql)) in
        if rewritten then (Rewrite, ev\<lparr>SQL := sql\<rparr>, g) else (Allow, ev, g))"

definition CheckBackpressure :: "int \<Rightarrow> rat \<Rightarrow> Guard \<Rightarrow> bool \<times> Guard" where
  "CheckBackpressure queueDepth lag g =
     (let pause = (MaxQueueDepth (g_cfg g) > 0 \<and> queueDepth > MaxQueueDepth (g_cfg g)
            \<or> MaxReplayLagSeconds (g_cfg g) > 0 \<and> lag > MaxReplayLagSeconds (g_cfg g))
      in (pause, g\<lparr>g_paused := pause\<rparr>))"

definition CheckTransaction :: "int \<Rightarrow> int \<Rightarrow> Guard \<Rightarrow> Decision" where
  "CheckTransaction since stmtCount g =
     (if MaxTransactionDuration (g_cfg g) > 0 \<and> since > MaxTransactionDuration (g_cfg g) then DBlock
      else if MaxStatementsPerTx (g_cfg g) > 0 \<and> stmtCount > MaxStatementsPerTx (g_cfg g) then DBlock
      else Allow)"

section \<open>The decorator\<close>

record replayguardExecutor =
  rg_guard :: Guard
  rg_blocked :: u64
  rg_allowed :: u64
  rg_rewritten :: u64

definition guard_Exec ::
    "guard_library \<Rightarrow> 'w executor \<Rightarrow> ConnID \<Rightarrow> SQLEvent \<Rightarrow> replayguardExecutor \<times> 'w
       \<Rightarrow> string option \<times> replayguardExecutor \<times> 'w" where
  "guard_Exec lib next conn ev sw =
     (case Apply lib ev (rg_guard (fst sw)) of (decision, ev, g) \<Rightarrow>
        let s = (fst sw)\<lparr>rg_guard := g\<rparr> in
        case decision of
          DBlock \<Rightarrow> (None, s\<lparr>rg_blocked := rg_blocked s + 1\<rparr>, snd sw)
        | Rewrite \<Rightarrow> (case next conn ev (snd sw) of (err, w) \<Rightarrow> (err, s\<lparr>rg_rewritten := rg_rewritten s + 1\<rparr>, w))
        | Allow \<Rightarrow> (case next conn ev (snd sw) of (err, w) \<Rightarrow> (err, s\<lparr>rg_allowed := rg_allowed s + 1\<rparr>, w)))"

section \<open>What the scanners agree on\<close>

text \<open>The text cut into code and literals; a literal may lack its end.\<close>

datatype segment = Plain string | Quoted string | OpenQuote string | Dollar string string | OpenDollar string string

fun text_of :: "segment \<Rightarrow> string" where
  "text_of (Plain s) = s"
| "text_of (Quoted s) = quote # s @ [quote]"
| "text_of (OpenQuote s) = quote # s"
| "text_of (Dollar tag s) = tag @ s @ tag"
| "text_of (OpenDollar tag s) = tag @ s"

fun blanked :: "segment \<Rightarrow> string" where
  "blanked (Plain s) = s"
| "blanked (Quoted s) = [quote, quote]"
| "blanked (OpenQuote s) = [quote]"
| "blanked (Dollar tag s) = tag @ tag"
| "blanked (OpenDollar tag s) = tag @ s"

fun edited :: "(string \<Rightarrow> string) \<Rightarrow> segment \<Rightarrow> string" where
  "edited f (Plain s) = f s"
| "edited f seg = text_of seg"

function (sequential) segs_out :: "string \<Rightarrow> string \<Rightarrow> segment list" and segs_in :: "string \<Rightarrow> string \<Rightarrow> segment list" where
  "segs_out acc [] = [Plain acc]"
| "segs_out acc (c # s) =
     (if c = quote then Plain acc # segs_in [] s
      else if c = CHR ''$'' \<and> parseDollarTag (c # s) \<noteq> [] then
        (let tag = parseDollarTag (c # s); r = drop (length tag) (c # s) in
         Plain acc # (case Index r tag of
           Some e \<Rightarrow> Dollar tag (take e r) # segs_out [] (drop (e + length tag) r)
         | None \<Rightarrow> [OpenDollar tag r]))
      else segs_out (acc @ [c]) s)"
| "segs_in acc [] = [OpenQuote acc]"
| "segs_in acc (c # s) =
     (if c = quote
      then (if starts quote s then segs_in (acc @ [c, quote]) (tl s) else Quoted acc # segs_out [] s)
      else segs_in (acc @ [c]) s)"
  by pat_completeness auto
termination
proof (relation "measure (case_sum (\<lambda>(seg, s). length s) (\<lambda>(seg, s). length s))", goal_cases)
  case (3 acc c s tag r e)
  then show ?case using parse_tag_shape [of "c # s" tag] by auto
qed auto

definition segments :: "string \<Rightarrow> segment list" where
  "segments sql = segs_out [] sql"

lemma Index_at: "Index s sub = Some n \<Longrightarrow> take n s @ sub @ drop (n + length sub) s = s"
proof (induction s sub arbitrary: n rule: Index.induct)
  case (1 s sub)
  show ?case
  proof (cases "prefix sub s")
    case True
    then show ?thesis using 1 by (auto simp: Index.simps [of s sub] prefix_def)
  next
    case False
    with 1(2) obtain c r k where s: "s = c # r" "Index r sub = Some k" "n = Suc k"
      by (auto simp: Index.simps [of s sub] split: list.splits)
    then show ?thesis using 1(1) [OF False s(1) s(2)] by simp
  qed
qed

lemma tag_at: "parseDollarTag s = t \<Longrightarrow> t \<noteq> [] \<Longrightarrow> t @ drop (length t) s = s"
  using parse_tag_shape(2) [of s t] by (metis append_eq_conv_conj prefix_def)

lemma segs_text:
  "concat (map text_of (segs_out acc s)) = acc @ s" "concat (map text_of (segs_in acc s)) = quote # acc @ s"
proof (induction acc s and acc s rule: segs_out_segs_in.induct)
  case (2 acc c s)
  show ?case
  proof (cases "c = CHR ''$'' \<and> parseDollarTag (c # s) \<noteq> []")
    case True
    let ?t = "parseDollarTag (c # s)"
    let ?r = "drop (length ?t) (c # s)"
    have t: "?t @ ?r = c # s" using tag_at [OF refl] True by blast
    have c: "c = CHR ''$''" and ne: "parseDollarTag (CHR ''$'' # s) \<noteq> []" using True by auto
    show ?thesis
    proof (cases "Index ?r ?t")
      case None
      then show ?thesis using ne t unfolding c by (simp add: Let_def)
    next
      case (Some e)
      have "concat (map text_of (segs_out [] (drop (e + length ?t) ?r))) = drop (e + length ?t) ?r"
        using 2(2) [OF _ True refl refl Some] True by simp
      then show ?thesis using ne t Index_at [OF Some] Some unfolding c by (simp add: Let_def del: drop_drop)
    qed
  qed (use 2 in auto)
next
  case (4 acc c s)
  then show ?case by (cases s) auto
qed auto

lemma segs_blank:
  "concat (map blanked (segs_out acc s)) = acc @ strip_out s" "concat (map blanked (segs_in acc s)) = quote # strip_in s"
proof (induction acc s and acc s rule: segs_out_segs_in.induct)
  case (2 acc c s)
  show ?case
  proof (cases "c = CHR ''$'' \<and> parseDollarTag (c # s) \<noteq> []")
    case True
    then have c: "c = CHR ''$''" and ne: "parseDollarTag (CHR ''$'' # s) \<noteq> []" by auto
    show ?thesis using 2(2) [OF _ True refl refl] ne unfolding c by (simp add: Let_def split: option.split)
  qed (use 2 in auto)
next
  case (4 acc c s)
  then show ?case by (cases s) auto
qed auto

lemma segs_edit:
  "concat (map (edited f) (segs_out acc s)) = replace_out f acc s"
  "concat (map (edited f) (segs_in acc s)) = quote # replace_in f acc s"
proof (induction acc s and acc s rule: segs_out_segs_in.induct)
  case (2 acc c s)
  show ?case
  proof (cases "c = CHR ''$'' \<and> parseDollarTag (c # s) \<noteq> []")
    case True
    then have c: "c = CHR ''$''" and ne: "parseDollarTag (CHR ''$'' # s) \<noteq> []" by auto
    show ?thesis using 2(2) [OF _ True refl refl] ne unfolding c by (simp add: Let_def split: option.split)
  qed (use 2 in auto)
next
  case (4 acc c s)
  then show ?case by (cases s) auto
qed auto

lemma strip_fast: "quote \<notin> set sql \<Longrightarrow> \<not> hasDollarQuote sql \<Longrightarrow> strip_out sql = sql"
  by (induction sql) auto

text \<open>
  C38: the two scanners cut a statement at the same places. Every text is the concatenation of its
  code and its literals; stripping empties exactly the literals, except a
  dollar-quoted one without an end, with or without the fast path; and a replacement is applied to the code segments and
  leaves every literal as it is.
\<close>

theorem guard_literals:
  "concat (map text_of (segments sql)) = sql
    \<and> stripped_of sql = concat (map blanked (segments sql))
    \<and> replaceOutsideStrings sql pat repl = concat (map (edited (\<lambda>seg. ReplaceAllString pat seg repl)) (segments sql))"
  using strip_fast [of sql] by (simp add: segments_def segs_text segs_blank segs_edit stripped_of_def
      stripStringLiterals_def replaceOutsideStrings_def)

section \<open>Sampling\<close>

fun passed :: "nat \<Rightarrow> Guard \<Rightarrow> nat" where
  "passed 0 g = 0"
| "passed (Suc n) g = (case sampled_out g of (out, g) \<Rightarrow> (if out then 0 else 1) + passed n g)"

lemma passed_sum:
  assumes "0 < ReplayPercentage (g_cfg g)" "ReplayPercentage (g_cfg g) < 100" "unat (g_counter g) + n < 2 ^ 64"
  shows "passed n g = (\<Sum>i<n. if of_nat ((unat (g_counter g) + 1 + i) mod 100) < ReplayPercentage (g_cfg g) then 1 else 0)"
  using assms
proof (induction n arbitrary: g)
  case (Suc n)
  let ?p = "ReplayPercentage (g_cfg g)" and ?c = "unat (g_counter g)"
  have c: "unat (g_counter g + 1) = ?c + 1" using Suc.prems(3) by (simp add: unat_word_ariths)
  have "passed n (g\<lparr>g_counter := g_counter g + 1\<rparr>) = (\<Sum>i<n. if of_nat ((?c + 1 + Suc i) mod 100) < ?p then 1 else 0)"
    using Suc.IH [of "g\<lparr>g_counter := g_counter g + 1\<rparr>"] Suc.prems by (simp add: c)
  then show ?case
    using Suc.prems(1,2) by (simp add: sampled_out_def Let_def c sum.lessThan_Suc_shift not_le del: sum.lessThan_Suc)
qed simp

lemma sum_residues: "(\<Sum>i<100. f ((c + i) mod 100)) = (\<Sum>k<100::nat. f k :: nat)"
proof -
  have eq: "i = j" if "(c + i) mod 100 = (c + j) mod 100" "i \<le> j" "j < 100" for i j
  proof -
    have "(100::nat) dvd (c + j) - (c + i)" using that mod_eq_dvd_iff_nat [of "c + i" "c + j" 100] by simp
    then show ?thesis using that by (auto dest: dvd_imp_le)
  qed
  have "inj_on (\<lambda>i. (c + i) mod 100) {..<100::nat}"
  proof (rule inj_onI)
    fix i j assume "i \<in> {..<100::nat}" "j \<in> {..<100::nat}" "(c + i) mod 100 = (c + j) mod 100"
    then show "i = j" using eq [of i j] eq [of j i] by (cases "i \<le> j") auto
  qed
  moreover from this have "(\<lambda>i. (c + i) mod 100) ` {..<100} = {..<100::nat}" by (intro endo_inj_surj) auto
  ultimately have "bij_betw (\<lambda>i. (c + i) mod 100) {..<100} {..<100::nat}" by (simp add: bij_betw_def)
  then show ?thesis by (rule sum.reindex_bij_betw)
qed

text \<open>
  C39: selective replay: of any hundred consecutive events the guard lets through exactly the
  configured percentage, rounded up.
\<close>

theorem sampling_rate:
  assumes "0 < ReplayPercentage (g_cfg g)" and "ReplayPercentage (g_cfg g) < 100" and "unat (g_counter g) + 100 < 2 ^ 64"
  shows "passed 100 g = nat \<lceil>ReplayPercentage (g_cfg g)\<rceil>"
proof -
  let ?p = "ReplayPercentage (g_cfg g)"
  have "passed 100 g = (\<Sum>k<100. if of_nat k < ?p then 1 else 0)"
    unfolding passed_sum [OF assms] by (rule sum_residues)
  also have "\<dots> = card ({..<100} \<inter> {k. of_nat k < ?p})" by (simp add: sum.If_cases)
  also have "{..<100} \<inter> {k. of_nat k < ?p} = {..<nat \<lceil>?p\<rceil>}"
  proof (intro equalityI subsetI)
    fix k assume "k \<in> {..<100} \<inter> {k. of_nat k < ?p}"
    then show "k \<in> {..<nat \<lceil>?p\<rceil>}" by (simp add: zless_nat_eq_int_zless less_ceiling_iff)
  next
    fix k assume "k \<in> {..<nat \<lceil>?p\<rceil>}"
    then have k: "of_nat k < ?p" by (simp add: zless_nat_eq_int_zless less_ceiling_iff)
    then have "of_nat k < (100 :: rat)" using assms(2) by simp
    then show "k \<in> {..<100} \<inter> {k. of_nat k < ?p}" using k by simp
  qed
  finally show ?thesis by simp
qed

definition no_match :: regexp where
  "no_match = \<lparr>MatchString = (\<lambda>s. False), ReplaceAllString = (\<lambda>s repl. s)\<rparr>"

definition plain_library :: guard_library where
  "plain_library = \<lparr>lib_ddl = no_match, lib_time = [], lib_external = [], lib_table = (\<lambda>t. no_match),
     lib_compile = (\<lambda>p. None), lib_timestamptz = (\<lambda>t. []), lib_date = (\<lambda>t. []), lib_timetz = (\<lambda>t. [])\<rparr>"

definition plain_config :: guard_config where
  "plain_config = \<lparr>ExcludeDDL = False, RewriteTimeFunctions = False, SkipExternalDeps = False, MaxReplayLagSeconds = 0,
     MaxQueueDepth = 0, MaxTransactionDuration = 0, MaxStatementsPerTx = 0, MaskPatterns = [], ReplayPercentage = 0,
     IncludeTables = [], ExcludeTables = [], IncludeUsers = [], ReadOnly = False\<rparr>"

lemma sampling_rate_witness:
  "passed 100 (new_guard plain_library (plain_config\<lparr>ReplayPercentage := 25\<rparr>)) = 25"
  using sampling_rate [of "new_guard plain_library (plain_config\<lparr>ReplayPercentage := 25\<rparr>)"]
  by (simp add: new_guard_def)

section \<open>Decisions\<close>

lemma mask_all_same: "\<not> fst (mask_all ms sql) \<Longrightarrow> snd (mask_all ms sql) = sql"
  by (induction ms sql rule: mask_all.induct) (auto split: if_splits)

lemma rewrite_times_keeps: "rewrite_times lib t i pats (b, sql) = (False, sql') \<Longrightarrow> \<not> b"
  by (induction lib t i pats "(b, sql)" arbitrary: b sql rule: rewrite_times.induct) (auto simp: Let_def split: if_splits)

lemma sampled_keeps:
  assumes "sampled_out g = (out, g')"
  shows "g_cfg g' = g_cfg g" "includeUsers g' = includeUsers g" "ddlPattern g' = ddlPattern g"
    "externalPatterns g' = externalPatterns g" "tablePatterns g' = tablePatterns g" "excludeTablePat g' = excludeTablePat g"
  using assms by (auto simp: sampled_out_def Let_def split: if_splits)

text \<open>
  The guard decides an event once and for all: it is sent on exactly when no filter blocks it,
  as the same event with at most its text changed; the text sent is the masked one, changed
  further only by the time rewriting; and exactly one of the three counters advances.
\<close>

theorem guard_decides:
  assumes "guard_Exec lib next conn ev (s, w) = (err, s', w')"
  shows "case Apply lib ev (rg_guard s) of (d, ev', g) \<Rightarrow>
    (d = DBlock \<longleftrightarrow> fst (sampled_out (rg_guard s))
        \<or> content_blocks (rg_guard s) ev (snd (mask_all (maskPatterns (rg_guard s)) (SQL ev))))
    \<and> (if d = DBlock then err = None \<and> w' = w else (err, w') = next conn ev' w)
    \<and> ev' = ev\<lparr>SQL := SQL ev'\<rparr>
    \<and> (d = Allow \<longrightarrow> SQL ev' = SQL ev)
    \<and> (d \<noteq> Allow \<and> \<not> RewriteTimeFunctions (g_cfg (rg_guard s)) \<longrightarrow> SQL ev' = snd (mask_all (maskPatterns (rg_guard s)) (SQL ev)))
    \<and> rg_blocked s' + rg_allowed s' + rg_rewritten s' = rg_blocked s + rg_allowed s + rg_rewritten s + 1"
proof -
  obtain m sql where m: "mask_all (maskPatterns (rg_guard s)) (SQL ev) = (m, sql)" by (cases "mask_all (maskPatterns (rg_guard s)) (SQL ev)")
  obtain out g where g: "sampled_out (rg_guard s) = (out, g)" by (cases "sampled_out (rg_guard s)")
  let ?ev = "if m then ev\<lparr>SQL := sql\<rparr> else ev"
  obtain rw sql' where t: "(if RewriteTimeFunctions (g_cfg g) \<and> Timestamp ?ev \<noteq> 0
      then rewrite_times lib (Timestamp ?ev) 0 (timePatterns g) (m, sql) else (m, sql)) = (rw, sql')" by (metis surj_pair)
  have A: "Apply lib ev (rg_guard s) = (if out \<or> content_blocks g ?ev sql then (DBlock, ?ev, g)
      else if rw then (Rewrite, ?ev\<lparr>SQL := sql'\<rparr>, g) else (Allow, ?ev, g))"
    unfolding Apply_def m Let_def prod.case g t by simp
  have blocks: "content_blocks g ?ev sql = content_blocks (rg_guard s) ev sql"
    using sampled_keeps [OF g] by (simp add: content_blocks_def table_blocks_def)
  have same: "m \<or> sql = SQL ev" using mask_all_same [of "maskPatterns (rg_guard s)" "SQL ev"] m by auto
  have time: "\<not> rw \<Longrightarrow> \<not> m" "\<not> RewriteTimeFunctions (g_cfg (rg_guard s)) \<Longrightarrow> sql' = sql"
    using t sampled_keeps(1) [OF g] by (auto split: if_splits dest: rewrite_times_keeps)
  show ?thesis
    using assms same time
    by (cases "out \<or> content_blocks (rg_guard s) ev sql"; cases rw; cases m)
      (auto simp: guard_Exec_def A [unfolded blocks] Let_def m g split: prod.splits)
qed

lemma guard_decides_witness:
  "\<exists>err s' w'. guard_Exec plain_library flaky sample_source (zero_event sample_source)
      (\<lparr>rg_guard = new_guard plain_library plain_config, rg_blocked = 0, rg_allowed = 0, rg_rewritten = 0\<rparr>, 5) = (err, s', w')
    \<and> rg_blocked s' + rg_allowed s' + rg_rewritten s' = 1"
proof -
  let ?s = "\<lparr>rg_guard = new_guard plain_library plain_config, rg_blocked = 0, rg_allowed = 0, rg_rewritten = 0\<rparr>"
  obtain err s' w' where run: "guard_Exec plain_library flaky sample_source (zero_event sample_source) (?s, 5) = (err, s', w')"
    by (metis surj_pair)
  from guard_decides [OF run] have "rg_blocked s' + rg_allowed s' + rg_rewritten s' = 1" by (simp split: prod.splits)
  with run show ?thesis by blast
qed

text \<open>Read-only mode passes statements that write.\<close>

lemma read_only_passes:
  "\<forall>sql \<in> {''EXPLAIN ANALYZE DELETE FROM t'', ''WITH d AS (DELETE FROM t RETURNING 1) SELECT 1'', ''SELECT 1; DELETE FROM t''}.
     fst (Apply plain_library ((zero_event sample_source)\<lparr>SQL := sql\<rparr>) (new_guard plain_library (plain_config\<lparr>ReadOnly := True\<rparr>))) = Allow"
  by code_simp

text \<open>A filter on tables drops the statements that delimit the transactions around the ones it keeps.\<close>

lemma table_filter_drops_commit:
  assumes "\<And>t. t \<in> set tables \<Longrightarrow> \<not> MatchString (lib_table lib t) ''COMMIT''" and "tables \<noteq> []"
  shows "fst (Apply lib (ev\<lparr>SQL := ''COMMIT''\<rparr>) (new_guard lib (plain_config\<lparr>IncludeTables := tables\<rparr>))) = DBlock"
proof -
  have "\<not> isSessionCommand ''COMMIT''" "stripped_of ''COMMIT'' = ''COMMIT''" by code_simp+
  then show ?thesis
    using assms by (auto simp: Apply_def new_guard_def plain_config_def sampled_out_def content_blocks_def table_blocks_def list_ex_iff)
qed

end
