(* ===== verification/Replay_Lanes.thy ===== *)
theory Replay_Lanes
  imports Event_Queue Replay_Guard
begin

text \<open>
  The replayer's routing and concurrency, \<^verbatim>\<open>src/pkg/replayer/replayer_impl.go\<close> and
  \<^verbatim>\<open>unbounded_lane.go\<close>: a dispatcher takes events from the queue and appends each to the lane of
  its connection; one worker per lane takes the next event, acquires a slot of the semaphore and
  executes it. The goroutines interleave: a step relation has one rule for each action that is
  atomic under a mutex or a channel. The queue is the contract both backends refine. Addresses are
  printed by \<^verbatim>\<open>netip.Addr.String\<close>, a parameter.
\<close>

section \<open>Configuration\<close>

datatype ConcurrencyMode = Bounded | Faithful | Serial

record replay_config =
  Workers :: int
  Mode :: ConcurrencyMode
  MaxConcurrency :: int
  PoolMaxConns :: int
  MaxLaneDepth :: int

definition defaultWorkers :: int where "defaultWorkers = 32"
definition defaultPoolMaxConns :: int where "defaultPoolMaxConns = 100"
definition defaultMaxLaneDepth :: int where "defaultMaxLaneDepth = 100000"
definition serialLaneKey :: string where "serialLaneKey = ''__serial__''"

record replayer =
  rp_serial :: bool
  rp_concurrency :: int
  rp_maxLaneDepth :: int
  rp_guard :: "Guard option"

definition configureMode :: "replay_config \<Rightarrow> replayer \<Rightarrow> replayer" where
  "configureMode cfg r =
     (let workers = (if Workers cfg \<le> 0 then defaultWorkers else Workers cfg);
          poolMax = (if PoolMaxConns cfg \<le> 0 then defaultPoolMaxConns else PoolMaxConns cfg);
          (serial, c) = (case Mode cfg of
              Serial \<Rightarrow> (True, 1)
            | Faithful \<Rightarrow> (False, if MaxConcurrency cfg \<le> 0 then workers else MaxConcurrency cfg)
            | Bounded \<Rightarrow> (False, if poolMax < workers then poolMax else workers))
      in r\<lparr>rp_serial := serial, rp_concurrency := (if c < 1 then 1 else c),
          rp_maxLaneDepth := (if MaxLaneDepth cfg \<le> 0 then defaultMaxLaneDepth else MaxLaneDepth cfg)\<rparr>)"

definition NewReplayer :: "replay_config \<Rightarrow> Guard option \<Rightarrow> replayer" where
  "NewReplayer cfg sg =
     configureMode cfg \<lparr>rp_serial = False, rp_concurrency = 0, rp_maxLaneDepth = 0, rp_guard = sg\<rparr>"

lemma configured_pos [simp]:
  "1 \<le> rp_concurrency (NewReplayer cfg sg)" "0 < rp_maxLaneDepth (NewReplayer cfg sg)"
  "rp_guard (NewReplayer cfg sg) = sg"
  by (simp_all add: NewReplayer_def configureMode_def Let_def defaultMaxLaneDepth_def split: prod.split)

text \<open>\<^verbatim>\<open>strconv.FormatUint(n, 10)\<close> and the key of a connection.\<close>

fun FormatUint :: "nat \<Rightarrow> string" where
  "FormatUint n = (if n < 10 then [] else FormatUint (n div 10)) @ [char_of (48 + n mod 10)]"

declare FormatUint.simps [simp del]

definition Key :: "(addr \<Rightarrow> string) \<Rightarrow> ConnID \<Rightarrow> string" where
  "Key ip c = ip (SrcIP c) @ '':'' @ FormatUint (unat (SrcPort c))
     @ ''-'' @ ip (DstIP c) @ '':'' @ FormatUint (unat (DstPort c))"

definition laneKey :: "(addr \<Rightarrow> string) \<Rightarrow> replayer \<Rightarrow> SQLEvent \<Rightarrow> string" where
  "laneKey ip r ev = (if rp_serial r then serialLaneKey else Key ip (Conn ev))"

section \<open>Lanes\<close>

record unboundedLane =
  lane_buf :: "SQLEvent list"
  lane_closed :: bool

definition newUnboundedLane :: unboundedLane where
  "newUnboundedLane = \<lparr>lane_buf = [], lane_closed = False\<rparr>"

definition lane_Enqueue :: "SQLEvent \<Rightarrow> unboundedLane \<Rightarrow> unboundedLane" where
  "lane_Enqueue ev l = l\<lparr>lane_buf := lane_buf l @ [ev]\<rparr>"

text \<open>No value where the caller waits; the reallocation of a large buffer keeps its elements.\<close>

definition lane_Dequeue :: "unboundedLane \<Rightarrow> (SQLEvent option \<times> unboundedLane) option" where
  "lane_Dequeue l = (case lane_buf l of
       [] \<Rightarrow> if lane_closed l then Some (None, l) else None
     | ev # rest \<Rightarrow> Some (Some ev, l\<lparr>lane_buf := rest\<rparr>))"

definition lane_Close :: "unboundedLane \<Rightarrow> unboundedLane" where
  "lane_Close l = l\<lparr>lane_closed := True\<rparr>"

definition lane_Len :: "unboundedLane \<Rightarrow> nat" where
  "lane_Len l = length (lane_buf l)"

section \<open>The goroutines\<close>

text \<open>
  Where the dispatcher is: at the back-pressure check, at the queue, routing an event, closing the
  lanes, waiting for the workers, returned. Where a worker is: at its lane, at the semaphore,
  executing, returned.
\<close>

datatype dispatcher = DCheck | DTake | DRoute SQLEvent | DClosing | DJoin | DEnd

datatype worker = WTake | WSlot SQLEvent | WRun SQLEvent | WGone

text \<open>
  The last four fields record what happened: the events taken from the queue, those whose
  execution started and ended, in order, and the connections released to the pool.
\<close>

record run_state =
  st_queue :: aqueue
  st_disp :: dispatcher
  st_keys :: "string list"
  st_lane :: "string \<Rightarrow> unboundedLane"
  st_worker :: "string \<Rightarrow> worker"
  st_seen :: "string \<Rightarrow> ConnID list"
  st_sem :: nat
  st_cancelled :: bool
  st_lag :: rat
  st_taken :: "SQLEvent list"
  st_started :: "SQLEvent list"
  st_ended :: "SQLEvent list"
  st_released :: "ConnID list"

definition run_init :: "aqueue \<Rightarrow> run_state" where
  "run_init q = \<lparr>st_queue = q, st_disp = DCheck, st_keys = [], st_lane = (\<lambda>_. newUnboundedLane),
     st_worker = (\<lambda>_. WTake), st_seen = (\<lambda>_. []), st_sem = 0, st_cancelled = False, st_lag = 0,
     st_taken = [], st_started = [], st_ended = [], st_released = []\<rparr>"

definition laneDepth :: "run_state \<Rightarrow> nat" where
  "laneDepth s = sum_list (map (\<lambda>k. lane_Len (st_lane s k)) (st_keys s))"

text \<open>
  The condition of the back-pressure loop. The flag the guard keeps of it is only reported.
\<close>

definition held :: "replayer \<Rightarrow> run_state \<Rightarrow> bool" where
  "held r s \<longleftrightarrow> int (laneDepth s) \<ge> rp_maxLaneDepth r
     \<or> (case rp_guard r of None \<Rightarrow> False
        | Some g \<Rightarrow> fst (CheckBackpressure (int (length (fst (st_queue s)) + laneDepth s)) (st_lag s) g))"

text \<open>The clock is free: an event with a capture time sets the lag to any value.\<close>

inductive dispatch_step :: "(addr \<Rightarrow> string) \<Rightarrow> replayer \<Rightarrow> run_state \<Rightarrow> run_state \<Rightarrow> bool"
  for ip r where
  check_pass: "st_disp s = DCheck \<Longrightarrow> \<not> held r s
    \<Longrightarrow> dispatch_step ip r s (s\<lparr>st_disp := DTake\<rparr>)"
| check_stop: "st_disp s = DCheck \<Longrightarrow> held r s \<Longrightarrow> st_cancelled s
    \<Longrightarrow> dispatch_step ip r s (s\<lparr>st_disp := DClosing\<rparr>)"
| take_event: "st_disp s = DTake \<Longrightarrow> aq_Dequeue (st_queue s) = Some (Some e, q)
    \<Longrightarrow> dispatch_step ip r s (s\<lparr>st_queue := q, st_taken := st_taken s @ [e], st_disp := DRoute e,
      st_lag := (if Timestamp e = 0 then st_lag s else lag)\<rparr>)"
| take_closed: "st_disp s = DTake \<Longrightarrow> aq_Dequeue (st_queue s) = Some (None, q)
    \<Longrightarrow> dispatch_step ip r s (s\<lparr>st_queue := q, st_disp := DClosing\<rparr>)"
| take_stop: "st_disp s = DTake \<Longrightarrow> st_cancelled s \<Longrightarrow> fst (st_queue s) = []
    \<Longrightarrow> dispatch_step ip r s (s\<lparr>st_disp := DClosing\<rparr>)"
| new_lane: "st_disp s = DRoute e \<Longrightarrow> laneKey ip r e = k \<Longrightarrow> k \<notin> set (st_keys s)
    \<Longrightarrow> dispatch_step ip r s (s\<lparr>st_keys := st_keys s @ [k], st_lane := (st_lane s)(k := newUnboundedLane),
      st_worker := (st_worker s)(k := WTake), st_seen := (st_seen s)(k := [])\<rparr>)"
| route: "st_disp s = DRoute e \<Longrightarrow> laneKey ip r e = k \<Longrightarrow> k \<in> set (st_keys s)
    \<Longrightarrow> dispatch_step ip r s (s\<lparr>st_lane := (st_lane s)(k := lane_Enqueue e (st_lane s k)), st_disp := DCheck\<rparr>)"
| close_lane: "st_disp s = DClosing \<Longrightarrow> k \<in> set (st_keys s) \<Longrightarrow> \<not> lane_closed (st_lane s k)
    \<Longrightarrow> dispatch_step ip r s (s\<lparr>st_lane := (st_lane s)(k := lane_Close (st_lane s k))\<rparr>)"
| lanes_closed: "st_disp s = DClosing \<Longrightarrow> list_all (\<lambda>k. lane_closed (st_lane s k)) (st_keys s)
    \<Longrightarrow> dispatch_step ip r s (s\<lparr>st_disp := DJoin\<rparr>)"
| joined: "st_disp s = DJoin \<Longrightarrow> list_all (\<lambda>k. st_worker s k = WGone) (st_keys s)
    \<Longrightarrow> dispatch_step ip r s (s\<lparr>st_disp := DEnd\<rparr>)"

text \<open>A worker returns through the deferred release of the connections it has seen.\<close>

definition retire :: "string \<Rightarrow> run_state \<Rightarrow> run_state" where
  "retire k s = s\<lparr>st_worker := (st_worker s)(k := WGone), st_released := st_released s @ st_seen s k\<rparr>"

inductive worker_step :: "replayer \<Rightarrow> string \<Rightarrow> run_state \<Rightarrow> run_state \<Rightarrow> bool"
  for r k where
  lane_event: "st_worker s k = WTake \<Longrightarrow> lane_Dequeue (st_lane s k) = Some (Some e, l)
    \<Longrightarrow> worker_step r k s (s\<lparr>st_lane := (st_lane s)(k := l), st_worker := (st_worker s)(k := WSlot e),
      st_seen := (st_seen s)(k := List.insert (Conn e) (st_seen s k))\<rparr>)"
| lane_end: "st_worker s k = WTake \<Longrightarrow> lane_Dequeue (st_lane s k) = Some (None, l)
    \<Longrightarrow> worker_step r k s (retire k s)"
| slot: "st_worker s k = WSlot e \<Longrightarrow> int (st_sem s) < rp_concurrency r
    \<Longrightarrow> worker_step r k s (s\<lparr>st_sem := st_sem s + 1, st_worker := (st_worker s)(k := WRun e),
      st_started := st_started s @ [e]\<rparr>)"
| slot_stop: "st_worker s k = WSlot e \<Longrightarrow> st_cancelled s \<Longrightarrow> worker_step r k s (retire k s)"
| exec_end: "st_worker s k = WRun e
    \<Longrightarrow> worker_step r k s (s\<lparr>st_sem := st_sem s - 1, st_worker := (st_worker s)(k := WTake),
      st_ended := st_ended s @ [e]\<rparr>)"

definition replay_step :: "(addr \<Rightarrow> string) \<Rightarrow> replayer \<Rightarrow> run_state \<Rightarrow> run_state \<Rightarrow> bool" where
  "replay_step ip r s s' \<longleftrightarrow> dispatch_step ip r s s' \<or> (\<exists>k \<in> set (st_keys s). worker_step r k s s')"

text \<open>What the rest of the process does: it enqueues, closes the queue, cancels the context.\<close>

inductive outside_step :: "nat \<Rightarrow> OverflowPolicy \<Rightarrow> run_state \<Rightarrow> run_state \<Rightarrow> bool" for cap pol where
  produce: "outside_step cap pol s (s\<lparr>st_queue := snd (aq_Enqueue cap pol e (st_queue s))\<rparr>)"
| close_queue: "outside_step cap pol s (s\<lparr>st_queue := aq_Close (st_queue s)\<rparr>)"
| cancel: "outside_step cap pol s (s\<lparr>st_cancelled := True\<rparr>)"

inductive running :: "(addr \<Rightarrow> string) \<Rightarrow> replayer \<Rightarrow> run_state \<Rightarrow> bool" for ip r where
  start: "running ip r (run_init ([], False))"
| replay: "running ip r s \<Longrightarrow> replay_step ip r s s' \<Longrightarrow> running ip r s'"
| outside: "running ip r s \<Longrightarrow> outside_step cap pol s s' \<Longrightarrow> running ip r s'"

section \<open>Invariants\<close>

definition of_key :: "(addr \<Rightarrow> string) \<Rightarrow> replayer \<Rightarrow> string \<Rightarrow> SQLEvent list \<Rightarrow> SQLEvent list" where
  "of_key ip r k = filter (\<lambda>e. laneKey ip r e = k)"

fun waiting :: "worker \<Rightarrow> SQLEvent list" where
  "waiting (WSlot e) = [e]"
| "waiting _ = []"

fun executing :: "worker \<Rightarrow> SQLEvent list" where
  "executing (WRun e) = [e]"
| "executing _ = []"

fun routing :: "dispatcher \<Rightarrow> SQLEvent list" where
  "routing (DRoute e) = [e]"
| "routing _ = []"

lemma of_key_append [simp]: "of_key ip r k (xs @ ys) = of_key ip r k xs @ of_key ip r k ys"
  by (simp add: of_key_def)

lemma of_key_Nil [simp]: "of_key ip r k [] = []"
  by (simp add: of_key_def)

lemma of_key_single [simp]: "of_key ip r k [e] = (if laneKey ip r e = k then [e] else [])"
  by (simp add: of_key_def)

lemma lane_ops [simp]:
  "lane_buf newUnboundedLane = []" "\<not> lane_closed newUnboundedLane"
  "lane_buf (lane_Enqueue e l) = lane_buf l @ [e]" "lane_closed (lane_Enqueue e l) = lane_closed l"
  "lane_buf (lane_Close l) = lane_buf l" "lane_closed (lane_Close l)"
  by (simp_all add: newUnboundedLane_def lane_Enqueue_def lane_Close_def)

lemma lane_Dequeue_some [simp]:
  "lane_Dequeue l = Some (Some e, l') \<longleftrightarrow> (\<exists>rest. lane_buf l = e # rest \<and> l' = l\<lparr>lane_buf := rest\<rparr>)"
  "lane_Dequeue l = Some (None, l') \<longleftrightarrow> lane_buf l = [] \<and> lane_closed l \<and> l' = l"
  by (auto simp: lane_Dequeue_def split: list.splits)

lemma retire_fields [simp]:
  "st_queue (retire k s) = st_queue s" "st_disp (retire k s) = st_disp s" "st_keys (retire k s) = st_keys s"
  "st_lane (retire k s) = st_lane s" "st_worker (retire k s) = (st_worker s)(k := WGone)"
  "st_sem (retire k s) = st_sem s" "st_lag (retire k s) = st_lag s" "st_cancelled (retire k s) = st_cancelled s"
  "st_taken (retire k s) = st_taken s" "st_started (retire k s) = st_started s" "st_ended (retire k s) = st_ended s"
  "st_released (retire k s) = st_released s @ st_seen s k"
  by (simp_all add: retire_def)

text \<open>A property of states that every action keeps holds of every reachable state.\<close>

lemma running_invariant [consumes 1, case_names init dispatch worker outside]:
  assumes "running ip r s" and "P (run_init ([], False))"
    and "\<And>s s'. running ip r s \<Longrightarrow> P s \<Longrightarrow> dispatch_step ip r s s' \<Longrightarrow> P s'"
    and "\<And>s s' k. running ip r s \<Longrightarrow> P s \<Longrightarrow> k \<in> set (st_keys s) \<Longrightarrow> worker_step r k s s' \<Longrightarrow> P s'"
    and "\<And>s s' cap pol. running ip r s \<Longrightarrow> P s \<Longrightarrow> outside_step cap pol s s' \<Longrightarrow> P s'"
  shows "P s"
  using assms(1)
proof (induction rule: running.induct)
  case (replay s s')
  then show ?case unfolding replay_step_def using assms(3,4) by blast
next
  case (outside s cap pol s')
  then show ?case using assms(5) by blast
qed (rule assms(2))

definition keyed :: "(addr \<Rightarrow> string) \<Rightarrow> replayer \<Rightarrow> run_state \<Rightarrow> bool" where
  "keyed ip r s \<longleftrightarrow> distinct (st_keys s)
     \<and> (\<forall>k. k \<notin> set (st_keys s) \<longrightarrow> st_lane s k = newUnboundedLane \<and> st_worker s k = WTake)
     \<and> (\<forall>k e. st_worker s k \<in> {WSlot e, WRun e} \<longrightarrow> laneKey ip r e = k)
     \<and> (\<forall>k e. e \<in> set (lane_buf (st_lane s k)) \<longrightarrow> laneKey ip r e = k)"

lemma keyedD:
  assumes "keyed ip r s"
  shows "distinct (st_keys s)" "k \<notin> set (st_keys s) \<Longrightarrow> st_lane s k = newUnboundedLane"
    "k \<notin> set (st_keys s) \<Longrightarrow> st_worker s k = WTake"
    "st_worker s k = WSlot e \<Longrightarrow> laneKey ip r e = k" "st_worker s k = WRun e \<Longrightarrow> laneKey ip r e = k"
    "e \<in> set (lane_buf (st_lane s k)) \<Longrightarrow> laneKey ip r e = k"
  using assms unfolding keyed_def by blast+

lemma keyedI:
  assumes "distinct (st_keys s)"
    and "\<And>k. k \<notin> set (st_keys s) \<Longrightarrow> st_lane s k = newUnboundedLane \<and> st_worker s k = WTake"
    and "\<And>k e. st_worker s k = WSlot e \<Longrightarrow> laneKey ip r e = k" and "\<And>k e. st_worker s k = WRun e \<Longrightarrow> laneKey ip r e = k"
    and "\<And>k e. e \<in> set (lane_buf (st_lane s k)) \<Longrightarrow> laneKey ip r e = k"
  shows "keyed ip r s"
  using assms unfolding keyed_def by blast

lemma running_keyed: "running ip r s \<Longrightarrow> keyed ip r s"
proof (induction rule: running_invariant)
  case init
  then show ?case by (simp add: keyed_def run_init_def)
next
  case (dispatch s s')
  note k = keyedD [OF dispatch.IH]
  from dispatch.hyps(2) show ?case
    by cases (rule keyedI; auto simp: k(1-3) dest: k(4-) split: if_splits)+
next
  case (worker s s' k)
  note k = keyedD [OF worker.IH]
  have buf: "laneKey ip r e = k" if "lane_buf (st_lane s k) = f # rest" "e \<in> set (f # rest)" for e f rest
    using k(6) [of e k] that by simp
  from worker.hyps(3) show ?case
    by cases (rule keyedI; insert worker.hyps(2); auto simp: k(1-3) buf dest: k(4-) split: if_splits)+
next
  case (outside s s' cap pol)
  from outside.hyps(2) outside.IH show ?case by cases (simp_all add: keyed_def)
qed

text \<open>
  Of each lane: the events taken for it are those started, the one waiting for a slot, those
  buffered and the one being routed, in this order.
\<close>

definition lane_conserved :: "(addr \<Rightarrow> string) \<Rightarrow> replayer \<Rightarrow> run_state \<Rightarrow> string \<Rightarrow> bool" where
  "lane_conserved ip r s k \<longleftrightarrow> of_key ip r k (st_taken s) = of_key ip r k (st_started s)
     @ waiting (st_worker s k) @ lane_buf (st_lane s k) @ of_key ip r k (routing (st_disp s))"

lemma running_conserved:
  "running ip r s \<Longrightarrow> (st_worker s k = WGone \<and> st_cancelled s) \<or> lane_conserved ip r s k"
proof (induction rule: running_invariant)
  case init
  then show ?case by (simp add: lane_conserved_def run_init_def)
next
  case (dispatch s s')
  note k = keyedD(2-) [OF running_keyed [OF dispatch.hyps(1)]]
  from dispatch.hyps(2) dispatch.IH show ?case by cases (auto simp: lane_conserved_def k(1,2) dest: k(3-) split: if_splits)
next
  case (worker s s' k')
  note k = keyedD(2-) [OF running_keyed [OF worker.hyps(1)]]
  from worker.hyps(3) worker.IH show ?case by cases (auto simp: lane_conserved_def k(1,2) dest: k(3-) split: if_splits)
next
  case (outside s s' cap pol)
  from outside.hyps(2) outside.IH show ?case by cases (auto simp: lane_conserved_def)
qed

lemma running_prefix: "running ip r s \<Longrightarrow> prefix (of_key ip r k (st_started s)) (of_key ip r k (st_taken s))"
proof (induction rule: running_invariant)
  case init
  then show ?case by (simp add: run_init_def)
next
  case (dispatch s s')
  from dispatch.hyps(2) dispatch.IH show ?case by cases auto
next
  case (worker s s' k')
  note k = keyedD(2-) [OF running_keyed [OF worker.hyps(1)]] and c = running_conserved [OF worker.hyps(1), of k]
  from worker.hyps(3) show ?case
  proof cases
    case (slot e)
    have "laneKey ip r e = k'" by (rule k(3) [OF slot(2)])
    then show ?thesis using slot c worker.IH by (auto simp: lane_conserved_def)
  qed (use worker.IH in simp_all)
next
  case (outside s s' cap pol)
  from outside.hyps(2) outside.IH show ?case by cases auto
qed

lemma running_serial:
  "running ip r s \<Longrightarrow> of_key ip r k (st_started s) = of_key ip r k (st_ended s) @ executing (st_worker s k)"
proof (induction rule: running_invariant)
  case init
  then show ?case by (simp add: run_init_def)
next
  case (dispatch s s')
  note k = keyedD(2-) [OF running_keyed [OF dispatch.hyps(1)]]
  from dispatch.hyps(2) dispatch.IH show ?case by cases (auto simp: k(1,2) dest: k(3-) split: if_splits)
next
  case (worker s s' k')
  note k = keyedD(2-) [OF running_keyed [OF worker.hyps(1)]]
  from worker.hyps(3) worker.IH show ?case by cases (auto simp: k(1,2) dest: k(3-) split: if_splits)
next
  case (outside s s' cap pol)
  from outside.hyps(2) outside.IH show ?case by cases auto
qed

end
