(* ===== verification/Kafka_Queue.thy ===== *)
theory Kafka_Queue
  imports Replay_Lanes Event_Codec "HOL-Library.Multiset"
begin

text \<open>
  The Kafka backend, \<^verbatim>\<open>src/pkg/queue/kafkaqueue.go\<close>: a local buffer, the loop that writes it in batches
  with retries, and the reader with its limit on undecodable messages. The client library is a
  parameter: a write gives an error message or none, a read a payload or none. Dialling, TLS and SASL are not
  modelled.
\<close>

section \<open>State\<close>

record kafka_message =
  km_Key :: bytes
  km_Value :: bytes

definition kafkaLocalBufferSize :: nat where "kafkaLocalBufferSize = 200000"

text \<open>The batch capacity of the loop, and the limit of the reader.\<close>

definition batch_cap :: nat where "batch_cap = 1000"
definition maxConsecutiveDecodeErrors :: nat where "maxConsecutiveDecodeErrors = 50"

record kafkaQueue =
  kq_msgCh :: "kafka_message list"
  kq_produced :: int
  kq_consumed :: int
  kq_closed :: bool
  kq_overflow :: nat

definition new_kafkaQueue :: kafkaQueue where
  "new_kafkaQueue = \<lparr>kq_msgCh = [], kq_produced = 0, kq_consumed = 0, kq_closed = False, kq_overflow = 0\<rparr>"

definition kafkaMessage :: "(addr \<Rightarrow> string) \<Rightarrow> SQLEvent \<Rightarrow> kafka_message" where
  "kafkaMessage ip ev = \<lparr>km_Key = of_string (Key ip (Conn ev)), km_Value = encodeBinary ev\<rparr>"

definition kq_Enqueue :: "(addr \<Rightarrow> string) \<Rightarrow> SQLEvent \<Rightarrow> kafkaQueue \<Rightarrow> bool \<times> kafkaQueue" where
  "kq_Enqueue ip ev q =
     (if kq_closed q then (False, q)
      else if length (kq_msgCh q) < kafkaLocalBufferSize
        then (False, q\<lparr>kq_msgCh := kq_msgCh q @ [kafkaMessage ip ev]\<rparr>)
        else (True, q\<lparr>kq_overflow := kq_overflow q + 1\<rparr>))"

definition kq_Depth :: "kafkaQueue \<Rightarrow> int" where
  "kq_Depth q = (let d = int (length (kq_msgCh q)) + (kq_produced q - kq_consumed q) in if d < 0 then 0 else d)"

section \<open>Writing\<close>

type_synonym 'w writer = "kafka_message list \<Rightarrow> 'w \<Rightarrow> string option \<times> 'w"

text \<open>\<^verbatim>\<open>strings.Contains\<close>.\<close>

fun Contains :: "string \<Rightarrow> string \<Rightarrow> bool" where
  "Contains [] sub = (sub = [])"
| "Contains (c # s) sub = (take (length sub) (c # s) = sub \<or> Contains s sub)"

definition isRetriableKafkaError :: "string \<Rightarrow> bool" where
  "isRetriableKafkaError msg \<longleftrightarrow> Contains msg ''Unknown Topic Or Partition'' \<or> Contains msg ''Leader Not Available''
     \<or> Contains msg ''Not Leader'' \<or> Contains msg ''Request Timed Out''"

text \<open>
  The attempts from number \<open>attempt\<close> on, with \<open>n\<close> left; \<open>closing\<close> says whether the queue is seen closed
  before an attempt.
\<close>

fun retryWithBackoff :: "'w writer \<Rightarrow> (nat \<Rightarrow> bool) \<Rightarrow> kafka_message list \<Rightarrow> nat \<Rightarrow> nat \<Rightarrow> string option \<Rightarrow> int \<Rightarrow> 'w
    \<Rightarrow> string option \<times> int \<times> 'w" where
  "retryWithBackoff send closing batch attempt 0 lastErr produced w = (lastErr, produced, w)"
| "retryWithBackoff send closing batch attempt (Suc n) lastErr produced w =
     (if attempt > 0 \<and> closing attempt then (lastErr, produced, w)
      else case send batch w of
        (None, w) \<Rightarrow> (None, produced + int (length batch), w)
      | (Some err, w) \<Rightarrow>
          if isRetriableKafkaError err then retryWithBackoff send closing batch (attempt + 1) n (Some err) produced w
          else (Some err, produced, w))"

fun one_by_one :: "'w writer \<Rightarrow> kafka_message list \<Rightarrow> 'w \<Rightarrow> kafka_message list \<times> 'w" where
  "one_by_one send [] w = ([], w)"
| "one_by_one send (m # ms) w = (case send [m] w of (err, w) \<Rightarrow>
     (case one_by_one send ms w of (failed, w) \<Rightarrow> (case err of None \<Rightarrow> failed | Some _ \<Rightarrow> m # failed, w)))"

definition writePartialBatch :: "'w writer \<Rightarrow> kafka_message list \<Rightarrow> 'w \<Rightarrow> kafka_message list \<times> 'w" where
  "writePartialBatch send batch w =
     (if length batch > 1 then
        let mid = length batch div 2; left = take mid batch; right = drop mid batch in
        case send left w of (err1, w) \<Rightarrow>
        case send right w of (err2, w) \<Rightarrow>
        let failed = (case err1 of None \<Rightarrow> [] | Some _ \<Rightarrow> left) @ (case err2 of None \<Rightarrow> [] | Some _ \<Rightarrow> right) in
        if 0 < length failed \<and> length failed < length batch then one_by_one send failed w else (failed, w)
      else case send batch w of (err, w) \<Rightarrow> (case err of None \<Rightarrow> [] | Some _ \<Rightarrow> batch, w))"

definition writeBatchWithRetry :: "'w writer \<Rightarrow> (nat \<Rightarrow> bool) \<Rightarrow> kafka_message list \<Rightarrow> int \<Rightarrow> 'w
    \<Rightarrow> kafka_message list \<times> int \<times> 'w" where
  "writeBatchWithRetry send closing batch produced w =
     (if batch = [] then ([], produced, w)
      else case send batch w of
        (None, w) \<Rightarrow> ([], produced + int (length batch), w)
      | (Some _, w) \<Rightarrow>
          case retryWithBackoff send closing batch 0 3 None produced w of
            (None, produced, w) \<Rightarrow> ([], produced, w)
          | (Some _, produced, w) \<Rightarrow>
              case writePartialBatch send batch w of (failed, w) \<Rightarrow>
                (failed, produced + (int (length batch) - int (length failed)), w))"

text \<open>One iteration of the loop on what the channel holds when it is drained.\<close>

definition produce_batch :: "'w writer \<Rightarrow> (nat \<Rightarrow> bool) \<Rightarrow> kafkaQueue \<Rightarrow> 'w \<Rightarrow> kafkaQueue \<times> 'w" where
  "produce_batch send closing q w =
     (case writeBatchWithRetry send closing (take batch_cap (kq_msgCh q)) (kq_produced q) w of (failed, produced, w) \<Rightarrow>
       (q\<lparr>kq_msgCh := drop batch_cap (kq_msgCh q), kq_produced := produced, kq_overflow := kq_overflow q + length failed\<rparr>, w))"

text \<open>The loop after the channel was closed: it ends when the channel is empty.\<close>

function flush_loop :: "'w writer \<Rightarrow> (nat \<Rightarrow> bool) \<Rightarrow> kafkaQueue \<Rightarrow> 'w \<Rightarrow> kafkaQueue \<times> 'w" where
  "flush_loop send closing q w =
     (if kq_msgCh q = [] then (q, w)
      else case produce_batch send closing q w of (q, w) \<Rightarrow> flush_loop send closing q w)"
  by pat_completeness auto

termination
  by (relation "measure (\<lambda>(send, closing, q, w). length (kq_msgCh q))")
    (auto simp: produce_batch_def batch_cap_def split: prod.splits)

declare flush_loop.simps [simp del]

definition kq_Close :: "'w writer \<Rightarrow> kafkaQueue \<Rightarrow> 'w \<Rightarrow> kafkaQueue \<times> 'w" where
  "kq_Close send q w = (if kq_closed q then (q, w) else flush_loop send (\<lambda>_. True) (q\<lparr>kq_closed := True\<rparr>) w)"

section \<open>Reading\<close>

datatype kafka_dequeue = KStop | KPanic | KEvent SQLEvent

text \<open>The loop of Dequeue with \<open>k\<close> undecodable messages left before it gives up.\<close>

fun kq_read :: "('r \<Rightarrow> bytes option \<times> 'r) \<Rightarrow> nat \<Rightarrow> int \<Rightarrow> 'r \<Rightarrow> kafka_dequeue \<times> int \<times> 'r" where
  "kq_read read 0 consumed r = (KStop, consumed, r)"
| "kq_read read (Suc k) consumed r = (case read r of
     (None, r) \<Rightarrow> (KStop, consumed, r)
   | (Some v, r) \<Rightarrow> (case decodeBinary v of
       Inl Panic \<Rightarrow> (KPanic, consumed, r)
     | Inl _ \<Rightarrow> if k = 0 then (KStop, consumed, r) else kq_read read k (consumed + 1) r
     | Inr ev \<Rightarrow> (KEvent ev, consumed + 1, r)))"

definition kq_Dequeue :: "('r \<Rightarrow> bytes option \<times> 'r) \<Rightarrow> kafkaQueue \<Rightarrow> 'r \<Rightarrow> kafka_dequeue \<times> kafkaQueue \<times> 'r" where
  "kq_Dequeue read q r =
     (if kq_closed q then (KStop, q, r)
      else case kq_read read maxConsecutiveDecodeErrors (kq_consumed q) r of
        (res, consumed, r) \<Rightarrow> (res, q\<lparr>kq_consumed := consumed\<rparr>, r))"

section \<open>What reaches the broker\<close>

text \<open>
  What is known of the client: a write without an error appended all messages to the topic, a write
  with an error some of them.
\<close>

locale kafka_writer =
  fixes send :: "'w writer" and topic :: "'w \<Rightarrow> kafka_message list"
  assumes write_ok: "send ms w = (None, w') \<Longrightarrow> topic w' = topic w @ ms"
    and write_err: "send ms w = (Some e, w') \<Longrightarrow> \<exists>part. topic w' = topic w @ part \<and> set part \<subseteq> set ms"
begin

text \<open>The messages of \<open>ms\<close> are on the topic after the step, or among those given up, and nothing else is added.\<close>

definition delivers :: "kafka_message list \<Rightarrow> kafka_message list \<Rightarrow> 'w \<Rightarrow> 'w \<Rightarrow> bool" where
  "delivers ms failed w w' \<longleftrightarrow> (\<exists>new. topic w' = topic w @ new \<and> set new \<subseteq> set ms \<and> mset ms \<subseteq># mset new + mset failed
     \<and> mset failed \<subseteq># mset ms)"

lemma delivers_none: "delivers [] [] w w"
  by (simp add: delivers_def)

lemma delivers_write: "send ms w = (err, w') \<Longrightarrow> delivers ms (case err of None \<Rightarrow> [] | Some _ \<Rightarrow> ms) w w'"
  using write_ok [of ms w w'] write_err [of ms w _ w'] by (cases err) (force simp: delivers_def)+

text \<open>A failed attempt before a delivery does no harm.\<close>

lemma delivers_after_error:
  assumes "send ms w = (Some e, w1)" and "delivers ms failed w1 w2"
  shows "delivers ms failed w w2"
proof -
  obtain part new where "topic w1 = topic w @ part" "set part \<subseteq> set ms" "topic w2 = topic w1 @ new" "set new \<subseteq> set ms"
      "mset ms \<subseteq># mset new + mset failed" "mset failed \<subseteq># mset ms"
    using write_err [OF assms(1)] assms(2) by (auto simp: delivers_def)
  then have "topic w2 = topic w @ (part @ new) \<and> set (part @ new) \<subseteq> set ms \<and> mset ms \<subseteq># mset (part @ new) + mset failed
      \<and> mset failed \<subseteq># mset ms"
    by (auto simp: add.assoc intro: subset_mset.add_increasing)
  then show ?thesis unfolding delivers_def by blast
qed

lemma delivers_both:
  assumes "delivers ms f w w1" and "delivers ms' f' w1 w2"
  shows "delivers (ms @ ms') (f @ f') w w2"
proof -
  obtain a b where "topic w1 = topic w @ a" "set a \<subseteq> set ms" "mset ms \<subseteq># mset a + mset f" "mset f \<subseteq># mset ms"
      "topic w2 = topic w1 @ b" "set b \<subseteq> set ms'" "mset ms' \<subseteq># mset b + mset f'" "mset f' \<subseteq># mset ms'"
    using assms by (auto simp: delivers_def)
  then have "topic w2 = topic w @ (a @ b) \<and> set (a @ b) \<subseteq> set (ms @ ms') \<and> mset (f @ f') \<subseteq># mset (ms @ ms')
      \<and> mset (ms @ ms') \<subseteq># (mset a + mset f) + (mset b + mset f')"
    by (auto intro: subset_mset.add_mono)
  then have "topic w2 = topic w @ (a @ b) \<and> set (a @ b) \<subseteq> set (ms @ ms') \<and> mset (f @ f') \<subseteq># mset (ms @ ms')
      \<and> mset (ms @ ms') \<subseteq># mset (a @ b) + mset (f @ f')"
    by (simp add: ac_simps)
  then show ?thesis unfolding delivers_def by blast
qed

text \<open>Messages given up may be tried again.\<close>

lemma delivers_again:
  assumes "delivers ms f w w1" and "delivers f f' w1 w2"
  shows "delivers ms f' w w2"
proof -
  obtain a b where a: "topic w1 = topic w @ a" "set a \<subseteq> set ms" "mset ms \<subseteq># mset a + mset f" "mset f \<subseteq># mset ms"
      and b: "topic w2 = topic w1 @ b" "set b \<subseteq> set f" "mset f \<subseteq># mset b + mset f'" "mset f' \<subseteq># mset f"
    using assms by (auto simp: delivers_def)
  have "mset ms \<subseteq># mset a + (mset b + mset f')"
    using subset_mset.order_trans [OF a(3) subset_mset.add_left_mono [OF b(3)]] .
  moreover have "set f \<subseteq> set ms" using a(4) set_mset_mono by fastforce
  ultimately have "topic w2 = topic w @ (a @ b) \<and> set (a @ b) \<subseteq> set ms \<and> mset ms \<subseteq># mset (a @ b) + mset f'
      \<and> mset f' \<subseteq># mset ms"
    using a(1,2,4) b(1,2,4) subset_mset.order_trans by (auto simp: ac_simps)
  then show ?thesis unfolding delivers_def by blast
qed

lemma one_by_one_delivers: "one_by_one send ms w = (failed, w') \<Longrightarrow> delivers ms failed w w'"
proof (induction ms arbitrary: w failed)
  case (Cons m ms)
  obtain err w1 where x: "send [m] w = (err, w1)" by (cases "send [m] w")
  obtain f where y: "one_by_one send ms w1 = (f, w')" and f: "failed = (case err of None \<Rightarrow> f | Some _ \<Rightarrow> m # f)"
    using Cons.prems by (auto simp: x split: prod.splits option.splits)
  have "delivers ([m] @ ms) ((case err of None \<Rightarrow> [] | Some _ \<Rightarrow> [m]) @ f) w w'"
    by (rule delivers_both [OF delivers_write [OF x] Cons.IH [OF y]])
  then show ?case by (cases err) (simp_all add: f)
qed (simp add: delivers_none)

lemma partial_delivers:
  assumes "writePartialBatch send batch w = (failed, w')"
  shows "delivers batch failed w w'"
proof (cases "length batch > 1")
  case False
  obtain err w1 where x: "send batch w = (err, w1)" by (cases "send batch w")
  then show ?thesis using False assms delivers_write [OF x] by (simp add: writePartialBatch_def)
next
  case True
  let ?l = "take (length batch div 2) batch" and ?r = "drop (length batch div 2) batch"
  obtain e1 w1 where x: "send ?l w = (e1, w1)" by (cases "send ?l w")
  obtain e2 w2 where y: "send ?r w1 = (e2, w2)" by (cases "send ?r w1")
  let ?f = "(case e1 of None \<Rightarrow> [] | Some _ \<Rightarrow> ?l) @ (case e2 of None \<Rightarrow> [] | Some _ \<Rightarrow> ?r)"
  have half: "delivers batch ?f w w2"
    using delivers_both [OF delivers_write [OF x] delivers_write [OF y]] by (simp only: append_take_drop_id)
  have "(if 0 < length ?f \<and> length ?f < length batch then one_by_one send ?f w2 else (?f, w2)) = (failed, w')"
    using assms True by (simp add: writePartialBatch_def x y Let_def)
  then show ?thesis
    using half delivers_again [OF half one_by_one_delivers] by (simp split: if_splits)
qed

lemma retry_delivers:
  "retryWithBackoff send closing batch attempt n err produced w = (None, produced', w') \<Longrightarrow> err \<noteq> None \<or> attempt = 0 \<and> 0 < n
    \<Longrightarrow> delivers batch [] w w' \<and> produced' = produced + int (length batch)"
proof (induction n arbitrary: attempt err w)
  case (Suc n)
  obtain e w1 where x: "send batch w = (e, w1)" by (cases "send batch w")
  show ?case
  proof (cases e)
    case None
    then show ?thesis using Suc.prems x delivers_write [OF x] by (auto split: if_splits)
  next
    case (Some er)
    then have "retryWithBackoff send closing batch (attempt + 1) n (Some er) produced w1 = (None, produced', w')"
      using Suc.prems x by (auto split: if_splits)
    from Suc.IH [OF this] show ?thesis using delivers_after_error [of batch w er w1] x Some by simp
  qed
qed simp

text \<open>Attempts that all failed leave only parts of the batch behind.\<close>

lemma retry_fails:
  "retryWithBackoff send closing batch attempt n err produced w = (Some e, produced', w')
    \<Longrightarrow> produced' = produced \<and> (delivers batch failed w' w'' \<longrightarrow> delivers batch failed w w'')"
proof (induction n arbitrary: attempt err w)
  case (Suc n)
  obtain r w1 where x: "send batch w = (r, w1)" by (cases "send batch w")
  show ?case
  proof (cases "attempt > 0 \<and> closing attempt")
    case True
    then show ?thesis using Suc.prems by auto
  next
    case False
    then obtain er where r: "r = Some er" using Suc.prems x by (cases r) auto
    show ?thesis
    proof (cases "isRetriableKafkaError er")
      case True
      then have "retryWithBackoff send closing batch (attempt + 1) n (Some er) produced w1 = (Some e, produced', w')"
        using Suc.prems False x r by simp
      from Suc.IH [OF this] show ?thesis using delivers_after_error [OF x [unfolded r]] by blast
    next
      case False
      then have "w1 = w' \<and> produced' = produced" using Suc.prems \<open>\<not> (attempt > 0 \<and> closing attempt)\<close> x r by (simp split: if_splits)
      then show ?thesis using delivers_after_error [OF x [unfolded r]] by blast
    qed
  qed
qed simp

lemma batch_delivers:
  assumes "writeBatchWithRetry send closing batch produced w = (failed, produced', w')"
  shows "delivers batch failed w w' \<and> produced' = produced + int (length batch) - int (length failed)"
proof (cases "batch = []")
  case True
  then show ?thesis using assms by (simp add: writeBatchWithRetry_def delivers_none)
next
  case False
  obtain r w1 where x: "send batch w = (r, w1)" by (cases "send batch w")
  show ?thesis
  proof (cases r)
    case None
    then show ?thesis using assms False x delivers_write [OF x] by (simp add: writeBatchWithRetry_def)
  next
    case (Some er)
    obtain e p w2 where y: "retryWithBackoff send closing batch 0 3 None produced w1 = (e, p, w2)" by (metis surj_pair)
    show ?thesis
    proof (cases e)
      case None
      then have "failed = []" "p = produced'" "w2 = w'" using assms False x Some y by (simp_all add: writeBatchWithRetry_def)
      then show ?thesis
        using retry_delivers [OF y [unfolded None]] delivers_after_error [OF x [unfolded Some]] by simp
    next
      case (Some e')
      obtain f w3 where z: "writePartialBatch send batch w2 = (f, w3)" by (cases "writePartialBatch send batch w2")
      then have "failed = f" "produced' = p + (int (length batch) - int (length f))" "w3 = w'"
        using assms False x \<open>r = Some er\<close> y Some by (auto simp: writeBatchWithRetry_def)
      then show ?thesis
        using retry_fails [OF y [unfolded Some]] partial_delivers [OF z] delivers_after_error [OF x [unfolded \<open>r = Some er\<close>]]
        by auto
    qed
  qed
qed

text \<open>
  Closing empties the buffer: every message in it is on the topic or was counted as overflow.
\<close>

lemma flush_delivers:
  "flush_loop send closing q w = (q', w') \<Longrightarrow> \<exists>failed. delivers (kq_msgCh q) failed w w' \<and> kq_msgCh q' = []
    \<and> kq_overflow q' = kq_overflow q + length failed
    \<and> kq_produced q' = kq_produced q + int (length (kq_msgCh q)) - int (length failed)"
proof (induction "length (kq_msgCh q)" arbitrary: q w rule: less_induct)
  case less
  show ?case
  proof (cases "kq_msgCh q = []")
    case True
    then show ?thesis using less.prems delivers_none by (auto simp: flush_loop.simps)
  next
    case False
    obtain f p w1 where x: "writeBatchWithRetry send closing (take batch_cap (kq_msgCh q)) (kq_produced q) w = (f, p, w1)"
      by (metis surj_pair)
    let ?q = "q\<lparr>kq_msgCh := drop batch_cap (kq_msgCh q), kq_produced := p, kq_overflow := kq_overflow q + length f\<rparr>"
    have "flush_loop send closing ?q w1 = (q', w')"
      using less.prems False by (simp add: flush_loop.simps [of send closing q] produce_batch_def x)
    moreover have "length (kq_msgCh ?q) < length (kq_msgCh q)" using False by (simp add: batch_cap_def)
    ultimately obtain g where g: "delivers (drop batch_cap (kq_msgCh q)) g w1 w'" "kq_msgCh q' = []"
        "kq_overflow q' = kq_overflow q + length f + length g"
        "kq_produced q' = p + int (length (drop batch_cap (kq_msgCh q))) - int (length g)"
      using less.hyps [of ?q w1] by auto
    note first = batch_delivers [OF x]
    have "delivers (kq_msgCh q) (f @ g) w w'" using delivers_both [of _ f w w1 _ g w'] first g(1) by (metis append_take_drop_id)
    moreover have "length (take batch_cap (kq_msgCh q)) + length (drop batch_cap (kq_msgCh q)) = length (kq_msgCh q)"
      by (simp flip: length_append)
    ultimately show ?thesis using g first by (intro exI [of _ "f @ g"]) simp
  qed
qed

end

section \<open>Properties\<close>

text \<open>A client with a script of answers, which fails without writing.\<close>

fun scripted_send :: "(string option list \<times> kafka_message list) writer" where
  "scripted_send ms ([], written) = (None, ([], written @ ms))"
| "scripted_send ms (None # script, written) = (None, (script, written @ ms))"
| "scripted_send ms (Some e # script, written) = (Some e, (script, written))"

lemma scripted_cases:
  "scripted_send ms w = (None, w') \<Longrightarrow> snd w' = snd w @ ms" "scripted_send ms w = (Some e, w') \<Longrightarrow> snd w' = snd w"
  by (cases "(ms, w)" rule: scripted_send.cases; auto)+

interpretation scripted: kafka_writer scripted_send snd
  by unfold_locales (use scripted_cases in auto)

text \<open>
  C30: at least once. Whatever writes fail, wholly or in part, closing the Kafka queue empties its
  buffer, every buffered message is on the topic or was counted as overflow, as many as were
  given up, and nothing else was written.
\<close>

theorem kafka_at_least_once:
  assumes "kafka_writer send topic" and "kq_Close send q w = (q', w')" and "\<not> kq_closed q"
  shows "\<exists>new failed. topic w' = topic w @ new \<and> set new \<subseteq> set (kq_msgCh q) \<and> kq_msgCh q' = []
    \<and> mset (kq_msgCh q) \<subseteq># mset new + mset failed \<and> kq_overflow q' = kq_overflow q + length failed
    \<and> kq_produced q' = kq_produced q + int (length (kq_msgCh q)) - int (length failed)"
proof -
  have "flush_loop send (\<lambda>_. True) (q\<lparr>kq_closed := True\<rparr>) w = (q', w')" using assms(2,3) by (simp add: kq_Close_def)
  from kafka_writer.flush_delivers [OF assms(1) this] show ?thesis
    by (auto simp: kafka_writer.delivers_def [OF assms(1)])
qed

definition sample_message :: "byte \<Rightarrow> kafka_message" where
  "sample_message b = \<lparr>km_Key = [1], km_Value = [b]\<rparr>"

definition sample_queue :: kafkaQueue where
  "sample_queue = new_kafkaQueue\<lparr>kq_msgCh := [sample_message 1, sample_message 2]\<rparr>"

lemma kafka_at_least_once_witness:
  "\<exists>q' script written failed. kq_Close scripted_send sample_queue ([Some [], None], []) = (q', (script, written)) \<and> kq_msgCh q' = []
    \<and> {#sample_message 1, sample_message 2#} \<subseteq># mset written + mset failed \<and> kq_overflow q' = length failed"
proof -
  obtain q' script written where x: "kq_Close scripted_send sample_queue ([Some [], None], []) = (q', (script, written))"
    by (metis surj_pair)
  have "\<not> kq_closed sample_queue" by (simp add: sample_queue_def new_kafkaQueue_def)
  from kafka_at_least_once [OF scripted.kafka_writer_axioms x this] x show ?thesis
    by (auto simp: sample_queue_def new_kafkaQueue_def)
qed

text \<open>
  The halves are written out of order when the first fails and the second does not: two messages
  of one connection change places on the topic.
\<close>

lemma partial_batch_reorders:
  "writeBatchWithRetry scripted_send closing [sample_message 1, sample_message 2] 0
      ([Some ''broken'', Some ''broken'', Some ''broken''], [])
    = ([], 2, ([], [sample_message 2, sample_message 1]))"
proof -
  have "\<not> isRetriableKafkaError ''broken''" by code_simp
  then show ?thesis by (simp add: writeBatchWithRetry_def writePartialBatch_def numeral_3_eq_3)
qed

text \<open>When both halves fail the messages are given up without being tried one by one.\<close>

lemma failed_halves_given_up:
  assumes "length batch > 1" and "send (take (length batch div 2) batch) w = (Some e1, w1)"
    and "send (drop (length batch div 2) batch) w1 = (Some e2, w2)"
  shows "writePartialBatch send batch w = (batch, w2)"
  using assms by (simp add: writePartialBatch_def Let_def)

text \<open>
  Dequeue ends after at most fifty undecodable messages; a failed read of any kind, and these
  fifty, end the consumer although the queue is open.
\<close>

fun read_list :: "bytes list \<Rightarrow> bytes option \<times> bytes list" where
  "read_list [] = (None, [])"
| "read_list (v # vs) = (Some v, vs)"

lemma kafka_read_bounded:
  "kq_read read_list k consumed vs = (res, consumed', vs') \<Longrightarrow> \<exists>n \<le> k. vs' = drop n vs
    \<and> (case res of KEvent ev \<Rightarrow> 0 < n \<and> n \<le> length vs \<and> decodeBinary (vs ! (n - 1)) = Inr ev | _ \<Rightarrow> True)"
proof (induction k arbitrary: consumed vs)
  case (Suc k)
  show ?case
  proof (cases vs)
    case Nil
    then show ?thesis using Suc.prems by (intro exI [of _ 0]) auto
  next
    case (Cons v rest)
    show ?thesis
    proof (cases "\<exists>er. decodeBinary v = Inl er \<and> er \<noteq> Panic \<and> k \<noteq> 0")
      case True
      then have "kq_read read_list k (consumed + 1) rest = (res, consumed', vs')"
        using Suc.prems Cons by (auto split: codec_error.splits)
      from Suc.IH [OF this] obtain n where "n \<le> k" "vs' = drop n rest"
          "case res of KEvent ev \<Rightarrow> 0 < n \<and> n \<le> length rest \<and> decodeBinary (rest ! (n - 1)) = Inr ev | _ \<Rightarrow> True"
        by blast
      then show ?thesis by (intro exI [of _ "Suc n"]) (auto simp: Cons split: kafka_dequeue.splits)
    next
      case False
      then show ?thesis
        using Suc.prems Cons by (intro exI [of _ 1]) (auto split: sum.splits codec_error.splits if_splits)
    qed
  qed
qed simp

lemma kafka_read_error_stops:
  assumes "read r = (None, r')" and "\<not> kq_closed q"
  shows "kq_Dequeue read q r = (KStop, q, r')"
  using assms by (simp add: kq_Dequeue_def maxConsecutiveDecodeErrors_def numeral_eq_Suc)

end
