(* ===== verification/Exec_Chain.thy ===== *)
theory Exec_Chain
  imports Replay_Guard
begin

text \<open>
  The composition of the execution chain, \<^verbatim>\<open>buildExecutor\<close> of \<^verbatim>\<open>src/pkg/replayer/exec_decorators.go\<close>
  with the rollback hook \<^verbatim>\<open>NewReplayerWithHook\<close> installs: guard, pacing, rate limit, error policy
  and dialect around the pool's executor. A layer that is left out keeps its state untouched.
\<close>

record chain_config =
  cc_dialect :: string
  cc_policy :: ErrorPolicy
  cc_rateLimit :: rat
  cc_speedFactor :: rat
  cc_guarded :: bool

text \<open>
  What the chain relies on outside: whether the context is done, the abort hook, the limiter's wait,
  the sleeper, the float quotient and the guard's library.
\<close>

record 'w chain_env =
  ce_done :: "'w \<Rightarrow> bool"
  ce_abort :: "'w \<Rightarrow> 'w"
  ce_wait :: "'w \<Rightarrow> string option \<times> 'w"
  ce_sleep :: "int \<Rightarrow> 'w \<Rightarrow> 'w"
  ce_fdiv :: "int \<Rightarrow> rat \<Rightarrow> int"
  ce_library :: guard_library

type_synonym 'w chain_state = "replayguardExecutor \<times> pacing \<times> 'w"

definition policy_layer :: "'w chain_env \<Rightarrow> chain_config \<Rightarrow> 'w executor \<Rightarrow> 'w executor" where
  "policy_layer env cfg base = errorPolicy_Exec (ce_done env)
     ((newErrorPolicyExecutor (newDialectExecutor base (cc_dialect cfg)) (cc_policy cfg) (Some (ce_abort env)))
       \<lparr>ep_resetExec := Some base\<rparr>)"

definition limit_layer :: "'w chain_env \<Rightarrow> chain_config \<Rightarrow> 'w executor \<Rightarrow> 'w executor" where
  "limit_layer env cfg ex = (if cc_rateLimit cfg \<le> 0 then ex else rateLimit_Exec (ce_wait env) ex)"

definition pacing_layer :: "'w chain_env \<Rightarrow> chain_config \<Rightarrow> 'w executor \<Rightarrow> (pacing \<times> 'w) executor" where
  "pacing_layer env cfg ex conn ev pw =
     (if cc_speedFactor cfg > 0 then pacing_Exec (ce_fdiv env) (ce_sleep env) ex conn ev pw
      else case ex conn ev (snd pw) of (err, w) \<Rightarrow> (err, fst pw, w))"

definition buildExecutor :: "'w chain_env \<Rightarrow> chain_config \<Rightarrow> 'w executor \<Rightarrow> 'w chain_state executor" where
  "buildExecutor env cfg base conn ev s =
     (let ex = pacing_layer env cfg (limit_layer env cfg (policy_layer env cfg base)) in
      if cc_guarded cfg then guard_Exec (ce_library env) ex conn ev s
      else case ex conn ev (snd s) of (err, pw) \<Rightarrow> (err, fst s, pw))"

section \<open>What reaches the target\<close>

text \<open>An executor on a state with a log adds to it only calls that satisfy \<open>P\<close>.\<close>

definition sends :: "('s \<Rightarrow> exec_log) \<Rightarrow> (SQLEvent \<Rightarrow> bool) \<Rightarrow> 's executor \<Rightarrow> bool" where
  "sends lg P ex \<longleftrightarrow> (\<forall>conn ev s. \<exists>calls. lg (snd (ex conn ev s)) = lg s @ calls \<and> list_all (P \<circ> fst) calls)"

definition adds :: "(SQLEvent \<Rightarrow> bool) \<Rightarrow> exec_log \<Rightarrow> exec_log \<Rightarrow> bool" where
  "adds P l l' \<longleftrightarrow> (\<exists>calls. l' = l @ calls \<and> list_all (P \<circ> fst) calls)"

lemma sends_adds: "sends lg P ex \<longleftrightarrow> (\<forall>conn ev s. adds P (lg s) (lg (snd (ex conn ev s))))"
  by (simp add: sends_def adds_def)

lemma sendsD: "sends lg P ex \<Longrightarrow> adds P (lg s) (lg (snd (ex conn ev s)))"
  by (simp add: sends_adds)

lemma adds_refl [simp]: "adds P l l"
  by (simp add: adds_def)

lemma adds_trans: "adds P l m \<Longrightarrow> adds P m n \<Longrightarrow> adds P l n"
  by (auto simp: adds_def)

lemma adds_one: "P ev \<Longrightarrow> adds P l (l @ [(ev, err)])"
  by (simp add: adds_def)

lemma sends_rate: "sends lg P ex \<Longrightarrow> (\<And>w. lg (snd (wait w)) = lg w) \<Longrightarrow> sends lg P (rateLimit_Exec wait ex)"
  unfolding sends_adds rateLimit_Exec_def by (auto split: prod.splits option.splits) (metis adds_refl snd_conv)+

lemma retry_sends:
  assumes "sends lg P ex"
  shows "adds P (lg w) (lg (snd (retry_loop ctx ex conn ev n err w)))"
proof (induction n arbitrary: err w)
  case (Suc n)
  obtain e w1 where x: "ex conn ev w = (e, w1)" by (cases "ex conn ev w")
  have "adds P (lg w) (lg w1)" using sendsD [OF assms, of w conn ev] by (simp add: x)
  then show ?case using adds_trans Suc.IH by (cases e) (auto simp: x)
qed simp

lemma policy_sends:
  assumes "sends lg P (ep_next e)" and "\<And>w. lg (resetTxState e conn w) = lg w \<or> adds P (lg w) (lg (resetTxState e conn w))"
    and "\<And>w f. ep_onAbort e = Some f \<Longrightarrow> lg (f w) = lg w"
  shows "adds P (lg w) (lg (snd (errorPolicy_Exec ctx e conn ev w)))"
proof -
  obtain r w1 where x: "ep_next e conn ev w = (r, w1)" by (cases "ep_next e conn ev w")
  have one: "adds P (lg w) (lg w1)" using sendsD [OF assms(1), of w conn ev] by (simp add: x)
  have reset: "adds P (lg w) (lg v) \<Longrightarrow> adds P (lg w) (lg (resetTxState e conn v))" for v
    using assms(2) [of v] adds_trans by metis
  show ?thesis
  proof (cases r)
    case None
    then show ?thesis using one by (simp add: errorPolicy_Exec_def x)
  next
    case (Some err)
    obtain r2 w2 where l: "retry_loop ctx (ep_next e) conn ev (ep_maxAttempts e) err w1 = (r2, w2)" by (metis surj_pair)
    have "adds P (lg w) (lg w2)"
      using adds_trans [OF one] retry_sends [OF assms(1), of w1 ctx conn ev "ep_maxAttempts e" err] by (simp add: l)
    then show ?thesis
      using one reset assms(3) Some l by (cases "ep_policy e"; cases r2)
        (auto simp: errorPolicy_Exec_def x split: option.splits)
  qed
qed

lemma pacing_sends:
  assumes "sends lg P ex" and "\<And>d w. lg (ce_sleep env d w) = lg w"
  shows "sends (\<lambda>pw. lg (snd pw)) P (pacing_layer env cfg ex)"
  unfolding sends_adds
proof (intro allI)
  fix conn ev and s :: "pacing \<times> 'a"
  have "adds P (lg w) (lg (snd (ex conn ev v)))" if "lg v = lg w" for v w
    using sendsD [OF assms(1), of v conn ev] by (simp add: that)
  then show "adds P (lg (snd s)) (lg (snd (snd (pacing_layer env cfg ex conn ev s))))"
    using assms(2) by (auto simp: pacing_layer_def pacing_Exec_def split: prod.splits) (metis snd_conv)+
qed

lemma guard_sends:
  assumes "sends lg P ex"
  shows "sends (\<lambda>s. lg (snd s)) P (guard_Exec lib ex)"
  unfolding sends_adds
proof (intro allI)
  fix conn ev and s :: "replayguardExecutor \<times> 'a"
  have "adds P (lg w) (lg w')" if "ex conn ev' w = (err, w')" for ev' err w w'
    using sendsD [OF assms, of w conn ev'] by (simp add: that)
  then show "adds P (lg (snd s)) (lg (snd (snd (guard_Exec lib ex conn ev s))))"
    by (auto simp: guard_Exec_def Let_def split: prod.splits Decision.splits)
qed

text \<open>The services outside the target do not write its log.\<close>

definition quiet :: "('w \<Rightarrow> exec_log) \<Rightarrow> 'w chain_env \<Rightarrow> bool" where
  "quiet lg env \<longleftrightarrow> (\<forall>w. lg (ce_abort env w) = lg w \<and> lg (snd (ce_wait env w)) = lg w)
     \<and> (\<forall>d w. lg (ce_sleep env d w) = lg w)"

abbreviation chain_log :: "(exec_log \<times> 'w) chain_state \<Rightarrow> exec_log" where
  "chain_log s \<equiv> fst (snd (snd s))"


definition demo_env :: "(exec_log \<times> nat) chain_env" where
  "demo_env = \<lparr>ce_done = (\<lambda>w. False), ce_abort = (\<lambda>w. w), ce_wait = (\<lambda>w. (None, w)), ce_sleep = (\<lambda>d w. w),
     ce_fdiv = (\<lambda>g f. g), ce_library = plain_library\<rparr>"

definition demo_chain :: chain_config where
  "demo_chain = \<lparr>cc_dialect = '' Greenplum'', cc_policy = Skip, cc_rateLimit = 0, cc_speedFactor = 1, cc_guarded = False\<rparr>"


text \<open>The rollback of the error policy does pass the dialect by.\<close>

lemma greenplum_gets_rollback:
  "snd (policy_layer demo_env demo_chain (logged flaky) sample_source (zero_event sample_source) ([], 0)) =
    ([(zero_event sample_source, Some ''deadlock''), ((zero_event sample_source)\<lparr>SQL := ''ROLLBACK''\<rparr>, Some ''deadlock'')], 2)"
proof -
  have "ToLower (TrimSpace (cc_dialect demo_chain)) = ''greenplum''" by code_simp
  then have d: "newDialectExecutor (logged flaky) (cc_dialect demo_chain) = greenplum_Exec (logged flaky)"
    by (simp add: newDialectExecutor_def)
  have call: "logged flaky c ev (l, n) = (fst (flaky c ev n), l @ [(ev, fst (flaky c ev n))], snd (flaky c ev n))" for c ev l n
    by (rule logged_call) simp
  have "\<not> isTransactionControl (SQL (zero_event sample_source))" by code_simp
  moreover have "cc_policy demo_chain = Skip" by (simp add: demo_chain_def)
  ultimately show ?thesis
    by (simp add: policy_layer_def d errorPolicy_Exec_def newErrorPolicyExecutor_def resetTxState_def demo_env_def
        greenplum_Exec_def call flaky_def)
qed

end
