(* ===== verification/Conn_Pool.thy ===== *)
theory Conn_Pool
  imports Core_Types
begin

text \<open>
  The leasing logic of the connection pool, \<^verbatim>\<open>affinityPool\<close> of \<^verbatim>\<open>src/pkg/replayer/pool.go\<close>. Goroutines
  call it concurrently: a step is one region under the mutex, or one call of the source pool
  outside it. A handle is a number, fresh for each successful \<^verbatim>\<open>Acquire\<close>; whether a \<^verbatim>\<open>Ping\<close> succeeds
  and whether \<^verbatim>\<open>Acquire\<close> fails is open.
\<close>

section \<open>State\<close>

record affinityPool =
  ap_sessionAffinity :: bool
  ap_leases :: "ConnID \<Rightarrow> nat option"
  ap_closed :: bool

definition newAffinityPool :: "bool \<Rightarrow> affinityPool" where
  "newAffinityPool affinity = \<lparr>ap_sessionAffinity = affinity, ap_leases = (\<lambda>_. None), ap_closed = False\<rparr>"

text \<open>Where a goroutine is: outside, or inside \<open>acquireFor\<close>, or about to release a handle.\<close>

datatype pool_pc = PIdle | PPing ConnID nat | PDead ConnID nat | PAcquire ConnID | PStore ConnID nat
  | PExtra nat | PRelease nat

text \<open>What happened to the lease of a connection.\<close>

datatype pool_event = Returned ConnID nat | Replaced ConnID | Freed ConnID | AllFreed

record pool_state =
  ps_pool :: affinityPool
  ps_pc :: "nat \<Rightarrow> pool_pc"
  ps_fresh :: nat
  ps_released :: "nat list"
  ps_hist :: "pool_event list"

definition pool_init :: "bool \<Rightarrow> pool_state" where
  "pool_init affinity = \<lparr>ps_pool = newAffinityPool affinity, ps_pc = (\<lambda>_. PIdle), ps_fresh = 0, ps_released = [], ps_hist = []\<rparr>"

definition goto :: "nat \<Rightarrow> pool_pc \<Rightarrow> pool_state \<Rightarrow> pool_state" where
  "goto t pc s = s\<lparr>ps_pc := (ps_pc s)(t := pc)\<rparr>"

definition set_lease :: "ConnID \<Rightarrow> nat option \<Rightarrow> pool_state \<Rightarrow> pool_state" where
  "set_lease c h s = s\<lparr>ps_pool := (ps_pool s)\<lparr>ap_leases := (ap_leases (ps_pool s))(c := h)\<rparr>\<rparr>"

definition handle_Release :: "nat \<Rightarrow> pool_state \<Rightarrow> pool_state" where
  "handle_Release h s = s\<lparr>ps_released := ps_released s @ [h]\<rparr>"

definition happened :: "pool_event \<Rightarrow> pool_state \<Rightarrow> pool_state" where
  "happened e s = s\<lparr>ps_hist := ps_hist s @ [e]\<rparr>"

section \<open>Steps\<close>

datatype pool_act = AAcquire nat ConnID | ARelease nat ConnID | AClose "nat list" | AInside nat

inductive pool_step :: "pool_act \<Rightarrow> pool_state \<Rightarrow> pool_state \<Rightarrow> bool" where
  acquire_closed: "ps_pc s t = PIdle \<Longrightarrow> ap_closed (ps_pool s) \<Longrightarrow> pool_step (AAcquire t c) s s"
| acquire_ping: "ps_pc s t = PIdle \<Longrightarrow> \<not> ap_closed (ps_pool s) \<Longrightarrow> ap_sessionAffinity (ps_pool s)
    \<Longrightarrow> ap_leases (ps_pool s) c = Some h \<Longrightarrow> pool_step (AAcquire t c) s (goto t (PPing c h) s)"
| acquire_new: "ps_pc s t = PIdle \<Longrightarrow> \<not> ap_closed (ps_pool s)
    \<Longrightarrow> \<not> ap_sessionAffinity (ps_pool s) \<or> ap_leases (ps_pool s) c = None
    \<Longrightarrow> pool_step (AAcquire t c) s (goto t (PAcquire c) s)"
| ping_alive: "ps_pc s t = PPing c h \<Longrightarrow> ap_leases (ps_pool s) c = Some h
    \<Longrightarrow> pool_step (AInside t) s (happened (Returned c h) (goto t PIdle s))"
| ping_lost: "ps_pc s t = PPing c h \<Longrightarrow> ap_leases (ps_pool s) c \<noteq> Some h
    \<Longrightarrow> pool_step (AInside t) s (goto t (PAcquire c) s)"
| ping_dead: "ps_pc s t = PPing c h \<Longrightarrow> ap_leases (ps_pool s) c = Some h
    \<Longrightarrow> pool_step (AInside t) s (happened (Replaced c) (set_lease c None (goto t (PDead c h) s)))"
| ping_dead_lost: "ps_pc s t = PPing c h \<Longrightarrow> ap_leases (ps_pool s) c \<noteq> Some h
    \<Longrightarrow> pool_step (AInside t) s (goto t (PDead c h) s)"
| dead_released: "ps_pc s t = PDead c h
    \<Longrightarrow> pool_step (AInside t) s (handle_Release h (goto t (PAcquire c) s))"
| source_fails: "ps_pc s t = PAcquire c \<Longrightarrow> pool_step (AInside t) s (goto t PIdle s)"
| source_gives: "ps_pc s t = PAcquire c \<Longrightarrow> ap_sessionAffinity (ps_pool s) \<Longrightarrow> ps_fresh s = h
    \<Longrightarrow> pool_step (AInside t) s (goto t (PStore c h) (s\<lparr>ps_fresh := h + 1\<rparr>))"
| source_gives_plain: "ps_pc s t = PAcquire c \<Longrightarrow> \<not> ap_sessionAffinity (ps_pool s) \<Longrightarrow> ps_fresh s = h
    \<Longrightarrow> pool_step (AInside t) s (happened (Returned c h) (goto t PIdle (s\<lparr>ps_fresh := h + 1\<rparr>)))"
| store_closed: "ps_pc s t = PStore c h \<Longrightarrow> ap_closed (ps_pool s) \<Longrightarrow> pool_step (AInside t) s (goto t (PExtra h) s)"
| store_raced: "ps_pc s t = PStore c h \<Longrightarrow> \<not> ap_closed (ps_pool s) \<Longrightarrow> ap_leases (ps_pool s) c = Some h'
    \<Longrightarrow> pool_step (AInside t) s (happened (Returned c h') (goto t (PExtra h) s))"
| store_lease: "ps_pc s t = PStore c h \<Longrightarrow> \<not> ap_closed (ps_pool s) \<Longrightarrow> ap_leases (ps_pool s) c = None
    \<Longrightarrow> pool_step (AInside t) s (happened (Returned c h) (set_lease c (Some h) (goto t PIdle s)))"
| extra_released: "ps_pc s t = PExtra h \<Longrightarrow> pool_step (AInside t) s (handle_Release h (goto t PIdle s))"
| release_none: "ps_pc s t = PIdle \<Longrightarrow> ap_leases (ps_pool s) c = None \<Longrightarrow> pool_step (ARelease t c) s s"
| release_lease: "ps_pc s t = PIdle \<Longrightarrow> ap_leases (ps_pool s) c = Some h
    \<Longrightarrow> pool_step (ARelease t c) s (happened (Freed c) (set_lease c None (goto t (PRelease h) s)))"
| released: "ps_pc s t = PRelease h \<Longrightarrow> pool_step (AInside t) s (handle_Release h (goto t PIdle s))"
| close_again: "ap_closed (ps_pool s) \<Longrightarrow> pool_step (AClose hs) s s"
| close_all: "\<not> ap_closed (ps_pool s) \<Longrightarrow> distinct hs \<Longrightarrow> set hs = ran (ap_leases (ps_pool s))
    \<Longrightarrow> pool_step (AClose hs) s (happened AllFreed (s\<lparr>ps_pool := (ps_pool s)\<lparr>ap_closed := True, ap_leases := \<lambda>_. None\<rparr>,
      ps_released := ps_released s @ hs\<rparr>))"

text \<open>
  How the replayer uses the pool: a connection's calls come from one goroutine, the worker of its
  lane, and the pool is closed when no worker is inside it.
\<close>

fun disciplined :: "(ConnID \<Rightarrow> nat) \<Rightarrow> pool_act \<Rightarrow> pool_state \<Rightarrow> bool" where
  "disciplined owner (AAcquire t c) s = (owner c = t)"
| "disciplined owner (ARelease t c) s = (owner c = t)"
| "disciplined owner (AClose hs) s = (\<forall>t. ps_pc s t = PIdle)"
| "disciplined owner (AInside t) s = True"

inductive pool_run :: "(ConnID \<Rightarrow> nat) \<Rightarrow> bool \<Rightarrow> pool_state \<Rightarrow> bool" for owner affinity where
  pool_start: "pool_run owner affinity (pool_init affinity)"
| pool_next: "pool_run owner affinity s \<Longrightarrow> disciplined owner act s \<Longrightarrow> pool_step act s s'
    \<Longrightarrow> pool_run owner affinity s'"

lemma pool_run_step:
  "pool_run owner affinity s \<Longrightarrow> pool_step act s s' \<Longrightarrow> disciplined owner act s \<Longrightarrow> pool_run owner affinity s'"
  by (rule pool_next)

section \<open>Every handle has one holder\<close>

lemma pool_fields [simp]:
  "ps_pool (goto t pc s) = ps_pool s" "ps_pc (goto t pc s) = (ps_pc s)(t := pc)" "ps_fresh (goto t pc s) = ps_fresh s"
  "ps_released (goto t pc s) = ps_released s" "ps_hist (goto t pc s) = ps_hist s"
  "ps_pc (set_lease c h s) = ps_pc s" "ps_fresh (set_lease c h s) = ps_fresh s"
  "ps_released (set_lease c h s) = ps_released s" "ps_hist (set_lease c h s) = ps_hist s"
  "ap_leases (ps_pool (set_lease c h s)) = (ap_leases (ps_pool s))(c := h)"
  "ap_closed (ps_pool (set_lease c h s)) = ap_closed (ps_pool s)"
  "ap_sessionAffinity (ps_pool (set_lease c h s)) = ap_sessionAffinity (ps_pool s)"
  "ps_pool (handle_Release k s) = ps_pool s" "ps_pc (handle_Release k s) = ps_pc s" "ps_fresh (handle_Release k s) = ps_fresh s"
  "ps_released (handle_Release k s) = ps_released s @ [k]" "ps_hist (handle_Release k s) = ps_hist s"
  "ps_pool (happened e s) = ps_pool s" "ps_pc (happened e s) = ps_pc s" "ps_fresh (happened e s) = ps_fresh s"
  "ps_released (happened e s) = ps_released s" "ps_hist (happened e s) = ps_hist s @ [e]"
  by (simp_all add: goto_def set_lease_def handle_Release_def happened_def)

text \<open>The handle a goroutine has taken off the leases, or not yet put there.\<close>

fun carried :: "pool_pc \<Rightarrow> nat option" where
  "carried (PDead c h) = Some h"
| "carried (PStore c h) = Some h"
| "carried (PExtra h) = Some h"
| "carried (PRelease h) = Some h"
| "carried _ = None"

fun working_on :: "pool_pc \<Rightarrow> ConnID option" where
  "working_on (PPing c h) = Some c"
| "working_on (PDead c h) = Some c"
| "working_on (PAcquire c) = Some c"
| "working_on (PStore c h) = Some c"
| "working_on _ = None"

definition owned :: "(ConnID \<Rightarrow> nat) \<Rightarrow> bool \<Rightarrow> pool_state \<Rightarrow> bool" where
  "owned owner affinity s \<longleftrightarrow> ap_sessionAffinity (ps_pool s) = affinity
     \<and> (\<forall>c. \<not> affinity \<or> ap_closed (ps_pool s) \<longrightarrow> ap_leases (ps_pool s) c = None)
     \<and> (ap_closed (ps_pool s) \<longrightarrow> (\<forall>t. ps_pc s t = PIdle))
     \<and> (\<forall>t c h. ps_pc s t = PStore c h \<longrightarrow> affinity)
     \<and> (\<forall>t c. working_on (ps_pc s t) = Some c \<longrightarrow> owner c = t)
     \<and> (\<forall>t c. working_on (ps_pc s t) = Some c
          \<longrightarrow> ap_leases (ps_pool s) c = (case ps_pc s t of PPing _ h \<Rightarrow> Some h | _ \<Rightarrow> None))"

lemma ownedD:
  assumes "owned owner affinity s"
  shows "ap_sessionAffinity (ps_pool s) = affinity" "\<not> affinity \<or> ap_closed (ps_pool s) \<Longrightarrow> ap_leases (ps_pool s) c = None"
    "ap_closed (ps_pool s) \<Longrightarrow> ps_pc s t = PIdle" "working_on (ps_pc s t) = Some c \<Longrightarrow> owner c = t"
    "ps_pc s t = PPing c h \<Longrightarrow> ap_leases (ps_pool s) c = Some h" "ps_pc s t = PDead c h \<Longrightarrow> ap_leases (ps_pool s) c = None"
    "ps_pc s t = PAcquire c \<Longrightarrow> ap_leases (ps_pool s) c = None" "ps_pc s t = PStore c h \<Longrightarrow> ap_leases (ps_pool s) c = None"
proof -
  show "ap_sessionAffinity (ps_pool s) = affinity" "\<not> affinity \<or> ap_closed (ps_pool s) \<Longrightarrow> ap_leases (ps_pool s) c = None"
    "ap_closed (ps_pool s) \<Longrightarrow> ps_pc s t = PIdle" "working_on (ps_pc s t) = Some c \<Longrightarrow> owner c = t"
    using assms unfolding owned_def by blast+
  have lease: "working_on (ps_pc s t) = Some c
      \<Longrightarrow> ap_leases (ps_pool s) c = (case ps_pc s t of PPing _ h \<Rightarrow> Some h | _ \<Rightarrow> None)"
    using assms unfolding owned_def by blast
  show "ps_pc s t = PPing c h \<Longrightarrow> ap_leases (ps_pool s) c = Some h" "ps_pc s t = PDead c h \<Longrightarrow> ap_leases (ps_pool s) c = None"
    "ps_pc s t = PAcquire c \<Longrightarrow> ap_leases (ps_pool s) c = None" "ps_pc s t = PStore c h \<Longrightarrow> ap_leases (ps_pool s) c = None"
    using lease by simp_all
qed

text \<open>A step of goroutine \<open>t\<close> on the lease of its own connection leaves the others' alone.\<close>

lemma owned_step:
  assumes "owned owner affinity s" and "ps_pc s' = (ps_pc s)(t := pc)" and "ap_sessionAffinity (ps_pool s') = affinity"
    and "ap_closed (ps_pool s') = ap_closed (ps_pool s)" and "\<not> ap_closed (ps_pool s) \<or> pc = PIdle"
    and "\<And>c'. ap_leases (ps_pool s') c' \<noteq> ap_leases (ps_pool s) c' \<Longrightarrow> owner c' = t \<and> affinity \<and> \<not> ap_closed (ps_pool s)"
    and "\<And>c' h. pc = PStore c' h \<Longrightarrow> affinity"
    and "\<And>c'. working_on pc = Some c' \<Longrightarrow> owner c' = t \<and> ap_leases (ps_pool s') c' = (case pc of PPing _ h \<Rightarrow> Some h | _ \<Rightarrow> None)"
  shows "owned owner affinity s'"
proof -
  have same: "ap_leases (ps_pool s') c' = ap_leases (ps_pool s) c'" if "owner c' \<noteq> t \<or> \<not> affinity \<or> ap_closed (ps_pool s)" for c'
    using assms(6) that by blast
  show ?thesis
    unfolding owned_def
  proof (intro conjI allI impI)
    fix t' c' assume w: "working_on (ps_pc s' t') = Some c'"
    show "owner c' = t'"
      using w assms(2,8) ownedD(4) [OF assms(1), of t' c'] by (cases "t' = t") auto
    show "ap_leases (ps_pool s') c' = (case ps_pc s' t' of PPing _ h \<Rightarrow> Some h | _ \<Rightarrow> None)"
    proof (cases "t' = t")
      case True
      then show ?thesis using w assms(2) assms(8) [of c'] by simp
    next
      case False
      then have "working_on (ps_pc s t') = Some c'" and pc: "ps_pc s' t' = ps_pc s t'" using w assms(2) by auto
      then have "owner c' = t'" "ap_leases (ps_pool s) c' = (case ps_pc s t' of PPing _ h \<Rightarrow> Some h | _ \<Rightarrow> None)"
        using assms(1) unfolding owned_def by blast+
      then show ?thesis using same [of c'] False pc by simp
    qed
  next
    fix t' c' h assume "ps_pc s' t' = PStore c' h"
    then show affinity using assms(1,2,7) by (cases "t' = t") (auto simp: owned_def)
  qed (use assms(2-5) same ownedD(2,3) [OF assms(1)] in auto)
qed

lemma run_owned: "pool_run owner affinity s \<Longrightarrow> owned owner affinity s"
proof (induction rule: pool_run.induct)
  case pool_start
  then show ?case by (simp add: owned_def pool_init_def newAffinityPool_def)
next
  case (pool_next s act s')
  note o = ownedD [OF pool_next.IH]
  note rule = owned_step [OF pool_next.IH]
  have aff: "affinity" if "ps_pc s t = PStore c h" for t c h using pool_next.IH that unfolding owned_def by blast
  have own: "owner c = t" if "working_on (ps_pc s t) = Some c" for c t using o(4) that .
  from pool_next.hyps(3,2) show ?case
  proof cases
    case (acquire_ping t c h) then show ?thesis using pool_next.hyps(2) o(1) by (intro rule [of _ t "PPing c h"]) auto
  next
    case (acquire_new t c) then show ?thesis using pool_next.hyps(2) o(1,2) by (intro rule [of _ t "PAcquire c"]) auto
  next
    case (ping_alive t c h) then show ?thesis using o(1,3) by (intro rule [of _ t PIdle]) auto
  next
    case (ping_lost t c h) then show ?thesis using o(5) [of t c h] by simp
  next
    case (ping_dead t c h) then show ?thesis using o(1,2) o(3) [of t] own [of t c]
      by (intro rule [of _ t "PDead c h"]) (auto split: if_splits)
  next
    case (ping_dead_lost t c h) then show ?thesis using o(5) [of t c h] by simp
  next
    case (dead_released t c h) then show ?thesis using o(1) o(3) [of t] own [of t c] o(6) [of t c h]
      by (intro rule [of _ t "PAcquire c"]) auto
  next
    case (source_fails t c) then show ?thesis using o(1) by (intro rule [of _ t PIdle]) auto
  next
    case (source_gives t c h) then show ?thesis using o(1) o(3) [of t] own [of t c] o(7) [of t c]
      by (intro rule [of _ t "PStore c h"]) auto
  next
    case (source_gives_plain t c h) then show ?thesis using o(1) by (intro rule [of _ t PIdle]) auto
  next
    case (store_closed t c h) then show ?thesis using o(3) [of t] by simp
  next
    case (store_raced t c h h') then show ?thesis using o(8) [of t c h] by simp
  next
    case (store_lease t c h) then show ?thesis using o(1) own [of t c] aff [of t c h] by (intro rule [of _ t PIdle]) (auto split: if_splits)
  next
    case (extra_released t h) then show ?thesis using o(1) by (intro rule [of _ t PIdle]) auto
  next
    case (release_lease t c h) then show ?thesis using pool_next.hyps(2) o(1,2) o(3) [of t]
      by (intro rule [of _ t "PRelease h"]) (auto split: if_splits)
  next
    case (released t h) then show ?thesis using o(1) by (intro rule [of _ t PIdle]) auto
  next
    case (close_all hs)
    then show ?thesis using pool_next.hyps(2) o(1) by (simp add: owned_def)
  qed (use pool_next.IH in simp_all)
qed

text \<open>
  No handle is at two places: leases \<open>L\<close>, goroutines \<open>C\<close>, released \<open>R\<close>; and below the bound \<open>n\<close> every handle is at
  one of them or in \<open>X\<close>.
\<close>

definition single :: "('c \<Rightarrow> nat option) \<Rightarrow> ('t \<Rightarrow> nat option) \<Rightarrow> nat list \<Rightarrow> nat \<Rightarrow> bool" where
  "single L C R n \<longleftrightarrow> distinct R \<and> (\<forall>h \<in> set R. h < n)
     \<and> (\<forall>c h. L c = Some h \<longrightarrow> h < n \<and> h \<notin> set R) \<and> (\<forall>t h. C t = Some h \<longrightarrow> h < n \<and> h \<notin> set R)
     \<and> (\<forall>c c' h. L c = Some h \<and> L c' = Some h \<longrightarrow> c = c') \<and> (\<forall>t t' h. C t = Some h \<and> C t' = Some h \<longrightarrow> t = t')
     \<and> (\<forall>c t h. L c = Some h \<longrightarrow> C t \<noteq> Some h)"

definition accounted :: "('c \<Rightarrow> nat option) \<Rightarrow> ('t \<Rightarrow> nat option) \<Rightarrow> nat list \<Rightarrow> nat set \<Rightarrow> nat \<Rightarrow> bool" where
  "accounted L C R X n \<longleftrightarrow> {..<n} \<subseteq> ran L \<union> ran C \<union> set R \<union> X"

lemma singleD:
  assumes "single L C R n"
  shows "distinct R" "h \<in> set R \<Longrightarrow> h < n" "L c = Some h \<Longrightarrow> h < n" "L c = Some h \<Longrightarrow> h \<notin> set R"
    "C t = Some h \<Longrightarrow> h < n" "C t = Some h \<Longrightarrow> h \<notin> set R" "L c = Some h \<Longrightarrow> L c' = Some h \<Longrightarrow> c = c'"
    "C t = Some h \<Longrightarrow> C t' = Some h \<Longrightarrow> t = t'" "L c = Some h \<Longrightarrow> C t \<noteq> Some h"
  using assms unfolding single_def by blast+

lemma singleI:
  assumes "distinct R" "\<And>h. h \<in> set R \<Longrightarrow> h < n" "\<And>c h. L c = Some h \<Longrightarrow> h < n \<and> h \<notin> set R"
    "\<And>t h. C t = Some h \<Longrightarrow> h < n \<and> h \<notin> set R" "\<And>c c' h. L c = Some h \<Longrightarrow> L c' = Some h \<Longrightarrow> c = c'"
    "\<And>t t' h. C t = Some h \<Longrightarrow> C t' = Some h \<Longrightarrow> t = t'" "\<And>c t h. L c = Some h \<Longrightarrow> C t = Some h \<Longrightarrow> False"
  shows "single L C R n"
  using assms unfolding single_def by blast

lemma ran_drop: "ran m \<subseteq> insert h (ran (m(a := None)))" if "m a = Some h"
proof
  fix x assume "x \<in> ran m"
  then obtain b where b: "m b = Some x" by (auto simp: ran_def)
  show "x \<in> insert h (ran (m(a := None)))"
    using b that by (cases "b = a") (auto simp: ran_def intro!: exI [of _ b])
qed

lemma take_lease:
  assumes "L c = Some h" "C t = None"
  shows "single L C R n \<Longrightarrow> single (L(c := None)) (C(t := Some h)) R n"
    and "accounted L C R X n \<Longrightarrow> accounted (L(c := None)) (C(t := Some h)) R X n"
proof -
  show "single (L(c := None)) (C(t := Some h)) R n" if s: "single L C R n"
    by (rule singleI) (use assms singleD [OF s] in \<open>fastforce split: if_splits\<close>)+
  have "ran L \<subseteq> insert h (ran (L(c := None)))" "ran (C(t := Some h)) = insert h (ran C)"
    using assms by (simp_all add: ran_drop)
  then show "accounted L C R X n \<Longrightarrow> accounted (L(c := None)) (C(t := Some h)) R X n"
    unfolding accounted_def by blast
qed

lemma put_lease:
  assumes "C t = Some h" "L c = None"
  shows "single L C R n \<Longrightarrow> single (L(c := Some h)) (C(t := None)) R n"
    and "accounted L C R X n \<Longrightarrow> accounted (L(c := Some h)) (C(t := None)) R X n"
proof -
  show "single (L(c := Some h)) (C(t := None)) R n" if s: "single L C R n"
    by (rule singleI) (use assms singleD [OF s] in \<open>fastforce split: if_splits\<close>)+
  have "ran C \<subseteq> insert h (ran (C(t := None)))" "ran (L(c := Some h)) = insert h (ran L)"
    using assms by (simp_all add: ran_drop)
  then show "accounted L C R X n \<Longrightarrow> accounted (L(c := Some h)) (C(t := None)) R X n"
    unfolding accounted_def by blast
qed

lemma let_go:
  assumes "C t = Some h"
  shows "single L C R n \<Longrightarrow> single L (C(t := None)) (R @ [h]) n"
    and "accounted L C R X n \<Longrightarrow> accounted L (C(t := None)) (R @ [h]) X n"
proof -
  show "single L (C(t := None)) (R @ [h]) n" if s: "single L C R n"
    by (rule singleI) (use assms singleD [OF s] in \<open>fastforce split: if_splits\<close>)+
  have "ran C \<subseteq> insert h (ran (C(t := None)))" using assms by (rule ran_drop)
  then show "accounted L C R X n \<Longrightarrow> accounted L (C(t := None)) (R @ [h]) X n"
    unfolding accounted_def by auto
qed

lemma take_fresh:
  assumes "C t = None"
  shows "single L C R n \<Longrightarrow> single L (C(t := Some n)) R (n + 1)"
    and "accounted L C R X n \<Longrightarrow> accounted L (C(t := Some n)) R X (n + 1)"
proof -
  show "single L (C(t := Some n)) R (n + 1)" if s: "single L C R n"
    by (rule singleI) (use assms singleD [OF s] in \<open>fastforce split: if_splits\<close>)+
  have "ran (C(t := Some n)) = insert n (ran C)" using assms by simp
  then show "accounted L C R X n \<Longrightarrow> accounted L (C(t := Some n)) R X (n + 1)"
    unfolding accounted_def by (auto simp: less_Suc_eq)
qed

lemma give_fresh:
  "single L C R n \<Longrightarrow> single L C R (n + 1)" "accounted L C R X n \<Longrightarrow> accounted L C R (insert n X) (n + 1)"
  unfolding single_def accounted_def by (auto simp: less_Suc_eq)

lemma let_go_all:
  assumes "\<And>t. C t = None" "distinct hs" "set hs = ran L"
  shows "single L C R n \<Longrightarrow> single (\<lambda>_. None) C (R @ hs) n" and "accounted L C R X n \<Longrightarrow> accounted (\<lambda>_. None) C (R @ hs) X n"
proof -
  have r: "h \<in> ran L \<longleftrightarrow> (\<exists>c. L c = Some h)" for h by (auto simp: ran_def)
  show "single L C R n \<Longrightarrow> single (\<lambda>_. None) C (R @ hs) n"
    using assms unfolding single_def by (auto simp: r)
  show "accounted L C R X n \<Longrightarrow> accounted (\<lambda>_. None) C (R @ hs) X n"
    using assms unfolding accounted_def by auto
qed

definition handed_out :: "bool \<Rightarrow> pool_state \<Rightarrow> nat set" where
  "handed_out affinity s = (if affinity then {} else {h. \<exists>c. Returned c h \<in> set (ps_hist s)})"

definition partitioned :: "bool \<Rightarrow> pool_state \<Rightarrow> bool" where
  "partitioned affinity s \<longleftrightarrow> single (ap_leases (ps_pool s)) (carried \<circ> ps_pc s) (ps_released s) (ps_fresh s)
     \<and> accounted (ap_leases (ps_pool s)) (carried \<circ> ps_pc s) (ps_released s) (handed_out affinity s) (ps_fresh s)"

lemma carried_upd: "carried \<circ> (f(t := pc)) = (carried \<circ> f)(t := carried pc)"
  by auto

lemma accounted_mono: "accounted L C R X n \<Longrightarrow> X \<subseteq> Y \<Longrightarrow> accounted L C R Y n"
  unfolding accounted_def by blast

lemma partitionedI:
  assumes "single L C R n" "accounted L C R (handed_out affinity s) n" "set (ps_hist s) \<subseteq> set (ps_hist s')"
    "ap_leases (ps_pool s') = L" "carried \<circ> ps_pc s' = C" "ps_released s' = R" "ps_fresh s' = n"
  shows "partitioned affinity s'"
proof -
  have "handed_out affinity s \<subseteq> handed_out affinity s'" using assms(3) by (auto simp: handed_out_def)
  then show ?thesis using assms accounted_mono unfolding partitioned_def by blast
qed

lemma run_partitioned: "pool_run owner affinity s \<Longrightarrow> partitioned affinity s"
proof (induction rule: pool_run.induct)
  case pool_start
  then show ?case
    by (simp add: partitioned_def pool_init_def newAffinityPool_def single_def accounted_def)
next
  case (pool_next s act s')
  note o = ownedD [OF run_owned [OF pool_next.hyps(1)]]
  let ?L = "ap_leases (ps_pool s)" and ?C = "carried \<circ> ps_pc s"
  note p = pool_next.IH [unfolded partitioned_def, THEN conjunct1] pool_next.IH [unfolded partitioned_def, THEN conjunct2]
  have lease: "?C t = None \<Longrightarrow> ?L c = Some h \<Longrightarrow> single (?L(c := None)) (?C(t := Some h)) (ps_released s) (ps_fresh s)
      \<and> accounted (?L(c := None)) (?C(t := Some h)) (ps_released s) (handed_out affinity s) (ps_fresh s)" for t c h
    using take_lease [of ?L c h ?C t] p by blast
  have go: "?C t = Some h \<Longrightarrow> single ?L (?C(t := None)) (ps_released s @ [h]) (ps_fresh s)
      \<and> accounted ?L (?C(t := None)) (ps_released s @ [h]) (handed_out affinity s) (ps_fresh s)" for t h
    using let_go [of ?C t h] p by blast
  have idle: "?C(t := None) = ?C" if "carried (ps_pc s t) = None" for t using that by auto
  note rule = partitionedI [where s = s]
  from pool_next.hyps(3) show ?case
  proof cases
    case (ping_dead t c h)
    with lease [of t c h] show ?thesis by (intro rule) (auto simp: carried_upd)
  next
    case (release_lease t c h)
    with lease [of t c h] show ?thesis by (intro rule) (auto simp: carried_upd)
  next
    case (dead_released t c h)
    with go [of t h] show ?thesis by (intro rule) (auto simp: carried_upd)
  next
    case (extra_released t h)
    with go [of t h] show ?thesis by (intro rule) (auto simp: carried_upd)
  next
    case (released t h)
    with go [of t h] show ?thesis by (intro rule) (auto simp: carried_upd)
  next
    case (source_gives t c h)
    with take_fresh [of ?C t] p show ?thesis by (intro rule) (auto simp: carried_upd)
  next
    case (source_gives_plain t c h)
    have "insert h (handed_out affinity s) \<subseteq> handed_out affinity s'"
      using source_gives_plain o(1) by (auto simp: handed_out_def)
    then have "accounted ?L ?C (ps_released s) (handed_out affinity s') (h + 1)"
      using give_fresh(2) [OF p(2)] source_gives_plain accounted_mono by metis
    moreover have "single ?L ?C (ps_released s) (h + 1)" using give_fresh(1) [OF p(1)] source_gives_plain by simp
    ultimately show ?thesis using source_gives_plain idle [of t] by (simp add: partitioned_def carried_upd)
  next
    case (store_lease t c h)
    with put_lease [of ?C t h ?L c] p show ?thesis by (intro rule) (auto simp: carried_upd)
  next
    case (close_all hs)
    with let_go_all [of ?C hs ?L] p pool_next.hyps(2) show ?thesis by (intro rule) auto
  next
    case (ping_lost t c h) then show ?thesis using o(5) [of t c h] by simp
  next
    case (ping_dead_lost t c h) then show ?thesis using o(5) [of t c h] by simp
  next
    case (store_closed t c h) with p show ?thesis by (intro rule [OF p]) (auto simp: carried_upd)
  next
    case (store_raced t c h h') with p show ?thesis by (intro rule [OF p]) (auto simp: carried_upd)
  next
    case (acquire_ping t c h) then show ?thesis using idle [of t] by (intro rule [OF p]) (auto simp: carried_upd)
  next
    case (acquire_new t c) then show ?thesis using idle [of t] by (intro rule [OF p]) (auto simp: carried_upd)
  next
    case (ping_alive t c h) then show ?thesis using idle [of t] by (intro rule [OF p]) (auto simp: carried_upd)
  next
    case (source_fails t c) then show ?thesis using idle [of t] by (intro rule [OF p]) (auto simp: carried_upd)
  qed (use pool_next.IH in simp_all)
qed

section \<open>The lease of a connection\<close>

text \<open>The lease a history leaves a connection with.\<close>

fun lease_after :: "ConnID \<Rightarrow> pool_event \<Rightarrow> nat option \<Rightarrow> nat option" where
  "lease_after c (Returned c' h) l = (if c' = c then Some h else l)"
| "lease_after c (Replaced c') l = (if c' = c then None else l)"
| "lease_after c (Freed c') l = (if c' = c then None else l)"
| "lease_after c AllFreed l = None"

definition lease_of :: "ConnID \<Rightarrow> pool_event list \<Rightarrow> nat option" where
  "lease_of c hist = fold (lease_after c) hist None"

lemma lease_of_snoc [simp]: "lease_of c (hist @ [e]) = lease_after c e (lease_of c hist)"
  by (simp add: lease_of_def)

inductive steady :: "pool_event list \<Rightarrow> bool" where
  steady_nil: "steady []"
| steady_snoc: "steady hist \<Longrightarrow> (\<And>c h. e = Returned c h \<Longrightarrow> lease_of c hist \<in> {None, Some h}) \<Longrightarrow> steady (hist @ [e])"

inductive_cases steady_snocE: "steady (hist @ [e])"

lemma steady_prefix: "steady (a @ b) \<Longrightarrow> steady a"
proof (induction b rule: rev_induct)
  case (snoc e b)
  then have "steady ((a @ b) @ [e])" by simp
  then have "steady (a @ b)" by cases simp_all
  then show ?case by (rule snoc.IH)
qed simp

lemma steady_last: "steady (hist @ [Returned c h]) \<Longrightarrow> lease_of c hist = Some k \<Longrightarrow> h = k"
  by (auto elim!: steady_snocE)

lemma lease_kept:
  assumes "steady (l @ b)" and "lease_of c l = Some h" and "\<forall>e \<in> set b. e \<notin> {Replaced c, Freed c, AllFreed}"
  shows "lease_of c (l @ b) = Some h"
  using assms(1,3)
proof (induction b rule: rev_induct)
  case (snoc e b)
  have st: "steady ((l @ b) @ [e])" using snoc.prems(1) by simp
  have IH: "lease_of c (l @ b) = Some h" using snoc.IH steady_prefix [OF st] snoc.prems(2) by simp
  then have "lease_after c e (Some h) = Some h"
    using steady_last [of "l @ b" c _ h] st snoc.prems(2) by (cases e) auto
  then show ?case using lease_of_snoc [of c "l @ b" e] IH by simp
qed (use assms(2) in simp)

lemma run_history:
  "pool_run owner True s \<Longrightarrow> steady (ps_hist s) \<and> (\<forall>c. lease_of c (ps_hist s) = ap_leases (ps_pool s) c)"
proof (induction rule: pool_run.induct)
  case pool_start
  then show ?case by (simp add: pool_init_def newAffinityPool_def lease_of_def steady_nil)
next
  case (pool_next s act s')
  note o = ownedD [OF run_owned [OF pool_next.hyps(1)]]
  have snoc: "steady (ps_hist s @ [e])" if "\<And>c h. e = Returned c h \<Longrightarrow> ap_leases (ps_pool s) c \<in> {None, Some h}" for e
    using pool_next.IH that by (intro steady_snoc) auto
  from pool_next.hyps(3) show ?case
  proof cases
    case (ping_alive t c h)
    then show ?thesis using pool_next.IH snoc [of "Returned c h"] by auto
  next
    case (ping_dead t c h)
    then show ?thesis using pool_next.IH snoc [of "Replaced c"] by auto
  next
    case (source_gives_plain t c h)
    then show ?thesis using o(1) by simp
  next
    case (store_raced t c h h')
    then show ?thesis using pool_next.IH snoc [of "Returned c h'"] by auto
  next
    case (store_lease t c h)
    then show ?thesis using pool_next.IH snoc [of "Returned c h"] by auto
  next
    case (release_lease t c h)
    then show ?thesis using pool_next.IH snoc [of "Freed c"] by auto
  next
    case (close_all hs)
    then show ?thesis using pool_next.IH snoc [of AllFreed] by auto
  qed (use pool_next.IH in auto)
qed

section \<open>Properties\<close>

text \<open>
  C14: used as the replayer uses it, by one goroutine per connection and closed when none is inside,
  the pool neither leaks nor shares a target connection, whatever the pings and acquisitions do: no
  handle is returned to the source twice, a leased one has not been returned and is leased to one
  connection only, and every handle ever acquired is returned, leased or in the hands of a
  goroutine, or without affinity was handed to its caller.
\<close>

theorem pool_handles:
  assumes "pool_run owner affinity s"
  shows "distinct (ps_released s) \<and> inj_on (ap_leases (ps_pool s)) (dom (ap_leases (ps_pool s)))
    \<and> ran (ap_leases (ps_pool s)) \<inter> set (ps_released s) = {}
    \<and> (\<forall>h < ps_fresh s. h \<in> set (ps_released s) \<or> h \<in> ran (ap_leases (ps_pool s)) \<or> (\<exists>t. carried (ps_pc s t) = Some h)
        \<or> \<not> affinity \<and> (\<exists>c. Returned c h \<in> set (ps_hist s)))"
proof -
  note p = run_partitioned [OF assms, unfolded partitioned_def]
  note s = singleD [OF p [THEN conjunct1]]
  have "inj_on (ap_leases (ps_pool s)) (dom (ap_leases (ps_pool s)))" using s(7) by (auto intro!: inj_onI)
  moreover have "ran (ap_leases (ps_pool s)) \<inter> set (ps_released s) = {}" using s(4) by (auto simp: ran_def)
  moreover have "\<forall>h < ps_fresh s. h \<in> set (ps_released s) \<or> h \<in> ran (ap_leases (ps_pool s)) \<or> (\<exists>t. carried (ps_pc s t) = Some h)
      \<or> \<not> affinity \<and> (\<exists>c. Returned c h \<in> set (ps_hist s))"
    using p [THEN conjunct2] by (auto simp: accounted_def handed_out_def subset_iff ran_def [of "_ \<circ> _"] split: if_splits)
  ultimately show ?thesis using s(1) by blast
qed

definition demo_conn :: ConnID where
  "demo_conn = \<lparr>SrcIP = [10, 0, 0, 1], SrcPort = 40000, DstIP = [10, 0, 0, 2], DstPort = 5432\<rparr>"

text \<open>A lease acquired and found dead.\<close>

lemma demo_pool:
  "\<exists>s. pool_run (\<lambda>_. 0) True s \<and> ps_hist s = [Returned demo_conn 0, Returned demo_conn 0] \<and> ps_fresh s = 1"
proof -
  let ?o = "\<lambda>_ :: ConnID. 0 :: nat" and ?c = demo_conn and ?s0 = "pool_init True"
  let ?s1 = "goto 0 (PAcquire ?c) ?s0"
  let ?s2 = "goto 0 (PStore ?c 0) (?s1\<lparr>ps_fresh := 0 + 1\<rparr>)"
  let ?s3 = "happened (Returned ?c 0) (set_lease ?c (Some 0) (goto 0 PIdle ?s2))"
  let ?s4 = "goto 0 (PPing ?c 0) ?s3"
  let ?s5 = "happened (Returned ?c 0) (goto 0 PIdle ?s4)"
  have i: "ps_pool ?s0 = newAffinityPool True" "ps_pc ?s0 = (\<lambda>_. PIdle)" "ps_fresh ?s0 = 0" "ps_hist ?s0 = []"
    by (simp_all add: pool_init_def)
  note d = newAffinityPool_def goto_def set_lease_def happened_def
  have "pool_run ?o True ?s0" by (rule pool_start)
  moreover have "pool_step (AAcquire 0 ?c) ?s0 ?s1" by (rule acquire_new) (simp_all add: i d)
  ultimately have "pool_run ?o True ?s1" by (rule pool_run_step) simp
  moreover have "pool_step (AInside 0) ?s1 ?s2" by (rule source_gives) (simp_all add: i d)
  ultimately have "pool_run ?o True ?s2" by (rule pool_run_step) simp
  moreover have "pool_step (AInside 0) ?s2 ?s3" by (rule store_lease) (simp_all add: i d)
  ultimately have "pool_run ?o True ?s3" by (rule pool_run_step) simp
  moreover have "pool_step (AAcquire 0 ?c) ?s3 ?s4" by (rule acquire_ping) (simp_all add: i d)
  ultimately have "pool_run ?o True ?s4" by (rule pool_run_step) simp
  moreover have "pool_step (AInside 0) ?s4 ?s5" by (rule ping_alive) (simp_all add: i d)
  ultimately have "pool_run ?o True ?s5" by (rule pool_run_step) simp
  then show ?thesis by (intro exI [of _ ?s5]) (simp add: i)
qed

lemma pool_handles_witness:
  "\<exists>s :: pool_state. ps_fresh s = 1 \<and> distinct (ps_released s)
    \<and> (0 \<in> set (ps_released s) \<or> 0 \<in> ran (ap_leases (ps_pool s)) \<or> (\<exists>t. carried (ps_pc s t) = Some 0))"
proof -
  obtain s where s: "pool_run (\<lambda>_. 0) True s" "ps_fresh s = 1" using demo_pool by blast
  from pool_handles [OF s(1)] s(2) show ?thesis by (intro exI [of _ s]) auto
qed

text \<open>
  C40: session affinity: between two acquisitions for a connection that return the same target
  connection is used, unless in between a ping found it dead, it was released, or the pool closed.
\<close>

theorem pool_affinity:
  assumes "pool_run owner True s" and "ps_hist s = a @ Returned c h # b @ Returned c h' # d"
    and "\<forall>e \<in> set b. e \<notin> {Replaced c, Freed c, AllFreed}"
  shows "h' = h"
proof -
  have st: "steady (ps_hist s)" using run_history [OF assms(1)] by blast
  have "steady ((a @ [Returned c h]) @ b)" using steady_prefix [of "(a @ [Returned c h]) @ b"] st assms(2) by simp
  then have "lease_of c (a @ Returned c h # b) = Some h" using lease_kept [of "a @ [Returned c h]" b c h] assms(3) by simp
  moreover have "steady ((a @ Returned c h # b) @ [Returned c h'])"
    using steady_prefix [of "(a @ Returned c h # b) @ [Returned c h']" d] st assms(2) by simp
  ultimately show ?thesis by (metis steady_last)
qed

lemma pool_affinity_witness:
  "\<exists>s h'. pool_run (\<lambda>_. 0) True s \<and> ps_hist s = [] @ Returned demo_conn 0 # [] @ Returned demo_conn h' # [] \<and> h' = 0"
proof -
  obtain s h' where s: "pool_run (\<lambda>_. 0) True s" "ps_hist s = [] @ Returned demo_conn 0 # [] @ Returned demo_conn h' # []"
    using demo_pool by auto
  have "h' = 0" by (rule pool_affinity [OF s]) simp
  with s show ?thesis by blast
qed

definition pool_any :: "pool_state \<Rightarrow> pool_state \<Rightarrow> bool" where
  "pool_any s s' \<longleftrightarrow> (\<exists>act. pool_step act s s')"

lemma pool_any_snoc: "pool_any\<^sup>*\<^sup>* s s' \<Longrightarrow> pool_step act s' s'' \<Longrightarrow> pool_any\<^sup>*\<^sup>* s s''"
  by (erule rtranclp.rtrancl_into_rtrancl) (auto simp: pool_any_def)

text \<open>
  Without the discipline a handle can be released twice: a dead connection is released by
  \<open>acquireFor\<close> although a concurrent release has already done so.
\<close>

lemma undisciplined_double_release:
  assumes "ps_pc s 0 = PPing c h" "ps_pc s 1 = PIdle" "ap_leases (ps_pool s) c = Some h"
  shows "\<exists>s'. pool_any\<^sup>*\<^sup>* s s' \<and> ps_released s' = ps_released s @ [h, h]"
proof -
  let ?s1 = "happened (Freed c) (set_lease c None (goto 1 (PRelease h) s))"
  let ?s2 = "handle_Release h (goto 1 PIdle ?s1)"
  let ?s3 = "goto 0 (PDead c h) ?s2"
  let ?s4 = "handle_Release h (goto 0 (PAcquire c) ?s3)"
  have "pool_any\<^sup>*\<^sup>* s s" by simp
  moreover have "pool_step (ARelease 1 c) s ?s1" by (rule release_lease) (use assms in simp_all)
  ultimately have "pool_any\<^sup>*\<^sup>* s ?s1" by (rule pool_any_snoc)
  moreover have "pool_step (AInside 1) ?s1 ?s2" by (rule released) simp
  ultimately have "pool_any\<^sup>*\<^sup>* s ?s2" by (rule pool_any_snoc)
  moreover have "pool_step (AInside 0) ?s2 ?s3" by (rule ping_dead_lost) (use assms in auto)
  ultimately have "pool_any\<^sup>*\<^sup>* s ?s3" by (rule pool_any_snoc)
  moreover have "pool_step (AInside 0) ?s3 ?s4" by (rule dead_released) simp
  ultimately have "pool_any\<^sup>*\<^sup>* s ?s4" by (rule pool_any_snoc)
  then show ?thesis by (intro exI [of _ ?s4]) simp
qed

end
