(* ===== verification/Config_Check.thy ===== *)
theory Config_Check
  imports Replay_Lanes
begin

text \<open>
  The validation of the configuration, \<^verbatim>\<open>src/pkg/config/config.go\<close>, on the values it checks, and what a
  validated configuration gives the components. Reading the file and decoding YAML are not modelled;
  the decoders of the enumerations admit only their constructors, so the checks on those are gone. The
  ports are checked in the iteration order of a Go map, an argument.
\<close>

record Config =
  cf_Interface :: string
  cf_CapturePort :: int
  cf_MaxSQLLength :: int
  cf_TimeoutIdle :: int
  cf_FilterMode :: string
  cf_Capacity :: int
  cf_TargetHost :: string
  cf_TargetPort :: int
  cf_TargetDatabase :: string
  cf_TargetUser :: string
  cf_PasswordEnv :: string
  cf_BPFFilter :: string
  cf_Workers :: int
  cf_Mode :: ConcurrencyMode
  cf_MaxConcurrency :: int
  cf_TargetDialect :: string
  cf_PoolMaxConns :: int
  cf_PoolMinConns :: int
  cf_MetricsPort :: int
  cf_TargetPassword :: string

definition defaultPasswordEnv :: string where "defaultPasswordEnv = ''PGSHADOW_DB_PASSWORD''"

definition defaults :: Config where
  "defaults = \<lparr>cf_Interface = [], cf_CapturePort = 5432, cf_MaxSQLLength = 1048576, cf_TimeoutIdle = 300,
     cf_FilterMode = ''write_only'', cf_Capacity = 500000, cf_TargetHost = [], cf_TargetPort = 5432,
     cf_TargetDatabase = [], cf_TargetUser = [], cf_PasswordEnv = defaultPasswordEnv, cf_BPFFilter = [],
     cf_Workers = 32, cf_Mode = Bounded, cf_MaxConcurrency = 256, cf_TargetDialect = ''postgresql'',
     cf_PoolMaxConns = 100, cf_PoolMinConns = 20, cf_MetricsPort = 9090, cf_TargetPassword = []\<rparr>"

datatype config_error = MissingParameter string | InvalidParameter string | PasswordUnset string

text \<open>\<^verbatim>\<open>%d\<close> of \<^verbatim>\<open>fmt.Sprintf\<close>.\<close>

definition format_int :: "int \<Rightarrow> string" where
  "format_int i = (if i < 0 then ''-'' @ FormatUint (nat (- i)) else FormatUint (nat i))"

definition applyDerivedDefaults :: "Config \<Rightarrow> Config" where
  "applyDerivedDefaults c =
     (let c = (if cf_BPFFilter c = [] then
            let port = (if cf_CapturePort c = 0 then 5432 else cf_CapturePort c)
            in c\<lparr>cf_CapturePort := port, cf_BPFFilter := ''tcp port '' @ format_int port\<rparr>
          else c)
      in if cf_PasswordEnv c = [] then c\<lparr>cf_PasswordEnv := defaultPasswordEnv\<rparr> else c)"

definition resolvePassword :: "(string \<Rightarrow> string option) \<Rightarrow> Config \<Rightarrow> config_error + Config" where
  "resolvePassword env c = (case env (cf_PasswordEnv c) of
       None \<Rightarrow> Inl (PasswordUnset (cf_PasswordEnv c))
     | Some v \<Rightarrow> Inr (c\<lparr>cf_TargetPassword := v\<rparr>))"

definition validFilterModes :: "string list" where
  "validFilterModes = [''write_only'', ''all'', ''ddl_only'', ''dml_only'', ''custom'']"

definition required :: "Config \<Rightarrow> (string \<times> string) list" where
  "required c = [(''capture.interface'', cf_Interface c), (''replayer.target_host'', cf_TargetHost c),
     (''replayer.target_database'', cf_TargetDatabase c), (''replayer.target_user'', cf_TargetUser c)]"

definition validateStructural :: "Config \<Rightarrow> config_error option" where
  "validateStructural c =
     map_option (\<lambda>(name, value). MissingParameter name) (List.find (\<lambda>(name, value). TrimSpace value = []) (required c))"

definition config_port :: "Config \<Rightarrow> string \<Rightarrow> int" where
  "config_port c name = (if name = ''capture.port'' then cf_CapturePort c
     else if name = ''replayer.target_port'' then cf_TargetPort c else cf_MetricsPort c)"

definition validateSemantic :: "string list \<Rightarrow> Config \<Rightarrow> config_error option" where
  "validateSemantic ports c =
     (if cf_TargetDialect c \<notin> {''postgresql'', ''greenplum''} then Some (InvalidParameter ''replayer.target_dialect'')
      else if cf_PoolMaxConns c < 1 then Some (InvalidParameter ''replayer.pool_max_conns'')
      else if cf_PoolMinConns c < 0 then Some (InvalidParameter ''replayer.pool_min_conns'')
      else if cf_PoolMinConns c > cf_PoolMaxConns c then Some (InvalidParameter ''replayer.pool_min_conns'')
      else if cf_Workers c < 1 then Some (InvalidParameter ''replayer.workers'')
      else if cf_Capacity c < 1 then Some (InvalidParameter ''queue.capacity'')
      else if \<not> List.member validFilterModes (cf_FilterMode c) then Some (InvalidParameter ''filter.mode'')
      else if cf_MaxSQLLength c < 1 then Some (InvalidParameter ''parser.max_sql_length'')
      else if cf_TimeoutIdle c < 0 then Some (InvalidParameter ''parser.timeout_idle'')
      else case List.find (\<lambda>name. config_port c name < 1 \<or> config_port c name > 65535) ports of
        Some name \<Rightarrow> Some (InvalidParameter name)
      | None \<Rightarrow> if cf_MaxConcurrency c < 1 then Some (InvalidParameter ''replayer.max_concurrency'') else None)"

definition Validate :: "string list \<Rightarrow> Config \<Rightarrow> config_error option" where
  "Validate ports c = (case validateStructural c of Some e \<Rightarrow> Some e | None \<Rightarrow> validateSemantic ports c)"

text \<open>\<^verbatim>\<open>Load\<close> after the decoding over the defaults.\<close>

definition Load_decoded :: "(string \<Rightarrow> string option) \<Rightarrow> string list \<Rightarrow> Config \<Rightarrow> config_error + Config" where
  "Load_decoded env ports c = (case resolvePassword env (applyDerivedDefaults c) of
       Inl e \<Rightarrow> Inl e
     | Inr c \<Rightarrow> (case Validate ports c of Some e \<Rightarrow> Inl e | None \<Rightarrow> Inr c))"

section \<open>What a valid configuration is\<close>

definition port_names :: "string list" where
  "port_names = [''capture.port'', ''replayer.target_port'', ''metrics.port'']"

definition valid :: "Config \<Rightarrow> bool" where
  "valid c \<longleftrightarrow> (\<forall>(name, value) \<in> set (required c). TrimSpace value \<noteq> [])
     \<and> cf_TargetDialect c \<in> {''postgresql'', ''greenplum''}
     \<and> 0 \<le> cf_PoolMinConns c \<and> cf_PoolMinConns c \<le> cf_PoolMaxConns c \<and> 1 \<le> cf_PoolMaxConns c
     \<and> 1 \<le> cf_Workers c \<and> 1 \<le> cf_Capacity c \<and> cf_FilterMode c \<in> set validFilterModes
     \<and> 1 \<le> cf_MaxSQLLength c \<and> 0 \<le> cf_TimeoutIdle c \<and> 1 \<le> cf_MaxConcurrency c
     \<and> (\<forall>port \<in> {cf_CapturePort c, cf_TargetPort c, cf_MetricsPort c}. 1 \<le> port \<and> port \<le> 65535)"

lemma find_none: "List.find P xs = None \<longleftrightarrow> (\<forall>x \<in> set xs. \<not> P x)"
  by (induction xs) auto

lemma checks:
  "(if b then Some x else y) = None \<longleftrightarrow> \<not> b \<and> y = None" "(case v of None \<Rightarrow> y | Some n \<Rightarrow> Some (f n)) = None \<longleftrightarrow> v = None \<and> y = None"
  by (simp_all split: option.split)

lemma semantic_none:
  assumes "set ports = set port_names"
  shows "validateSemantic ports c = None \<longleftrightarrow> cf_TargetDialect c \<in> {''postgresql'', ''greenplum''}
     \<and> 0 \<le> cf_PoolMinConns c \<and> cf_PoolMinConns c \<le> cf_PoolMaxConns c \<and> 1 \<le> cf_PoolMaxConns c
     \<and> 1 \<le> cf_Workers c \<and> 1 \<le> cf_Capacity c \<and> cf_FilterMode c \<in> set validFilterModes
     \<and> 1 \<le> cf_MaxSQLLength c \<and> 0 \<le> cf_TimeoutIdle c \<and> 1 \<le> cf_MaxConcurrency c
     \<and> (\<forall>port \<in> {cf_CapturePort c, cf_TargetPort c, cf_MetricsPort c}. 1 \<le> port \<and> port \<le> 65535)"
proof -
  let ?bad = "\<lambda>name. config_port c name < 1 \<or> config_port c name > 65535"
  have find: "List.find ?bad ports = None
      \<longleftrightarrow> (\<forall>port \<in> {cf_CapturePort c, cf_TargetPort c, cf_MetricsPort c}. 1 \<le> port \<and> port \<le> 65535)"
    unfolding find_none assms by (auto simp: port_names_def config_port_def)
  have mode: "List.member validFilterModes m \<longleftrightarrow> m \<in> set validFilterModes" for m by (simp add: List.member_iff)
  show ?thesis
    unfolding validateSemantic_def mode find [symmetric] checks not_less not_le not_not simp_thms by blast
qed

text \<open>The checks accept exactly the valid configurations, in whatever order the ports are visited.\<close>

lemma validate_iff:
  assumes "set ports = set port_names"
  shows "Validate ports c = None \<longleftrightarrow> valid c"
proof -
  have "validateStructural c = None \<longleftrightarrow> (\<forall>(name, value) \<in> set (required c). TrimSpace value \<noteq> [])"
    by (simp add: validateStructural_def find_none case_prod_beta)
  then show ?thesis
    unfolding Validate_def valid_def checks semantic_none [OF assms] by (simp only:)
qed

text \<open>
  A loaded configuration needs none of the components' own defaults: the concurrency is the
  configured one and the queue has the configured capacity.
\<close>

lemma loaded_config:
  assumes "Load_decoded env ports c = Inr c'" and "set ports = set port_names"
    and "cfg = \<lparr>Workers = cf_Workers c', Mode = cf_Mode c', MaxConcurrency = cf_MaxConcurrency c',
      PoolMaxConns = cf_PoolMaxConns c', MaxLaneDepth = d\<rparr>"
  shows "rp_concurrency (NewReplayer cfg sg) = (case cf_Mode c' of Serial \<Rightarrow> 1 | Faithful \<Rightarrow> cf_MaxConcurrency c'
      | Bounded \<Rightarrow> min (cf_Workers c') (cf_PoolMaxConns c'))"
    and "int (queue_capacity (cf_Capacity c')) = cf_Capacity c'" and "env (cf_PasswordEnv c') = Some (cf_TargetPassword c')"
proof -
  have "Validate ports c' = None" using assms(1) by (auto simp: Load_decoded_def split: sum.splits option.splits)
  then have v: "valid c'" using validate_iff [OF assms(2)] by simp
  then show "rp_concurrency (NewReplayer cfg sg) = (case cf_Mode c' of Serial \<Rightarrow> 1 | Faithful \<Rightarrow> cf_MaxConcurrency c'
      | Bounded \<Rightarrow> min (cf_Workers c') (cf_PoolMaxConns c'))"
    by (simp add: valid_def assms(3) NewReplayer_def configureMode_def Let_def split: ConcurrencyMode.split)
  show "int (queue_capacity (cf_Capacity c')) = cf_Capacity c'" using v by (simp add: valid_def queue_capacity_def)
  show "env (cf_PasswordEnv c') = Some (cf_TargetPassword c')"
    using assms(1) by (auto simp: Load_decoded_def resolvePassword_def split: sum.splits option.splits)
qed

text \<open>The documented defaults are valid once the four required names are given.\<close>

lemma defaults_valid:
  "valid (defaults\<lparr>cf_Interface := i, cf_TargetHost := h, cf_TargetDatabase := db, cf_TargetUser := u\<rparr>)
    \<longleftrightarrow> TrimSpace i \<noteq> [] \<and> TrimSpace h \<noteq> [] \<and> TrimSpace db \<noteq> [] \<and> TrimSpace u \<noteq> []"
  by (simp add: valid_def defaults_def required_def validFilterModes_def)

end
