(* ===== verification/Metrics_Window.thy ===== *)
theory Metrics_Window
  imports Main "HOL-Library.Multiset"
begin

text \<open>
  The sample window of the metrics, \<^verbatim>\<open>src/pkg/metrics/quantile.go\<close>: a ring of the most recent samples and
  the quantile read from it. Samples are ordered values; the rank the floating point expression
  gives for a quantile is an argument.
\<close>

record 'v reservoir =
  rv_buf :: "'v list"
  rv_size :: nat
  rv_next :: nat
  rv_full :: bool

definition newReservoir :: "int \<Rightarrow> 'v reservoir" where
  "newReservoir sz = \<lparr>rv_buf = [], rv_size = nat (if sz \<le> 0 then 1 else sz), rv_next = 0, rv_full = False\<rparr>"

definition add_sample :: "'v \<Rightarrow> 'v reservoir \<Rightarrow> 'v reservoir" where
  "add_sample v r =
     (if \<not> rv_full r then
        let r = r\<lparr>rv_buf := rv_buf r @ [v]\<rparr> in
        if length (rv_buf r) = rv_size r then r\<lparr>rv_full := True, rv_next := 0\<rparr> else r
      else r\<lparr>rv_buf := (rv_buf r)[rv_next r := v], rv_next := (rv_next r + 1) mod rv_size r\<rparr>)"

text \<open>
  \<open>low\<close> and \<open>high\<close> are the tests \<^verbatim>\<open>q <= 0\<close> and \<^verbatim>\<open>q >= 1\<close>, \<open>rank n\<close> the value of \<^verbatim>\<open>int(q*float64(n-1) + 0.5)\<close>.
\<close>

definition quantile :: "bool \<Rightarrow> bool \<Rightarrow> (nat \<Rightarrow> int) \<Rightarrow> ('v :: {linorder, zero}) reservoir \<Rightarrow> 'v" where
  "quantile low high rank r =
     (let n = length (rv_buf r) in
      if n = 0 then 0
      else let cp = sort (rv_buf r) in
        if low then cp ! 0
        else if high then cp ! (n - 1)
        else let idx = rank n;
                 idx = (if idx < 0 then 0 else idx);
                 idx = (if idx \<ge> int n then int n - 1 else idx)
             in cp ! nat idx)"

text \<open>The ring from its oldest sample on.\<close>

definition window :: "'v reservoir \<Rightarrow> 'v list" where
  "window r = drop (rv_next r) (rv_buf r) @ take (rv_next r) (rv_buf r)"

definition reservoir_ok :: "'v reservoir \<Rightarrow> bool" where
  "reservoir_ok r \<longleftrightarrow> 0 < rv_size r \<and> (if rv_full r then length (rv_buf r) = rv_size r \<and> rv_next r < rv_size r
     else length (rv_buf r) < rv_size r \<and> rv_next r = 0)"

text \<open>The last \<open>n\<close> elements of a list.\<close>

definition last_n :: "nat \<Rightarrow> 'v list \<Rightarrow> 'v list" where
  "last_n n xs = drop (length xs - n) xs"

lemma last_n_again: "0 < n \<Longrightarrow> last_n n (last_n n xs @ [x]) = last_n n (xs @ [x])"
  by (cases "length xs < n") (simp_all add: last_n_def not_less Suc_diff_le)

lemma ring_overwrite:
  assumes "i < length xs"
  shows "drop (Suc i) xs @ take i xs @ [v] = drop (Suc i) (xs[i := v]) @ take (Suc i) (xs[i := v])"
  using assms by (simp add: take_Suc_conv_app_nth)

lemma add_sample_window:
  assumes "reservoir_ok r"
  shows "reservoir_ok (add_sample v r) \<and> rv_size (add_sample v r) = rv_size r
    \<and> window (add_sample v r) = last_n (rv_size r) (window r @ [v])"
proof (cases "rv_full r")
  case False
  then show ?thesis using assms by (auto simp: reservoir_ok_def add_sample_def window_def last_n_def Let_def)
next
  case True
  then have len: "length (rv_buf r) = rv_size r" "rv_next r < rv_size r" using assms by (auto simp: reservoir_ok_def)
  have drop1: "last_n (rv_size r) (window r @ [v]) = drop (Suc (rv_next r)) (rv_buf r) @ take (rv_next r) (rv_buf r) @ [v]"
    using len by (simp add: last_n_def window_def drop_Suc flip: drop_drop) (metis drop_Suc tl_drop)
  show ?thesis
  proof (cases "rv_next r + 1 = rv_size r")
    case True
    then show ?thesis
      using \<open>rv_full r\<close> len drop1 ring_overwrite [of "rv_next r" "rv_buf r" v]
      by (simp add: reservoir_ok_def add_sample_def window_def)
  next
    case False
    then have "rv_next r + 1 < rv_size r" using len by simp
    then show ?thesis
      using \<open>rv_full r\<close> len drop1 ring_overwrite [of "rv_next r" "rv_buf r" v]
      by (simp add: reservoir_ok_def add_sample_def window_def)
  qed
qed

text \<open>After any samples the reservoir holds the most recent ones, as many as fit.\<close>

lemma reservoir_window:
  "reservoir_ok (fold add_sample vs (newReservoir sz))
    \<and> window (fold add_sample vs (newReservoir sz)) = last_n (nat (if sz \<le> 0 then 1 else sz)) vs"
proof (induction vs rule: rev_induct)
  case Nil
  then show ?case by (simp add: newReservoir_def reservoir_ok_def window_def last_n_def)
next
  case (snoc v vs)
  let ?r = "fold add_sample vs (newReservoir sz)" and ?n = "nat (if sz \<le> 0 then 1 else sz)"
  have "rv_size (fold add_sample vs r) = rv_size r" if "reservoir_ok r" for r :: "'a reservoir"
    using that
  proof (induction vs arbitrary: r)
    case (Cons a vs)
    then show ?case using add_sample_window [of r a] by simp
  qed simp
  moreover have "reservoir_ok (newReservoir sz :: 'a reservoir)" by (simp add: newReservoir_def reservoir_ok_def)
  ultimately have fixed: "rv_size ?r = ?n" by (simp add: newReservoir_def)
  have "last_n ?n (last_n ?n vs @ [v]) = last_n ?n (vs @ [v])" by (rule last_n_again) simp
  then show ?case using snoc add_sample_window [of ?r v] fixed by simp
qed

text \<open>
  A quantile is an element of the window with at least as many samples not above it as its rank
  says, and the quantiles 0 and 1 are the least and the greatest sample.
\<close>

lemma quantile_order:
  assumes "rv_buf r \<noteq> []"
  shows "quantile low high rank r \<in> set (window r)"
    and "\<And>x. x \<in> set (window r) \<Longrightarrow> quantile True high rank r \<le> x \<and> x \<le> quantile False True rank r"
    and "0 \<le> rank (length (rv_buf r)) \<Longrightarrow> rank (length (rv_buf r)) < int (length (rv_buf r))
      \<Longrightarrow> rank (length (rv_buf r)) < int (length (filter (\<lambda>x. x \<le> quantile False False rank r) (window r)))"
proof -
  let ?s = "sort (rv_buf r)" and ?n = "length (rv_buf r)"
  have set: "set (window r) = set ?s"
    unfolding window_def by (metis append_take_drop_id set_append set_sort Un_commute)
  have n: "0 < ?n" using assms by simp
  then show "quantile low high rank r \<in> set (window r)"
    unfolding set by (auto simp: quantile_def Let_def simp del: set_sort intro!: nth_mem) (use n in linarith)
  fix x assume "x \<in> set (window r)"
  then obtain i where "i < ?n" "x = ?s ! i" unfolding set by (metis in_set_conv_nth length_sort)
  then show "quantile True high rank r \<le> x \<and> x \<le> quantile False True rank r"
    using n by (simp add: quantile_def Let_def sorted_nth_mono)
next
  let ?s = "sort (rv_buf r)" and ?n = "length (rv_buf r)" and ?k = "rank (length (rv_buf r))"
  assume k: "0 \<le> ?k" "?k < int ?n"
  let ?P = "\<lambda>x. x \<le> ?s ! nat ?k"
  have q: "quantile False False rank r = ?s ! nat ?k" using k by (auto simp: quantile_def Let_def)
  have lt: "nat ?k < length ?s" using k by (simp add: nat_less_iff)
  have "\<forall>x \<in> set (take (Suc (nat ?k)) ?s). ?P x"
    using lt by (auto simp: in_set_conv_nth intro!: sorted_nth_mono)
  then have "length (filter ?P (take (Suc (nat ?k)) ?s)) = Suc (nat ?k)" using lt by (simp add: filter_True)
  then have "Suc (nat ?k) \<le> length (filter ?P (take (Suc (nat ?k)) ?s @ drop (Suc (nat ?k)) ?s))"
    by (simp only: filter_append length_append)
  then have "Suc (nat ?k) \<le> length (filter ?P ?s)" by (simp only: append_take_drop_id)
  moreover have "mset (window r) = mset ?s"
    unfolding window_def by (metis append_take_drop_id mset_append mset_sort union_commute)
  then have "length (filter ?P (window r)) = length (filter ?P ?s)"
    by (metis mset_filter size_mset)
  ultimately show "?k < int (length (filter (\<lambda>x. x \<le> quantile False False rank r) (window r)))"
    unfolding q using k by simp
qed

end
