(* ===== verification/Pool_Router.thy ===== *)
theory Pool_Router
  imports Main
begin

text \<open>
  The router of target databases, \<^verbatim>\<open>src/internal/router/router.go\<close>. A call of \<^verbatim>\<open>GetPool\<close> is a lookup under the
  read lock and, where that fails, a critical section under the write lock; other calls may run in
  between. A pool is a number; what \<^verbatim>\<open>pgxpool.New\<close> gives is an argument.
\<close>

definition defaultMaxDatabases :: int where "defaultMaxDatabases = 64"

record PoolRouter =
  ro_pools :: "(string \<times> nat) list"
  ro_closed :: bool
  ro_maxDatabases :: int
  ro_shut :: "nat list"

definition NewPoolRouter :: PoolRouter where
  "NewPoolRouter = \<lparr>ro_pools = [], ro_closed = False, ro_maxDatabases = defaultMaxDatabases, ro_shut = []\<rparr>"

datatype router_error = RouterClosed | MaxDatabases int | CreateFailed

definition GetPool_fast :: "string \<Rightarrow> PoolRouter \<Rightarrow> nat option" where
  "GetPool_fast db r = map_of (ro_pools r) db"

definition GetPool_slow :: "nat option \<Rightarrow> string \<Rightarrow> PoolRouter \<Rightarrow> (router_error + nat) \<times> PoolRouter" where
  "GetPool_slow created db r =
     (if ro_closed r then (Inl RouterClosed, r)
      else case map_of (ro_pools r) db of
        Some pool \<Rightarrow> (Inr pool, r)
      | None \<Rightarrow>
          let maxDB = (if ro_maxDatabases r \<le> 0 then defaultMaxDatabases else ro_maxDatabases r) in
          if int (length (ro_pools r)) \<ge> maxDB then (Inl (MaxDatabases maxDB), r)
          else case created of
            None \<Rightarrow> (Inl CreateFailed, r)
          | Some pool \<Rightarrow> (Inr pool, r\<lparr>ro_pools := (db, pool) # ro_pools r\<rparr>))"

definition router_Close :: "PoolRouter \<Rightarrow> PoolRouter" where
  "router_Close r = r\<lparr>ro_closed := True, ro_shut := ro_shut r @ map snd (ro_pools r)\<rparr>"

definition Databases :: "PoolRouter \<Rightarrow> string list" where
  "Databases r = map fst (ro_pools r)"

text \<open>The critical sections that change the router, in any order.\<close>

inductive routed :: "PoolRouter \<Rightarrow> bool" where
  routed_new: "routed NewPoolRouter"
| routed_get: "routed r \<Longrightarrow> routed (snd (GetPool_slow created db r))"
| routed_close: "routed r \<Longrightarrow> routed (router_Close r)"

text \<open>Each database has one pool, and there are at most sixty-four.\<close>

lemma router_bounded: "routed r \<Longrightarrow> distinct (Databases r) \<and> length (Databases r) \<le> 64 \<and> ro_maxDatabases r = 64"
proof (induction rule: routed.induct)
  case (routed_get r created db)
  have "db \<notin> set (Databases r)" if "map_of (ro_pools r) db = None"
    using that by (simp add: Databases_def map_of_eq_None_iff)
  then show ?case using routed_get.IH
    by (auto simp: GetPool_slow_def Databases_def Let_def split: option.splits if_splits)
qed (simp_all add: NewPoolRouter_def Databases_def router_Close_def defaultMaxDatabases_def)

text \<open>A database keeps the pool it was given.\<close>

lemma router_stable:
  assumes "GetPool_fast db r = Some pool"
  shows "GetPool_fast db (snd (GetPool_slow created db' r)) = Some pool" "GetPool_fast db (router_Close r) = Some pool"
    "\<not> ro_closed r \<Longrightarrow> GetPool_slow created db r = (Inr pool, r)"
  using assms by (auto simp: GetPool_fast_def GetPool_slow_def router_Close_def Let_def split: option.split)

text \<open>A closed router still hands out its closed pools: the lookup does not look at the flag.\<close>

lemma closed_router_gives_pools:
  assumes "GetPool_fast db r = Some pool"
  shows "GetPool_fast db (router_Close r) = Some pool \<and> ro_closed (router_Close r) \<and> pool \<in> set (ro_shut (router_Close r))"
  using assms by (force simp: GetPool_fast_def router_Close_def dest: map_of_SomeD)

end
