(* ===== verification/Framing.thy ===== *)
theory Framing
  imports Core_Types
begin

text \<open>
  Message framing, \<^verbatim>\<open>src/pkg/protocol/framing.go\<close>: the byte stream of one direction of one
  connection is cut into messages. \<open>Inl\<close> is a framing error, \<open>Inr None\<close> the \<^verbatim>\<open>ok = false\<close> that asks
  for more bytes, \<open>Inr (Some (msg, consumed))\<close> a framed message. The backing-array management of
  \<^verbatim>\<open>compact\<close> and \<^verbatim>\<open>clonePayload\<close> does not change the contents and has no counterpart.
\<close>

section \<open>Framing one message\<close>

definition sslRequestCode :: u32 where "sslRequestCode = 80877103"
definition gssEncRequestCode :: u32 where "gssEncRequestCode = 80877104"
definition cancelRequestCode :: u32 where "cancelRequestCode = 80877102"
definition typedHeaderLen :: nat where "typedHeaderLen = 5"
definition startupHeaderLen :: nat where "startupHeaderLen = 4"
definition maxStalledBuffer :: nat where "maxStalledBuffer = 2 ^ 20"
definition startupMsgType :: byte where "startupMsgType = 0"
definition maxFrameLength :: u32 where "maxFrameLength = 256 * 1024 * 1024"

datatype frame_error =
    InvalidLength u32 byte
  | ExceedsMax u32 byte
  | InvalidStartupLength u32

type_synonym framed = "frame_error + (PGMessage \<times> nat) option"

definition frameTyped :: "bytes \<Rightarrow> framed" where
  "frameTyped b =
     (if length b < typedHeaderLen then Inr None
      else let typ = b ! 0; len = (be_get (slice_at 1 4 b) :: u32) in
        if len < 4 then Inl (InvalidLength len typ)
        else if maxFrameLength < len then Inl (ExceedsMax len typ)
        else let total = 1 + unat len in
          if length b < total then Inr None
          else Inr (Some (\<lparr>Type = typ, Length = len,
                 Payload = slice_at typedHeaderLen (total - typedHeaderLen) b\<rparr>, total)))"

definition frameStartup :: "bytes \<Rightarrow> framed" where
  "frameStartup b =
     (if length b < startupHeaderLen then Inr None
      else let len = (be_get (slice_at 0 4 b) :: u32) in
        if len < 4 then Inl (InvalidStartupLength len)
        else let total = unat len in
          if length b < total then Inr None
          else Inr (Some (\<lparr>Type = startupMsgType, Length = len,
                 Payload = slice_at startupHeaderLen (total - startupHeaderLen) b\<rparr>, total)))"

definition transitionToTyped :: "PGMessage \<Rightarrow> bool" where
  "transitionToTyped msg =
     (if length (Payload msg) < 4 then True
      else let code = (be_get (slice_at 0 4 (Payload msg)) :: u32) in
        code \<notin> {sslRequestCode, gssEncRequestCode, cancelRequestCode})"

definition frame :: "bool \<Rightarrow> bytes \<Rightarrow> framed" where
  "frame inStartup b = (if inStartup then frameStartup b else frameTyped b)"

section \<open>The parser\<close>

record streamParser =
  fromClient :: bool
  inStartup :: bool
  buf :: bytes
  stalled :: bool

definition NewParser :: "bool \<Rightarrow> streamParser" where
  "NewParser client = \<lparr>fromClient = client, inStartup = client, buf = [], stalled = False\<rparr>"

lemma frame_consumes: "frame st b = Inr (Some (msg, n)) \<Longrightarrow> 0 < n \<and> n \<le> length b"
  by (auto simp: frame_def frameTyped_def frameStartup_def Let_def word_le_nat_alt not_less
      split: if_splits)

text \<open>
  The loop of \<^verbatim>\<open>Feed\<close>: the messages framed, the phase and bytes left, and the error that ended it.
\<close>

function feed_loop :: "bool \<Rightarrow> bytes \<Rightarrow> PGMessage list \<times> bool \<times> bytes \<times> frame_error option" where
  "feed_loop st b = (case frame st b of
       Inl e \<Rightarrow> ([], st, b, Some e)
     | Inr None \<Rightarrow> ([], st, b, None)
     | Inr (Some (msg, consumed)) \<Rightarrow>
         (case feed_loop (st \<and> \<not> transitionToTyped msg) (drop consumed b) of
            (msgs, r) \<Rightarrow> (msg # msgs, r)))"
  by pat_completeness auto
termination
  by (relation "measure (\<lambda>(st, b). length b)") (auto dest: frame_consumes)

declare feed_loop.simps [simp del]

definition hasValidPendingFrame :: "bool \<Rightarrow> bytes \<Rightarrow> bool" where
  "hasValidPendingFrame st b =
     (if st then
        (if startupHeaderLen \<le> length b
         then let len = (be_get (slice_at 0 4 b) :: u32) in 4 \<le> len \<and> len \<le> 256 * 1024 * 1024
         else False)
      else if typedHeaderLen \<le> length b
      then let len = (be_get (slice_at 1 4 b) :: u32) in 4 \<le> len \<and> len \<le> 256 * 1024 * 1024
      else False)"

definition Feed :: "bytes \<Rightarrow> streamParser \<Rightarrow> (PGMessage list \<times> frame_error option) \<times> streamParser" where
  "Feed data p =
     (if stalled p then (([], None), p)
      else case feed_loop (inStartup p) (buf p @ data) of
        (msgs, st, b, Some e) \<Rightarrow> ((msgs, Some e), p\<lparr>inStartup := st, buf := b\<rparr>)
      | (msgs, st, b, None) \<Rightarrow>
          if msgs = [] \<and> maxStalledBuffer < length b \<and> \<not> hasValidPendingFrame st b
          then (([], None), p\<lparr>inStartup := st, buf := [], stalled := True\<rparr>)
          else ((msgs, None), p\<lparr>inStartup := st, buf := b\<rparr>))"

section \<open>The wire format\<close>

definition encode_typed :: "PGMessage \<Rightarrow> bytes" where
  "encode_typed m = Type m # be_put (Length m) @ Payload m"

definition encode_startup :: "PGMessage \<Rightarrow> bytes" where
  "encode_startup m = be_put (Length m) @ Payload m"

definition encode_msg :: "bool \<Rightarrow> PGMessage \<Rightarrow> bytes" where
  "encode_msg st m = (if st then encode_startup m else encode_typed m)"

definition well_framed :: "bool \<Rightarrow> PGMessage \<Rightarrow> bool" where
  "well_framed st m \<longleftrightarrow> unat (Length m) = 4 + length (Payload m)
     \<and> (if st then Type m = startupMsgType else Length m \<le> maxFrameLength)"

fun encode_stream :: "bool \<Rightarrow> PGMessage list \<Rightarrow> bytes" where
  "encode_stream st [] = []"
| "encode_stream st (m # ms) = encode_msg st m @ encode_stream (st \<and> \<not> transitionToTyped m) ms"

fun well_framed_stream :: "bool \<Rightarrow> PGMessage list \<Rightarrow> bool" where
  "well_framed_stream st [] = True"
| "well_framed_stream st (m # ms) = (well_framed st m \<and> well_framed_stream (st \<and> \<not> transitionToTyped m) ms)"

fun phase_after :: "bool \<Rightarrow> PGMessage list \<Rightarrow> bool" where
  "phase_after st [] = st"
| "phase_after st (m # ms) = phase_after (st \<and> \<not> transitionToTyped m) ms"

section \<open>Framing inverts the wire format\<close>

lemma frame_encode:
  assumes "well_framed st m"
  shows "frame st (encode_msg st m @ rest) = Inr (Some (m, length (encode_msg st m)))"
proof -
  have len: "unat (Length m) = 4 + length (Payload m)" using assms by (simp add: well_framed_def)
  then have "\<not> Length m < 4" by (simp add: word_less_nat_alt)
  then show ?thesis
    using assms len
    by (cases m) (auto simp: frame_def frameTyped_def frameStartup_def encode_msg_def encode_typed_def
        encode_startup_def slice_at_def be_get_put well_framed_def Let_def typedHeaderLen_def
        startupHeaderLen_def split: if_splits)
qed

lemma header_slices:
  "4 \<le> length b \<Longrightarrow> be_put (be_get (slice_at 0 4 b) :: u32) @ drop 4 b = b"
  "5 \<le> length b \<Longrightarrow> b ! 0 # be_put (be_get (slice_at 1 4 b) :: u32) @ drop 5 b = b"
proof -
  show "be_put (be_get (slice_at 0 4 b) :: u32) @ drop 4 b = b" if "4 \<le> length b"
    using that be_put_get [where 'a = 32, of "slice_at 0 4 b"] by (simp add: slice_at_def)
  show "b ! 0 # be_put (be_get (slice_at 1 4 b) :: u32) @ drop 5 b = b" if b: "5 \<le> length b"
  proof -
    obtain x xs where x: "b = x # xs" using b by (cases b) auto
    then have "be_put (be_get (slice_at 1 4 b) :: u32) = take 4 xs"
      using b be_put_get [where 'a = 32, of "slice_at 1 4 b"] by (simp add: slice_at_def)
    then show ?thesis by (simp add: x)
  qed
qed

lemma drop_slice:
  assumes "i \<le> j"
  shows "drop i b = slice_at i (j - i) b @ drop j b"
proof -
  have "drop j b = drop (j - i) (drop i b)" using assms by simp
  then show ?thesis by (simp only: slice_at_def append_take_drop_id)
qed

lemma frame_sound:
  assumes "frame st b = Inr (Some (m, n))"
  shows "well_framed st m \<and> b = encode_msg st m @ drop n b \<and> n = length (encode_msg st m)"
proof (cases st)
  case True
  let ?len = "be_get (slice_at 0 4 b) :: u32"
  have f: "4 \<le> length b" "4 \<le> unat ?len" "unat ?len \<le> length b" "n = unat ?len"
      "m = \<lparr>Type = startupMsgType, Length = ?len, Payload = slice_at 4 (unat ?len - 4) b\<rparr>"
    using assms True
    by (auto simp: frame_def frameStartup_def startupHeaderLen_def Let_def word_less_nat_alt split: if_splits)
  have "drop 4 b = slice_at 4 (unat ?len - 4) b @ drop (unat ?len) b"
    using drop_slice [OF f(2)] .
  then have "be_put ?len @ slice_at 4 (unat ?len - 4) b @ drop (unat ?len) b = b"
    using header_slices(1) [OF f(1)] by simp
  with f True show ?thesis
    by (simp add: well_framed_def encode_msg_def encode_startup_def)
next
  case False
  let ?len = "be_get (slice_at 1 4 b) :: u32"
  have f: "5 \<le> length b" "4 \<le> unat ?len" "1 + unat ?len \<le> length b" "n = 1 + unat ?len"
      "m = \<lparr>Type = b ! 0, Length = ?len, Payload = slice_at 5 (unat ?len - 4) b\<rparr>" "?len \<le> maxFrameLength"
    using assms False
    by (auto simp: frame_def frameTyped_def typedHeaderLen_def Let_def word_less_nat_alt word_le_nat_alt split: if_splits)
  have "drop 5 b = slice_at 5 (unat ?len - 4) b @ drop (1 + unat ?len) b"
    using drop_slice [of 5 "1 + unat ?len" b] f(2) by simp
  then have "b ! 0 # be_put ?len @ slice_at 5 (unat ?len - 4) b @ drop (1 + unat ?len) b = b"
    using header_slices(2) [OF f(1)] by simp
  with f False show ?thesis
    by (simp add: well_framed_def encode_msg_def encode_typed_def)
qed

lemma slice_append: "i + n \<le> length b \<Longrightarrow> slice_at i n (b @ d) = slice_at i n b"
  by (simp add: slice_at_def)

lemma frame_error_extend: "frame st b = Inl e \<Longrightarrow> frame st (b @ d) = Inl e"
  by (auto simp: frame_def frameTyped_def frameStartup_def typedHeaderLen_def startupHeaderLen_def
      Let_def slice_append nth_append split: if_splits)

lemma frame_prefix:
  assumes wf: "well_framed st m" and pre: "x @ y = encode_msg st m" and ne: "y \<noteq> []"
  shows "frame st x = Inr None"
proof (cases "frame st x")
  case (Inl e)
  then have "frame st (x @ y) = Inl e" by (rule frame_error_extend)
  with frame_encode [OF wf, of "[]"] pre show ?thesis by simp
next
  case (Inr r)
  have False if "r = Some (m', n)" for m' n
  proof -
    have "x = encode_msg st m' @ drop n x" "well_framed st m'"
      using frame_sound [of st x m' n] Inr that by auto
    then have "frame st (x @ y) = Inr (Some (m', length (encode_msg st m')))"
      using frame_encode [of st m' "drop n x @ y"] by (metis append.assoc)
    then have "m' = m" using frame_encode [OF wf, of "[]"] pre by simp
    then have "length (encode_msg st m) \<le> length x"
      using \<open>x = _\<close> by (metis le_add1 length_append)
    with pre ne show False by (metis add_le_same_cancel1 le_zero_eq length_0_conv length_append)
  qed
  with Inr show ?thesis by (cases r) auto
qed

section \<open>The loop\<close>

lemma frame_extend: "frame st b = Inr (Some (m, n)) \<Longrightarrow> frame st (b @ d) = Inr (Some (m, n))"
  using frame_sound [of st b m n] frame_encode [of st m "drop n b @ d"] by (metis append.assoc)

lemma loop_append:
  "feed_loop st b = (ms, st', b', None) \<Longrightarrow>
   feed_loop st (b @ d) = (case feed_loop st' (b' @ d) of (ms2, r) \<Rightarrow> (ms @ ms2, r))"
proof (induction st b arbitrary: ms rule: feed_loop.induct)
  case (1 st b)
  show ?case
  proof (cases "frame st b")
    case (Inl e)
    with "1.prems" show ?thesis by (simp add: feed_loop.simps [of st b])
  next
    case (Inr r)
    show ?thesis
    proof (cases r)
      case None
      with Inr "1.prems" show ?thesis by (simp add: feed_loop.simps [of st b] split: prod.split)
    next
      case (Some p)
      obtain m n where p: "p = (m, n)" by (cases p)
      have n: "n \<le> length b" using frame_consumes Inr Some p by blast
      obtain ms1 where ms: "ms = m # ms1"
        and rec: "feed_loop (st \<and> \<not> transitionToTyped m) (drop n b) = (ms1, st', b', None)"
        using "1.prems" Inr Some p by (auto simp: feed_loop.simps [of st b] split: prod.splits)
      have "feed_loop (st \<and> \<not> transitionToTyped m) (drop n b @ d)
          = (case feed_loop st' (b' @ d) of (ms2, r) \<Rightarrow> (ms1 @ ms2, r))"
        using "1.IH" [OF Inr Some p [symmetric] rec] .
      moreover have "frame st (b @ d) = Inr (Some (m, n))" using frame_extend Inr Some p by blast
      ultimately show ?thesis
        using n by (simp add: feed_loop.simps [of st "b @ d"] ms split: prod.splits)
    qed
  qed
qed

lemma loop_sound:
  "feed_loop st b = (ms, st', b', e) \<Longrightarrow>
   well_framed_stream st ms \<and> st' = phase_after st ms \<and> b = encode_stream st ms @ b'
   \<and> frame st' b' = (case e of None \<Rightarrow> Inr None | Some e \<Rightarrow> Inl e)"
proof (induction st b arbitrary: ms rule: feed_loop.induct)
  case (1 st b)
  show ?case
  proof (cases "frame st b")
    case (Inl e)
    with "1.prems" show ?thesis by (auto simp: feed_loop.simps [of st b])
  next
    case (Inr r)
    show ?thesis
    proof (cases r)
      case None
      with Inr "1.prems" show ?thesis by (auto simp: feed_loop.simps [of st b])
    next
      case (Some p)
      obtain m n where p: "p = (m, n)" by (cases p)
      have snd: "well_framed st m" "b = encode_msg st m @ drop n b"
        using frame_sound [of st b m n] Inr Some p by auto
      obtain ms1 where ms: "ms = m # ms1"
        and rec: "feed_loop (st \<and> \<not> transitionToTyped m) (drop n b) = (ms1, st', b', e)"
        using "1.prems" Inr Some p by (auto simp: feed_loop.simps [of st b] split: prod.splits)
      have IH: "well_framed_stream (st \<and> \<not> transitionToTyped m) ms1"
          "st' = phase_after (st \<and> \<not> transitionToTyped m) ms1"
          "drop n b = encode_stream (st \<and> \<not> transitionToTyped m) ms1 @ b'"
          "frame st' b' = (case e of None \<Rightarrow> Inr None | Some e \<Rightarrow> Inl e)"
        using "1.IH" [OF Inr Some p [symmetric] rec] by auto
      have "b = encode_msg st m @ encode_stream (st \<and> \<not> transitionToTyped m) ms1 @ b'"
        using snd(2) IH(3) by metis
      with IH(1,2,4) snd(1) show ?thesis by (simp add: ms)
    qed
  qed
qed

text \<open>
  The loop on a prefix of a well-formed stream: it frames the messages that are complete, keeps
  the rest, and meets no error.
\<close>

lemma loop_prefix:
  assumes "well_framed_stream st ms" and "x @ y = encode_stream st ms"
  shows "\<exists>ms1 ms2 b. feed_loop st x = (ms1, phase_after st ms1, b, None) \<and> ms = ms1 @ ms2
    \<and> well_framed_stream (phase_after st ms1) ms2 \<and> b @ y = encode_stream (phase_after st ms1) ms2
    \<and> (b = [] \<or> (\<exists>m ms3 z. ms2 = m # ms3 \<and> z \<noteq> [] \<and> b @ z = encode_msg (phase_after st ms1) m))"
  using assms
proof (induction ms arbitrary: st x)
  case Nil
  then have "frame st x = Inr None"
    by (simp add: frame_def frameTyped_def frameStartup_def typedHeaderLen_def startupHeaderLen_def)
  with Nil show ?case by (simp add: feed_loop.simps)
next
  case (Cons m ms)
  let ?st = "st \<and> \<not> transitionToTyped m" and ?e = "encode_msg st m"
  have wf: "well_framed st m" "well_framed_stream ?st ms" using Cons.prems(1) by simp_all
  show ?case
  proof (cases "length ?e \<le> length x")
    case True
    define x' where "x' = drop (length ?e) x"
    have "take (length ?e) (x @ y) = ?e" by (simp add: Cons.prems(2))
    then have "take (length ?e) x = ?e" using True by simp
    then have x1: "x = ?e @ x'" by (metis x'_def append_take_drop_id)
    then have x: "x = ?e @ x'" "x' @ y = encode_stream ?st ms" using Cons.prems(2) by simp_all
    obtain ms1 ms2 b where IH: "feed_loop ?st x' = (ms1, phase_after ?st ms1, b, None)" "ms = ms1 @ ms2"
        "well_framed_stream (phase_after ?st ms1) ms2" "b @ y = encode_stream (phase_after ?st ms1) ms2"
        "b = [] \<or> (\<exists>m ms3 z. ms2 = m # ms3 \<and> z \<noteq> [] \<and> b @ z = encode_msg (phase_after ?st ms1) m)"
      using Cons.IH [OF wf(2) x(2)] by blast
    have "feed_loop st x = (m # ms1, phase_after ?st ms1, b, None)"
      using frame_encode [OF wf(1), of x'] IH(1) by (simp add: feed_loop.simps [of st "encode_msg st m @ x'"] x(1))
    with IH show ?thesis by (intro exI [of _ "m # ms1"] exI [of _ ms2] exI [of _ b]) simp
  next
    case False
    have "take (length x) (x @ y) = take (length x) ?e"
      using False Cons.prems(2) by simp
    then have "x @ drop (length x) ?e = ?e" by (metis append_eq_conv_conj append_take_drop_id)
    moreover have "drop (length x) ?e \<noteq> []" using False by simp
    ultimately obtain z where z: "x @ z = ?e" "z \<noteq> []" by blast
    then have "feed_loop st x = ([], st, x, None)"
      using frame_prefix [OF wf(1)] by (simp add: feed_loop.simps)
    with Cons.prems z show ?thesis
      by (intro exI [of _ "[]"] exI [of _ "m # ms"] exI [of _ x]) auto
  qed
qed

section \<open>Feeding a stream in chunks\<close>

text \<open>A run of \<^verbatim>\<open>Feed\<close> over the chunks the capture layer delivers.\<close>

fun feed_all :: "bytes list \<Rightarrow> streamParser \<Rightarrow> PGMessage list \<times> streamParser" where
  "feed_all [] p = ([], p)"
| "feed_all (c # cs) p = (case Feed c p of ((ms, e), p1) \<Rightarrow>
     case feed_all cs p1 of (ms', p2) \<Rightarrow> (ms @ ms', p2))"

lemma pending_valid:
  assumes "well_framed st m" and "Length m \<le> maxFrameLength" and "b @ z = encode_msg st m"
    and "5 \<le> length b"
  shows "hasValidPendingFrame st b"
proof -
  have "4 \<le> Length m" using assms(1) by (simp add: well_framed_def word_le_nat_alt)
  moreover have "(be_get (slice_at (if st then 0 else 1) 4 (b @ z)) :: u32) = Length m"
    unfolding assms(3)
    by (simp add: encode_msg_def encode_startup_def encode_typed_def slice_at_def be_get_put)
  ultimately show ?thesis
    using assms(2,4)
    by (auto simp: hasValidPendingFrame_def startupHeaderLen_def typedHeaderLen_def slice_append
        maxFrameLength_def Let_def split: if_splits)
qed

lemma encode_stream_Nil: "[] = encode_stream st ms \<Longrightarrow> ms = []"
proof (cases ms)
  case (Cons m ms')
  assume "[] = encode_stream st ms"
  moreover have "4 \<le> length (encode_msg st m)"
    by (simp add: encode_msg_def encode_typed_def encode_startup_def)
  ultimately show ?thesis using Cons by auto
qed simp

lemma feed_step:
  assumes "well_framed_stream (inStartup p) ms" and "\<forall>m \<in> set ms. Length m \<le> maxFrameLength"
    and "\<not> stalled p" and "buf p @ c @ y = encode_stream (inStartup p) ms"
  shows "\<exists>ms1 ms2 b. Feed c p = ((ms1, None), p\<lparr>inStartup := phase_after (inStartup p) ms1, buf := b\<rparr>)
    \<and> ms = ms1 @ ms2 \<and> well_framed_stream (phase_after (inStartup p) ms1) ms2
    \<and> b @ y = encode_stream (phase_after (inStartup p) ms1) ms2 \<and> (y = [] \<longrightarrow> b = [] \<and> ms2 = [])"
proof -
  let ?st = "inStartup p"
  obtain ms1 ms2 b where l: "feed_loop ?st (buf p @ c) = (ms1, phase_after ?st ms1, b, None)"
      "ms = ms1 @ ms2" "well_framed_stream (phase_after ?st ms1) ms2"
      "b @ y = encode_stream (phase_after ?st ms1) ms2"
      "b = [] \<or> (\<exists>m ms3 z. ms2 = m # ms3 \<and> z \<noteq> [] \<and> b @ z = encode_msg (phase_after ?st ms1) m)"
    using loop_prefix [OF assms(1), of "buf p @ c" y, unfolded append_assoc, OF assms(4)] by blast
  have "hasValidPendingFrame (phase_after ?st ms1) b" if big: "maxStalledBuffer < length b"
  proof -
    have "b \<noteq> []" "5 \<le> length b" using big by (auto simp: maxStalledBuffer_def)
    then obtain m ms3 z where m: "ms2 = m # ms3" "b @ z = encode_msg (phase_after ?st ms1) m"
      using l(5) by blast
    with assms(2) l(2,3) \<open>5 \<le> length b\<close> show ?thesis by (intro pending_valid [of _ m]) auto
  qed
  then have "Feed c p = ((ms1, None), p\<lparr>inStartup := phase_after ?st ms1, buf := b\<rparr>)"
    using l(1) assms(3) by (auto simp: Feed_def)
  moreover have "b = [] \<and> ms2 = []" if y: "y = []"
  proof -
    have "b = []"
    proof (rule ccontr)
      assume "b \<noteq> []"
      then obtain m ms3 z where m: "ms2 = m # ms3" "z \<noteq> []" "b @ z = encode_msg (phase_after ?st ms1) m"
        using l(5) by blast
      then have "length b < length (encode_msg (phase_after ?st ms1) m)"
        by (metis length_append less_add_same_cancel1 length_greater_0_conv)
      with l(4) m(1) y show False by (simp add: append_eq_conv_conj)
    qed
    with l(4) y show ?thesis using encode_stream_Nil by simp
  qed
  ultimately show ?thesis using l(2-4) by blast
qed

lemma feed_all_stream:
  assumes "well_framed_stream (inStartup p) ms" and "\<forall>m \<in> set ms. Length m \<le> maxFrameLength"
    and "\<not> stalled p" and "buf p @ concat cs = encode_stream (inStartup p) ms" and "cs \<noteq> []"
  shows "feed_all cs p = (ms, p\<lparr>inStartup := phase_after (inStartup p) ms, buf := []\<rparr>)"
  using assms
proof (induction cs arbitrary: p ms)
  case Nil
  then show ?case by simp
next
  case (Cons c cs)
  obtain ms1 ms2 b where f: "Feed c p = ((ms1, None), p\<lparr>inStartup := phase_after (inStartup p) ms1, buf := b\<rparr>)"
      "ms = ms1 @ ms2" "well_framed_stream (phase_after (inStartup p) ms1) ms2"
      "b @ concat cs = encode_stream (phase_after (inStartup p) ms1) ms2"
      "concat cs = [] \<longrightarrow> b = [] \<and> ms2 = []"
    using feed_step [OF Cons.prems(1-3), of c "concat cs"] Cons.prems(4) by auto
  let ?p = "p\<lparr>inStartup := phase_after (inStartup p) ms1, buf := b\<rparr>"
  have ph: "phase_after st (xs @ ys) = phase_after (phase_after st xs) ys" for st xs ys
    by (induction xs arbitrary: st) simp_all
  show ?case
  proof (cases "cs = []")
    case True
    with f show ?thesis by simp
  next
    case False
    then have "feed_all cs ?p = (ms2, ?p\<lparr>inStartup := phase_after (inStartup ?p) ms2, buf := []\<rparr>)"
      using Cons.IH [of ?p ms2] f Cons.prems(2,3) by auto
    then show ?thesis using f by (simp add: ph)
  qed
qed

section \<open>Properties\<close>

text \<open>
  C22: Framing does not depend on how the stream is cut. However a well-formed stream of
  messages is split into chunks, by capture, reassembly or segment boundaries, feeding the
  chunks one after the other yields exactly its messages, in order, and leaves nothing behind.
\<close>

theorem framing_chunks:
  assumes "well_framed_stream client ms" and "\<forall>m \<in> set ms. Length m \<le> maxFrameLength"
    and "concat cs = encode_stream client ms"
  shows "feed_all cs (NewParser client)
    = (ms, (NewParser client)\<lparr>inStartup := phase_after client ms\<rparr>)"
proof (cases "cs = []")
  case True
  with assms(3) encode_stream_Nil [of client ms] show ?thesis by (simp add: NewParser_def)
next
  case False
  with feed_all_stream [of "NewParser client" ms cs] assms show ?thesis by (simp add: NewParser_def)
qed

definition sample_messages :: "PGMessage list" where
  "sample_messages = [\<lparr>Type = 0, Length = 8, Payload = [0, 3, 0, 0]\<rparr>,
     \<lparr>Type = 81, Length = 6, Payload = [59, 0]\<rparr>]"

theorem framing_chunks_witness:
  "feed_all [[0, 0, 0, 8, 0, 3], [0, 0, 81, 0, 0, 0], [6, 59], [0]] (NewParser True)
     = (sample_messages, (NewParser True)\<lparr>inStartup := False\<rparr>)"
proof -
  have be: "be_put (8 :: u32) = [0, 0, 0, 8]" "be_put (6 :: u32) = [0, 0, 0, 6]"
    using be_put_get [where 'a = 32, of "[0, 0, 0, 8]"] be_put_get [where 'a = 32, of "[0, 0, 0, 6]"]
    by (simp_all add: be_get_def be_val_def)
  have tr: "transitionToTyped \<lparr>Type = 0, Length = 8, Payload = [0, 3, 0, 0]\<rparr>"
    by (simp add: transitionToTyped_def slice_at_def be_get_def be_val_def sslRequestCode_def
        gssEncRequestCode_def cancelRequestCode_def)
  show ?thesis
    using framing_chunks [of True sample_messages "[[0, 0, 0, 8, 0, 3], [0, 0, 81, 0, 0, 0], [6, 59], [0]]"]
    by (simp add: sample_messages_def well_framed_def encode_msg_def encode_startup_def encode_typed_def
        be tr startupMsgType_def maxFrameLength_def)
qed

text \<open>
  C23: No byte is lost or invented. Unless the parser stalls, the bytes it held and was given
  are the encoding of the messages it emits followed by the bytes it retains, and every message
  emitted has a length field that matches its payload.
\<close>

theorem framing_conserves:
  assumes "Feed d p = ((ms, e), p')" and "\<not> stalled p'"
  shows "buf p @ d = encode_stream (inStartup p) ms @ buf p' \<and> well_framed_stream (inStartup p) ms
    \<and> inStartup p' = phase_after (inStartup p) ms"
  using assms loop_sound [of "inStartup p" "buf p @ d"]
  by (auto simp: Feed_def split: prod.splits option.splits if_splits)

theorem framing_conserves_witness:
  "buf (NewParser False) @ [90, 0, 0] = encode_stream False [] @ buf ((NewParser False)\<lparr>buf := [90, 0, 0]\<rparr>)"
  using framing_conserves [of "[90, 0, 0]" "NewParser False" "[]" None "(NewParser False)\<lparr>buf := [90, 0, 0]\<rparr>"]
  by (simp add: Feed_def NewParser_def feed_loop.simps frame_def frameTyped_def typedHeaderLen_def
      maxStalledBuffer_def)

text \<open>
  A framing error is final for the stream. After one invalid length field every later call
  fails with the same error, emits nothing and only adds to the retained bytes; the bound on
  retained bytes is never consulted on this path.
\<close>

theorem framing_error_final:
  assumes "Feed d p = ((ms, Some e), p')" and "\<not> stalled p"
  shows "Feed d' p' = (([], Some e), p'\<lparr>buf := buf p' @ d'\<rparr>)"
proof -
  have "feed_loop (inStartup p) (buf p @ d) = (ms, inStartup p', buf p', Some e)" and st: "\<not> stalled p'"
    using assms by (auto simp: Feed_def split: prod.splits option.splits if_splits)
  then have "frame (inStartup p') (buf p') = Inl e" using loop_sound by fastforce
  then have "frame (inStartup p') (buf p' @ d') = Inl e" by (rule frame_error_extend)
  with st show ?thesis by (simp add: Feed_def feed_loop.simps)
qed

theorem framing_error_final_witness:
  "Feed [1, 2, 3] ((NewParser False)\<lparr>buf := [81, 0, 0, 0, 0]\<rparr>)
     = (([], Some (InvalidLength 0 81)), (NewParser False)\<lparr>buf := [81, 0, 0, 0, 0, 1, 2, 3]\<rparr>)"
  using framing_error_final [of "[81, 0, 0, 0, 0]" "NewParser False" "[]" "InvalidLength 0 81"
      "(NewParser False)\<lparr>buf := [81, 0, 0, 0, 0]\<rparr>" "[1, 2, 3]"]
  by (simp add: Feed_def NewParser_def feed_loop.simps frame_def frameTyped_def typedHeaderLen_def
      slice_at_def be_get_def be_val_def)

text \<open>
  The stall guard only ever fires in the startup phase. In typed framing a buffer that is
  over the limit without an error always starts with a valid pending frame, so the parser of the
  server direction, and of a client past its startup message, never enters stalled mode.
\<close>

theorem typed_never_stalls:
  assumes "\<not> inStartup p" and "\<not> stalled p"
  shows "\<not> stalled (snd (Feed d p)) \<and> \<not> inStartup (snd (Feed d p))"
proof -
  obtain ms st b e where l: "feed_loop (inStartup p) (buf p @ d) = (ms, st, b, e)"
    by (metis prod.collapse)
  have "phase_after False ms = False" for ms by (induction ms) auto
  then have st: "st = False" using loop_sound [OF l] assms(1) by auto
  have "hasValidPendingFrame False b" if "e = None" "maxStalledBuffer < length b"
    using loop_sound [OF l] that st
    by (auto simp: frame_def frameTyped_def hasValidPendingFrame_def maxStalledBuffer_def typedHeaderLen_def
        maxFrameLength_def Let_def not_less split: if_splits)
  with l st assms(2) show ?thesis by (auto simp: Feed_def split: option.split)
qed

theorem typed_never_stalls_witness:
  "\<not> stalled (snd (Feed (replicate (2 ^ 21) 0) (NewParser False)))"
  by (rule conjunct1, rule typed_never_stalls) (simp_all add: NewParser_def)

end
