(* ===== verification/Messages.thy ===== *)
theory Messages
  imports Core_Types
begin

text \<open>
  The payloads of framed messages: Parse and Simple Query (\<^verbatim>\<open>src/pkg/protocol/eventbuilder.go\<close>),
  Bind (\<^verbatim>\<open>bindcorrelator.go\<close>) and ReadyForQuery (\<^verbatim>\<open>readyforquery.go\<close>). The readers return the
  value and the remaining bytes, \<open>None\<close> for \<^verbatim>\<open>ok = false\<close>.
\<close>

section \<open>Readers\<close>

fun readCString :: "bytes \<Rightarrow> (string \<times> bytes) option" where
  "readCString [] = None"
| "readCString (b # bs) = (if b = 0 then Some ([], bs)
     else map_option (\<lambda>(s, rest). (char_of (unat b) # s, rest)) (readCString bs))"

definition readInt16 :: "bytes \<Rightarrow> (nat \<times> bytes) option" where
  "readInt16 b = (if length b < 2 then None
     else Some (unat (be_get (take 2 b) :: u16), drop 2 b))"

definition readInt32 :: "bytes \<Rightarrow> (int \<times> bytes) option" where
  "readInt32 b = (if length b < 4 then None
     else Some (sint (be_get (take 4 b) :: u32), drop 4 b))"

section \<open>Simple Query and Parse\<close>

definition extractSimpleQuerySQL :: "bytes \<Rightarrow> string" where
  "extractSimpleQuerySQL payload =
     (if payload \<noteq> [] \<and> last payload = 0 then to_string (butlast payload) else to_string payload)"

fun IndexByte :: "bytes \<Rightarrow> byte \<Rightarrow> nat option" where
  "IndexByte [] c = None"
| "IndexByte (b # bs) c = (if b = c then Some 0 else map_option Suc (IndexByte bs c))"

fun read_oids :: "nat \<Rightarrow> bytes \<Rightarrow> u32 list" where
  "read_oids 0 rest = []"
| "read_oids (Suc n) rest = (if 4 \<le> length rest
     then be_get (take 4 rest) # read_oids n (drop 4 rest) else [])"

definition parseParseMessage :: "bytes \<Rightarrow> (string \<times> string \<times> u32 list) option" where
  "parseParseMessage payload = do {
     i \<leftarrow> IndexByte payload 0;
     let stmtName = to_string (take i payload);
     let rest = drop (i + 1) payload;
     j \<leftarrow> IndexByte rest 0;
     let sql = to_string (take j rest);
     let rest = drop (j + 1) rest;
     if length rest < 2 then Some (stmtName, sql, [])
     else Some (stmtName, sql, read_oids (unat (be_get (take 2 rest) :: u16)) (drop 2 rest))
   }"

section \<open>Bind\<close>

fun read_formats :: "nat \<Rightarrow> bytes \<Rightarrow> (u16 list \<times> bytes) option" where
  "read_formats 0 p = Some ([], p)"
| "read_formats (Suc n) p = do {
     (fc, p) \<leftarrow> readInt16 p;
     (fs, p) \<leftarrow> read_formats n p;
     Some (of_nat fc # fs, p)
   }"

fun read_values :: "nat \<Rightarrow> bytes \<Rightarrow> (bytes option list \<times> bytes) option" where
  "read_values 0 p = Some ([], p)"
| "read_values (Suc n) p = do {
     (len, p) \<leftarrow> readInt32 p;
     if len < 0 then do {
       (vs, p) \<leftarrow> read_values n p;
       Some (None # vs, p)
     }
     else if int (length p) < len then None
     else do {
       (vs, p') \<leftarrow> read_values n (drop (nat len) p);
       Some (Some (take (nat len) p) # vs, p')
     }
   }"

definition parseBindMessage :: "bytes \<Rightarrow> (string \<times> u16 list \<times> bytes option list) option" where
  "parseBindMessage payload = do {
     (portal, p) \<leftarrow> readCString payload;
     (srcStmt, p) \<leftarrow> readCString p;
     (formatCount, p) \<leftarrow> readInt16 p;
     (formats, p) \<leftarrow> read_formats formatCount p;
     (valueCount, p) \<leftarrow> readInt16 p;
     if 10000 < valueCount then None
     else do {
       (vals, p) \<leftarrow> read_values valueCount p;
       Some (srcStmt, formats, vals)
     }
   }"

definition zipParams :: "u32 list \<Rightarrow> u16 list \<Rightarrow> bytes option list \<Rightarrow> ParamInfo list" where
  "zipParams oids formats vals =
     map (\<lambda>i. \<lparr>OID = (if i < length oids then oids ! i else 0),
                Value = (if i < length vals then vals ! i else None),
                Format = (case formats of
                    [] \<Rightarrow> 0
                  | [f] \<Rightarrow> f
                  | _ \<Rightarrow> if i < length formats then formats ! i else 0)\<rparr>)
       [0..<max (length oids) (length vals)]"

record ParseInfo =
  pi_SQL :: string
  ParamOIDs :: "u32 list"

record BindResult =
  br_StmtName :: string
  br_SQL :: string
  br_Params :: "ParamInfo list"

type_synonym BindCorrelator = "ConnID \<Rightarrow> string \<Rightarrow> ParseInfo option"

definition OnParse :: "ConnID \<Rightarrow> string \<Rightarrow> string \<Rightarrow> u32 list \<Rightarrow> BindCorrelator \<Rightarrow> BindCorrelator" where
  "OnParse conn stmtName sql paramOIDs c =
     c(conn := (c conn)(stmtName \<mapsto> \<lparr>pi_SQL = sql, ParamOIDs = paramOIDs\<rparr>))"

definition OnBind :: "ConnID \<Rightarrow> bytes \<Rightarrow> BindCorrelator \<Rightarrow> BindResult option" where
  "OnBind conn payload c = do {
     (srcStmt, formats, vals) \<leftarrow> parseBindMessage payload;
     info \<leftarrow> c conn srcStmt;
     Some \<lparr>br_StmtName = srcStmt, br_SQL = pi_SQL info,
           br_Params = zipParams (ParamOIDs info) formats vals\<rparr>
   }"

definition binder_Forget :: "ConnID \<Rightarrow> BindCorrelator \<Rightarrow> BindCorrelator" where
  "binder_Forget conn c = c(conn := Map.empty)"

section \<open>ReadyForQuery\<close>

definition ExtractReadyForQuery :: "PGMessage \<Rightarrow> byte option" where
  "ExtractReadyForQuery msg =
     (if Type msg \<noteq> of_char CHR ''Z'' then None
      else if length (Payload msg) < 1 then None
      else Some (Payload msg ! 0))"

section \<open>The event builder\<close>

record proto_config =
  MaxSQLLength :: int
  ExtendedQuery :: bool
  ConnectionPooler :: bool

text \<open>
  \<open>eb_errors\<close> counts the calls of the parse-error hook. The builder's own transaction
  generator is never wired by a constructor, so the transaction identifier stays zero.
\<close>

record EventBuilder =
  eb_cfg :: proto_config
  eb_seq :: "ConnID \<Rightarrow> u64"
  eb_errors :: nat

definition defaultMaxSQLLength :: int where "defaultMaxSQLLength = 2 ^ 20"

definition effectiveMaxSQLLength :: "proto_config \<Rightarrow> int" where
  "effectiveMaxSQLLength cfg = (if 0 < MaxSQLLength cfg then MaxSQLLength cfg else defaultMaxSQLLength)"

definition oversized :: "proto_config \<Rightarrow> string \<Rightarrow> bool" where
  "oversized cfg sql = (let mx = effectiveMaxSQLLength cfg in
     if mx \<le> 0 then False else mx < int (length sql))"

definition recordParseError :: "EventBuilder \<Rightarrow> EventBuilder" where
  "recordParseError b = b\<lparr>eb_errors := eb_errors b + 1\<rparr>"

definition eb_emit ::
  "ConnID \<Rightarrow> int \<Rightarrow> string \<Rightarrow> string \<Rightarrow> bool \<Rightarrow> u32 list \<Rightarrow> EventBuilder \<Rightarrow> SQLEvent \<times> EventBuilder" where
  "eb_emit conn ts sql stmtName extended oids b =
     (let b = b\<lparr>eb_seq := (eb_seq b)(conn := eb_seq b conn + 1)\<rparr> in
      ((zero_event conn)\<lparr>SQL := sql, Timestamp := ts, Seq := eb_seq b conn, Extended := extended,
         StmtName := stmtName, Params := map (\<lambda>oid. \<lparr>OID = oid, Value = None, Format = 0\<rparr>) oids\<rparr>, b))"

definition Build :: "ConnID \<Rightarrow> PGMessage \<Rightarrow> int \<Rightarrow> EventBuilder \<Rightarrow> SQLEvent option \<times> EventBuilder" where
  "Build conn msg ts b =
     (if Type msg = of_char CHR ''Q'' then
        let sql = extractSimpleQuerySQL (Payload msg) in
        if oversized (eb_cfg b) sql then (None, recordParseError b)
        else map_prod Some id (eb_emit conn ts sql '''' False [] b)
      else if Type msg = of_char CHR ''P'' then
        if \<not> ExtendedQuery (eb_cfg b) then (None, b)
        else case parseParseMessage (Payload msg) of
          None \<Rightarrow> (None, recordParseError b)
        | Some (stmtName, sql, oids) \<Rightarrow>
            if oversized (eb_cfg b) sql then (None, recordParseError b)
            else map_prod Some id (eb_emit conn ts sql stmtName True oids b)
      else (None, b))"

section \<open>The wire formats\<close>

definition enc_string :: "string \<Rightarrow> bytes" where
  "enc_string s = of_string s @ [0]"

definition enc_value :: "bytes option \<Rightarrow> bytes" where
  "enc_value v = (case v of None \<Rightarrow> be_put (- 1 :: u32) | Some bs \<Rightarrow> be_put (of_nat (length bs) :: u32) @ bs)"

definition encode_bind :: "string \<Rightarrow> string \<Rightarrow> u16 list \<Rightarrow> bytes option list \<Rightarrow> bytes \<Rightarrow> bytes" where
  "encode_bind portal stmt formats vals trailer =
     enc_string portal @ enc_string stmt
     @ be_put (of_nat (length formats) :: u16) @ concat (map be_put formats)
     @ be_put (of_nat (length vals) :: u16) @ concat (map enc_value vals) @ trailer"

definition encode_parse :: "string \<Rightarrow> string \<Rightarrow> u32 list \<Rightarrow> bytes" where
  "encode_parse stmt sql oids = enc_string stmt @ enc_string sql
     @ be_put (of_nat (length oids) :: u16) @ concat (map be_put oids)"

definition no_nul :: "string \<Rightarrow> bool" where
  "no_nul s \<longleftrightarrow> CHR 0x00 \<notin> set s"

definition fits :: "bytes option \<Rightarrow> bool" where
  "fits v \<longleftrightarrow> (case v of None \<Rightarrow> True | Some bs \<Rightarrow> length bs < 2 ^ 31)"

section \<open>Decoding inverts encoding\<close>

lemma of_string_Cons [simp]: "of_string (c # s) = of_nat (of_char c) # of_string s"
  and of_string_Nil [simp]: "of_string [] = []"
  by (simp_all add: of_string_def)

lemma char_zero: "(of_nat (of_char c) :: byte) = 0 \<longleftrightarrow> c = CHR 0x00"
  using char_byte [of c] by (auto simp: char_of_def)

lemma read_string: "no_nul s \<Longrightarrow> readCString (enc_string s @ rest) = Some (s, rest)"
  by (induction s) (auto simp: enc_string_def no_nul_def char_zero char_byte)

lemma read_int16 [codec_simps]: "readInt16 (be_put (w :: u16) @ rest) = Some (unat w, rest)"
  by (simp add: readInt16_def be_get_put)

lemma read_int32 [codec_simps]: "readInt32 (be_put (w :: u32) @ rest) = Some (sint w, rest)"
  by (simp add: readInt32_def be_get_put)

lemma read_formats_enc: "read_formats (length fs) (concat (map be_put fs) @ rest) = Some (fs, rest)"
  by (induction fs) (simp_all add: codec_simps)

lemma sint_length: "n < 2 ^ 31 \<Longrightarrow> sint (of_nat n :: u32) = int n"
  by (simp add: signed_of_nat signed_take_bit_int_eq_self)

lemma read_values_enc:
  "list_all fits vs \<Longrightarrow> read_values (length vs) (concat (map enc_value vs) @ rest) = Some (vs, rest)"
proof (induction vs)
  case Nil
  then show ?case by simp
next
  case (Cons v vs)
  then show ?case
    by (cases v) (simp_all add: enc_value_def codec_simps fits_def sint_length)
qed

lemma parse_bind_enc:
  assumes "no_nul portal" and "no_nul stmt" and "length formats < 65536" and "length vals \<le> 10000"
    and "list_all fits vals"
  shows "parseBindMessage (encode_bind portal stmt formats vals trailer) = Some (stmt, formats, vals)"
  using assms
  by (simp add: parseBindMessage_def encode_bind_def read_string codec_simps unat_of_nat
      read_formats_enc read_values_enc)

lemma IndexByte_string: "no_nul s \<Longrightarrow> IndexByte (enc_string s @ rest) 0 = Some (length s)"
  by (induction s) (auto simp: enc_string_def no_nul_def char_zero)

lemma read_oids_enc: "read_oids (length oids) (concat (map be_put oids) @ rest) = oids"
  by (induction oids) (simp_all add: be_get_put)

lemma parse_parse_enc:
  assumes "no_nul stmt" and "no_nul sql" and "length oids < 65536"
  shows "parseParseMessage (encode_parse stmt sql oids @ rest) = Some (stmt, sql, oids)"
proof -
  let ?q = "be_put (of_nat (length oids) :: u16) @ concat (map be_put oids) @ rest"
  have t: "take (length s) (enc_string s @ r) = of_string s" "drop (length s + 1) (enc_string s @ r) = r"
    for s r by (simp_all add: enc_string_def)
  have "parseParseMessage (enc_string stmt @ enc_string sql @ ?q)
      = Some (stmt, sql, read_oids (unat (be_get (take 2 ?q) :: u16)) (drop 2 ?q))"
    unfolding parseParseMessage_def IndexByte_string [OF assms(1)] bind.bind_lunit Let_def t
      IndexByte_string [OF assms(2)]
    by simp
  moreover have "read_oids (unat (be_get (take 2 ?q) :: u16)) (drop 2 ?q) = oids"
    using assms(3) by (simp add: be_get_put unat_of_nat read_oids_enc)
  ultimately show ?thesis by (simp add: encode_parse_def)
qed

section \<open>Event numbering\<close>

lemma Build_seq:
  assumes "Build conn msg ts b = (r, b')"
  shows "case r of None \<Rightarrow> eb_seq b' = eb_seq b
    | Some ev \<Rightarrow> Conn ev = conn \<and> Seq ev = eb_seq b conn + 1 \<and> eb_seq b' = (eb_seq b)(conn := Seq ev)"
  using assms
  by (auto simp: Build_def eb_emit_def recordParseError_def zero_event_def Let_def
      split: if_splits option.splits prod.splits)

fun build_all :: "(ConnID \<times> PGMessage \<times> int) list \<Rightarrow> EventBuilder \<Rightarrow> SQLEvent list \<times> EventBuilder" where
  "build_all [] b = ([], b)"
| "build_all ((conn, msg, ts) # ms) b = (case Build conn msg ts b of (r, b1) \<Rightarrow>
     case build_all ms b1 of (evs, b2) \<Rightarrow> (case r of None \<Rightarrow> evs | Some ev \<Rightarrow> ev # evs, b2))"

lemma build_all_seq:
  "map Seq (filter (\<lambda>e. Conn e = c) (fst (build_all ms b)))
     = map (\<lambda>k. eb_seq b c + of_nat k) [1..<Suc (length (filter (\<lambda>e. Conn e = c) (fst (build_all ms b))))]"
proof (induction ms arbitrary: b)
  case Nil
  then show ?case by simp
next
  case (Cons m ms)
  obtain conn msg ts where m: "m = (conn, msg, ts)" by (cases m)
  obtain r b1 where B: "Build conn msg ts b = (r, b1)" by (meson surj_pair)
  obtain evs b2 where R: "build_all ms b1 = (evs, b2)" by (meson surj_pair)
  let ?n = "length (filter (\<lambda>e. Conn e = c) evs)"
  have IH: "map Seq (filter (\<lambda>e. Conn e = c) evs) = map (\<lambda>k. eb_seq b1 c + of_nat k) [1..<Suc ?n]"
    using Cons.IH [of b1] R by simp
  show ?case
  proof (cases r)
    case None
    with Build_seq [OF B] IH show ?thesis by (simp add: m B R)
  next
    case (Some ev)
    have seq: "Conn ev = conn" "Seq ev = eb_seq b conn + 1" "eb_seq b1 = (eb_seq b)(conn := Seq ev)"
      using Build_seq [OF B] Some by auto
    have shift: "map (\<lambda>k. x + 1 + of_nat k) [1..<Suc n] = map (\<lambda>k. x + of_nat k) [2..<Suc (Suc n)]"
      for x :: u64 and n
      by (intro nth_equalityI) (simp_all add: add.commute add.left_commute del: upt_Suc)
    have hd: "map f [1..<Suc (Suc n)] = f 1 # map f [2..<Suc (Suc n)]" for f :: "nat \<Rightarrow> u64" and n
      by (simp add: upt_conv_Cons numeral_2_eq_2 del: upt_Suc)
    have evs: "fst (build_all (m # ms) b) = ev # evs" by (simp add: m B R Some)
    show ?thesis
      using IH seq shift [of "eb_seq b c" ?n] hd [of _ ?n] unfolding evs
      by (cases "conn = c") (simp_all del: upt_Suc)
  qed
qed

lemma fold_parse_other:
  "(\<forall>(cn, st, sq, os) \<in> set later. (cn, st) \<noteq> (conn, stmt)) \<Longrightarrow>
   fold (\<lambda>(cn, st, sq, os). OnParse cn st sq os) later c conn stmt = c conn stmt"
  by (induction later arbitrary: c) (auto simp: OnParse_def)

section \<open>Properties\<close>


definition sample_conn :: ConnID where
  "sample_conn = \<lparr>SrcIP = [10, 0, 0, 1], SrcPort = 40000, DstIP = [10, 0, 0, 2], DstPort = 5432\<rparr>"


text \<open>
  Parse messages decode to what was encoded: the statement name, the SQL text and the
  declared type identifiers, whatever follows them in the payload.
\<close>

theorem parse_roundtrip:
  assumes "no_nul stmt" and "no_nul sql" and "length oids < 65536"
  shows "parseParseMessage (encode_parse stmt sql oids @ rest) = Some (stmt, sql, oids)"
  using parse_parse_enc [OF assms] .

theorem parse_roundtrip_witness:
  "parseParseMessage (encode_parse ''s1'' ''SELECT $1'' [23] @ [9]) = Some (''s1'', ''SELECT $1'', [23])"
  using parse_roundtrip [of "''s1''" "''SELECT $1''" "[23]" "[9]"] by (simp add: no_nul_def)

text \<open>
  Event numbers of a connection count its events. Over any sequence of messages of any
  connections, skipped messages included, the events built for one connection are numbered by
  consecutive numbers from the builder's counter on, modulo \<open>2 ^ 64\<close>.
\<close>

theorem event_numbers:
  "map Seq (filter (\<lambda>e. Conn e = c) (fst (build_all ms b)))
     = map (\<lambda>k. eb_seq b c + of_nat k) [1..<Suc (length (filter (\<lambda>e. Conn e = c) (fst (build_all ms b))))]"
  by (rule build_all_seq)

end
