(* ===== verification/Classifier_Facts.thy ===== *)
theory Classifier_Facts
  imports Classifier
begin

text \<open>
  What the classifier promises: letter case does not matter, a batch is classified by its most
  significant statement, and the split of a batch loses nothing.
\<close>

section \<open>Letter case\<close>

lemma lower_char_code: "code (lower_char c) = (if 65 \<le> code c \<and> code c \<le> 90 then code c + 32 else code c)"
proof (cases "65 \<le> code c \<and> code c \<le> 90")
  case True
  then have "(code c + 32) mod 256 = code c + 32" by (intro mod_less) linarith
  with True show ?thesis by (simp only: lower_char_def if_True of_char_of simp_thms)
next
  case False
  then show ?thesis by (simp only: lower_char_def if_False)
qed

lemma char_code_eq: "c = d \<longleftrightarrow> code c = (code d)"
  by (rule iffI, simp, drule arg_cong [where f = char_of]) (simp only: char_of_char)

lemma lower_char_other:
  assumes "\<not> (65 \<le> code d \<and> code d \<le> 90)" and "\<not> (97 \<le> code d \<and> code d \<le> 122)"
  shows "lower_char c = d \<longleftrightarrow> c = d"
proof -
  have "code (lower_char c) = code d \<longleftrightarrow> code c = code d"
    using assms unfolding lower_char_code by presburger
  then show ?thesis by (simp only: char_code_eq)
qed

lemma underscore_code: "c = CHR ''_'' \<longleftrightarrow> code c = 95"
  by (simp only: char_code_eq) simp

lemma lower_char_classes [simp]:
  "space_char (lower_char c) = space_char c" "blank_char (lower_char c) = blank_char c"
  "isIdentStart (lower_char c) = isIdentStart c" "isDigit (lower_char c) = isDigit c"
  "isIdentPart (lower_char c) = isIdentPart c"
proof -
  show "space_char (lower_char c) = space_char c" "blank_char (lower_char c) = blank_char c"
    unfolding space_char_def blank_char_def lower_char_code insert_iff empty_iff by presburger+
  show st: "isIdentStart (lower_char c) = isIdentStart c" and dg: "isDigit (lower_char c) = isDigit c"
    unfolding isIdentStart_def isDigit_def underscore_code lower_char_code by presburger+
  show "isIdentPart (lower_char c) = isIdentPart c" by (simp only: isIdentPart_def st dg)
qed

lemma lower_char_marks [simp]:
  "lower_char c = CHR ''-'' \<longleftrightarrow> c = CHR ''-''" "lower_char c = CHR ''/'' \<longleftrightarrow> c = CHR ''/''"
  "lower_char c = CHR ''*'' \<longleftrightarrow> c = CHR ''*''" "lower_char c = quote \<longleftrightarrow> c = quote"
  "lower_char c = dquote \<longleftrightarrow> c = dquote" "lower_char c = CHR ''$'' \<longleftrightarrow> c = CHR ''$''"
  "lower_char c = CHR ''('' \<longleftrightarrow> c = CHR ''(''" "lower_char c = CHR '')'' \<longleftrightarrow> c = CHR '')''"
  "lower_char c = CHR ''.'' \<longleftrightarrow> c = CHR ''.''" "lower_char c = newline \<longleftrightarrow> c = newline"
  "lower_char c = CHR '';'' \<longleftrightarrow> c = CHR '';''"
  by (rule lower_char_other; simp)+

lemma lower_dquote: "lower_char dquote = dquote"
  by simp

lemma lower_idem [simp]: "lower_char (lower_char c) = lower_char c"
proof -
  have "code (lower_char (lower_char c)) = code (lower_char c)" unfolding lower_char_code by presburger
  then show ?thesis by (simp only: char_code_eq)
qed

lemma ToLower_idem [simp]: "ToLower (ToLower s) = ToLower s"
  by (simp add: ToLower_def)

lemma ToLower_simps [simp]: "ToLower [] = []" "ToLower (c # s) = lower_char c # ToLower s"
  "ToLower s = [] \<longleftrightarrow> s = []" "length (ToLower s) = length s" "ToLower (s @ t) = ToLower s @ ToLower t"
  by (simp_all add: ToLower_def)

lemma starts_lower [simp]:
  "starts CHR ''-'' (ToLower s) = starts CHR ''-'' s" "starts CHR ''*'' (ToLower s) = starts CHR ''*'' s"
  by (cases s; simp)+

lemma while_lower:
  assumes "\<And>c. P (lower_char c) = P c"
  shows "dropWhile P (ToLower s) = ToLower (dropWhile P s)" and "takeWhile P (ToLower s) = ToLower (takeWhile P s)"
  by (induction s) (simp_all add: assms)

lemma tl_lower: "tl (ToLower s) = ToLower (tl s)" "drop n (ToLower s) = ToLower (drop n s)"
  "take n (ToLower s) = ToLower (take n s)"
  by (simp_all add: ToLower_def map_tl drop_map take_map)

lemma skip_lower:
  "skip_line (ToLower s) = ToLower (skip_line s)"
  "skip_block d (ToLower s) = ToLower (skip_block d s)"
  "skip_squote (ToLower s) = ToLower (skip_squote s)"
  "read_dquote (ToLower s) = map_prod ToLower ToLower (read_dquote s)"
proof -
  show "skip_line (ToLower s) = ToLower (skip_line s)"
    by (simp add: skip_line_def while_lower)
  show "skip_block d (ToLower s) = ToLower (skip_block d s)"
    by (induction d s rule: skip_block.induct) auto
  show "skip_squote (ToLower s) = ToLower (skip_squote s)"
    by (induction s rule: skip_squote.induct) auto
  show "read_dquote (ToLower s) = map_prod ToLower ToLower (read_dquote s)"
    by (induction s rule: read_dquote.induct) (auto simp: lower_dquote split: prod.splits)
qed

fun lower_tok :: "token \<Rightarrow> token" where
  "lower_tok (TWord w) = TWord (ToLower w)"
| "lower_tok t = t"

definition plain :: "string \<Rightarrow> bool" where
  "plain s \<longleftrightarrow> CHR ''$'' \<notin> set s"

lemma plain_simps [simp]: "plain []" "plain (c # s) \<longleftrightarrow> c \<noteq> CHR ''$'' \<and> plain s"
  "plain (ToLower s) = plain s" "plain (s @ t) \<longleftrightarrow> plain s \<and> plain t" "plain (rev s) = plain s"
proof -
  show "plain (ToLower s) = plain s"
    by (simp add: plain_def ToLower_def image_iff) (metis lower_char_marks(6))
qed (auto simp: plain_def)

lemma plain_sub: "plain s \<Longrightarrow> set t \<subseteq> set s \<Longrightarrow> plain t"
  by (auto simp: plain_def)

lemma skip_subset:
  "set (skip_line s) \<subseteq> set s" "set (skip_block d s) \<subseteq> set s" "set (skip_squote s) \<subseteq> set s"
  "set (snd (read_dquote s)) \<subseteq> set s"
proof -
  show "set (skip_line s) \<subseteq> set s" by (auto simp: skip_line_def dest: set_dropWhileD)
  show "set (skip_block d s) \<subseteq> set s" by (induction d s rule: skip_block.induct) auto
  show "set (skip_squote s) \<subseteq> set s" by (induction s rule: skip_squote.induct) auto
  show "set (snd (read_dquote s)) \<subseteq> set s"
    by (induction s rule: read_dquote.induct) (auto split: prod.splits)
qed

lemma plain_skip:
  assumes "plain s"
  shows "plain (skip_line (tl s))" "plain (skip_block d (tl s))" "plain (skip_squote s)"
    "plain (snd (read_dquote s))" "plain (dropWhile P s)"
proof -
  have tl: "plain (tl s)" using assms by (cases s) simp_all
  show "plain (skip_line (tl s))" using plain_sub [OF tl skip_subset(1)] .
  show "plain (skip_block d (tl s))" using plain_sub [OF tl skip_subset(2)] .
  show "plain (skip_squote s)" using plain_sub [OF assms skip_subset(3)] .
  show "plain (snd (read_dquote s))" using plain_sub [OF assms skip_subset(4)] .
  show "plain (dropWhile P s)" by (rule plain_sub [OF assms]) (auto dest: set_dropWhileD)
qed

lemma lex_lower: "plain s \<Longrightarrow> lex (ToLower s) = map lower_tok (lex s)"
proof (induction s rule: lex.induct)
  case 1
  then show ?case by simp
next
  case (2 c s)
  from "2.prems" have c: "c \<noteq> CHR ''$''" "plain s" by auto
  note p = plain_skip [OF c(2)]
  note steps = ToLower_simps(2) lex.simps(2) [of c s] lex.simps(2) [of "lower_char c" "ToLower s"]
    lower_char_classes lower_char_marks starts_lower
  consider (sp) "space_char c" | (line) "\<not> space_char c" "c = CHR ''-'' \<and> starts CHR ''-'' s"
    | (block) "\<not> space_char c" "\<not> (c = CHR ''-'' \<and> starts CHR ''-'' s)" "c = CHR ''/'' \<and> starts CHR ''*'' s"
    | (quote) "\<not> space_char c" "\<not> (c = CHR ''-'' \<and> starts CHR ''-'' s)" "\<not> (c = CHR ''/'' \<and> starts CHR ''*'' s)" "c = quote"
    | (dquote) "\<not> space_char c" "\<not> (c = CHR ''-'' \<and> starts CHR ''-'' s)" "\<not> (c = CHR ''/'' \<and> starts CHR ''*'' s)" "c \<noteq> quote" "c = dquote"
    | (other) "\<not> space_char c" "\<not> (c = CHR ''-'' \<and> starts CHR ''-'' s)" "\<not> (c = CHR ''/'' \<and> starts CHR ''*'' s)" "c \<noteq> quote" "c \<noteq> dquote"
    by blast
  then show ?case
  proof cases
    case sp
    then show ?thesis using "2.IH"(1) c(2) unfolding steps by simp
  next
    case line
    then show ?thesis using "2.IH"(2) p(1) unfolding steps by (simp add: tl_lower skip_lower)
  next
    case block
    then show ?thesis using "2.IH"(3) p(2) [of 1] unfolding steps by (simp add: tl_lower skip_lower)
  next
    case quote
    then show ?thesis using "2.IH"(4) p(3) unfolding steps by (simp add: skip_lower)
  next
    case dquote
    then show ?thesis using "2.IH"(5) p(4) unfolding steps by (simp add: skip_lower)
  next
    case other
    note IH = "2.IH"(8) [OF other c(1)] "2.IH"(9) [OF other c(1)] "2.IH"(10) [OF other c(1)]
      "2.IH"(11) [OF other c(1) _ _ _ _ p(5)] "2.IH"(12) [OF other c(1)]
    show ?thesis using c IH
      unfolding steps other [THEN if_not_P] c(1) [THEN if_not_P] by (simp add: while_lower)
  qed
qed

lemma scan_lower [simp]:
  "firstWord (map lower_tok ts) = firstWord ts"
  "words (map lower_tok ts) = words ts"
  "hasSecondWord (map lower_tok ts) w = hasSecondWord ts w"
  "depthZeroHasWord d (map lower_tok ts) w = depthZeroHasWord d ts w"
  "primaryCommandAfterWith d (map lower_tok ts) = primaryCommandAfterWith d ts"
proof -
  show "firstWord (map lower_tok ts) = firstWord ts"
    by (induction ts rule: firstWord.induct) simp_all
  show words: "words (map lower_tok ts) = words ts"
    by (induction ts rule: words.induct) simp_all
  show "hasSecondWord (map lower_tok ts) w = hasSecondWord ts w"
    by (simp add: hasSecondWord_def words)
  show "depthZeroHasWord d (map lower_tok ts) w = depthZeroHasWord d ts w"
    by (induction d ts w rule: depthZeroHasWord.induct) simp_all
  show "primaryCommandAfterWith d (map lower_tok ts) = primaryCommandAfterWith d ts"
    by (induction d ts rule: primaryCommandAfterWith.induct) simp_all
qed

lemma walk_name_lower:
  "walk_name w (map lower_tok ts) = map_prod id (map lower_tok) (walk_name w ts)"
  by (induction w ts rule: walk_name.induct) simp_all

lemma call_follows_lower [simp]: "call_follows (map lower_tok ts) = call_follows ts"
  by (cases ts rule: call_follows.cases) simp_all

lemma isProcInvoking_lower [simp]: "isProcInvoking b (map lower_tok ts) = isProcInvoking b ts"
proof (induction b ts rule: isProcInvoking.induct)
  case (2 b t ts)
  then show ?case
    by (cases t) (simp_all add: isProcInvoking.simps(2) walk_name_lower Let_def)
qed simp

lemma classifySingle_lower: "plain s \<Longrightarrow> classifySingle b (ToLower s) = classifySingle b s"
  by (simp only: classifySingle_def Let_def lex_lower scan_lower isProcInvoking_lower)

lemma skip_one_lower:
  "c \<noteq> CHR ''$'' \<Longrightarrow> skip_one d (lower_char c) (ToLower s) = map_prod id ToLower (skip_one d c s)"
  by (simp add: skip_one_def skip_lower tl_lower)

lemma blank_lower [simp]: "list_all blank_char (ToLower s) = list_all blank_char s"
  by (induction s) simp_all

lemma after_sub_subset: "set (after_sub pat s) \<subseteq> set s"
proof (induction pat s rule: after_sub.induct)
  case (2 pat c s)
  then show ?case using set_drop_subset [of "length pat" "c # s"] by (simp only: after_sub.simps) auto
qed simp

lemma dollarTag_subset: "dollarTag s = Some (tag, r) \<Longrightarrow> set r \<subseteq> set s"
  unfolding dollarTag_def Let_def
  by (auto split: if_splits dest!: set_dropWhileD dest: list.set_sel(2) [rotated] in_set_dropD simp flip: drop_Suc drop_0)

lemma skip_one_subset: "set (snd (skip_one d c s)) \<subseteq> set s"
proof -
  have tl: "set (tl s) \<subseteq> set s" by (cases s) auto
  have "set (drop 1 (skip_line (tl s))) \<subseteq> set s"
    using set_drop_subset skip_subset(1) [of "tl s"] tl by (meson subset_trans)
  moreover have "set (skip_block 1 (tl s)) \<subseteq> set s"
    using skip_subset(2) [of 1 "tl s"] tl by (rule subset_trans)
  moreover have "set (after_sub p r) \<subseteq> set s" if "dollarTag s = Some (tag, r)" for p tag r
    using after_sub_subset [of p r] dollarTag_subset [OF that] by (rule subset_trans)
  ultimately show ?thesis
    unfolding skip_one_def using skip_subset(3) [of s] by (simp split: option.split)
qed

lemma skip_one_plain: "plain s \<Longrightarrow> plain (snd (skip_one d c s))"
  by (rule plain_sub [OF _ skip_one_subset])

lemma index_lower:
  "plain s \<Longrightarrow> indexDepthZeroSemicolon n d (ToLower s) = indexDepthZeroSemicolon n d s"
proof (induction n d s rule: indexDepthZeroSemicolon.induct)
  case (2 n d c s)
  then have "plain (snd (skip_one d c s))" by (simp add: skip_one_plain)
  with 2 show ?case by (simp add: indexDepthZeroSemicolon.simps(2) skip_one_lower)
qed simp

lemma split_lower:
  "plain s \<Longrightarrow> splitOnDepthZeroSemicolons d (ToLower acc) (ToLower s) =
     map ToLower (splitOnDepthZeroSemicolons d acc s)"
proof (induction d acc s rule: splitOnDepthZeroSemicolons.induct)
  case (2 d acc c s)
  then have "plain (snd (skip_one d c s))" by (simp add: skip_one_plain)
  with 2 show ?case
    using tl_lower(3) [of _ "c # s"]
    by (simp add: splitOnDepthZeroSemicolons.simps(2) skip_one_lower Let_def)
qed simp

lemma TrimSpace_lower: "TrimSpace (ToLower s) = ToLower (TrimSpace s)"
proof -
  have r: "rev (ToLower t) = ToLower (rev t)" for t by (simp add: ToLower_def rev_map)
  show ?thesis by (simp add: TrimSpace_def while_lower r)
qed

lemma TrimSpace_subset: "set (TrimSpace s) \<subseteq> set s"
  unfolding TrimSpace_def set_rev by (auto dest!: set_dropWhileD)

lemma take_subset_skip: "set (take n (c # s)) \<subseteq> insert c (set s)"
  using set_take_subset [of n "c # s"] by simp

lemma split_subset:
  "p \<in> set (splitOnDepthZeroSemicolons d acc s) \<Longrightarrow> set p \<subseteq> set acc \<union> set s"
proof (induction d acc s arbitrary: p rule: splitOnDepthZeroSemicolons.induct)
  case (2 d acc c s)
  show ?case
  proof (cases "c = CHR '';'' \<and> d = 0")
    case True
    with "2.IH"(1) "2.prems" show ?thesis by (auto simp: splitOnDepthZeroSemicolons.simps(2))
  next
    case False
    let ?r = "snd (skip_one d c s)"
    let ?a = "acc @ take (length (c # s) - length ?r) (c # s)"
    have "set p \<subseteq> set ?a \<union> set ?r"
      using "2.IH"(2) [OF False refl] "2.prems" False
      by (simp only: splitOnDepthZeroSemicolons.simps(2) [of d acc c s] if_False Let_def)
    moreover have "set ?a \<subseteq> set acc \<union> insert c (set s)" using take_subset_skip by fastforce
    ultimately show ?thesis using skip_one_subset [of d c s] by auto
  qed
qed (auto split: if_splits)

lemma multi_lower:
  assumes "plain s"
  shows "classifyMultiStatement b (ToLower s) = classifyMultiStatement b s"
proof -
  have "classifySingle b (ToLower (TrimSpace p)) = classifySingle b (TrimSpace p)"
    if "p \<in> set (splitOnDepthZeroSemicolons 0 [] s)" for p
  proof -
    have "plain (TrimSpace p)"
      by (rule plain_sub [OF assms]) (use split_subset [OF that] TrimSpace_subset [of p] in auto)
    then show ?thesis by (rule classifySingle_lower)
  qed
  then show ?thesis
    using split_lower [OF assms, of 0 "[]"]
    by (simp add: classifyMultiStatement_def filter_map o_def TrimSpace_lower)
      (rule arg_cong [where f = "best_class ClassUnknown"], rule map_cong, simp_all)
qed

section \<open>Batches\<close>

lemma best_class_in: "best_class b cs \<in> insert b (set cs)"
proof (induction cs arbitrary: b)
  case (Cons c cs)
  from Cons [of "if stmtClassPriority b < stmtClassPriority c then c else b"] show ?case by auto
qed simp

lemma best_class_max: "c \<in> insert b (set cs) \<Longrightarrow> stmtClassPriority c \<le> stmtClassPriority (best_class b cs)"
proof (induction cs arbitrary: b c)
  case (Cons x cs)
  let ?b = "if stmtClassPriority b < stmtClassPriority x then x else b"
  have "stmtClassPriority ?b \<le> stmtClassPriority (best_class ?b cs)" using Cons.IH [of ?b ?b] by simp
  then show ?case using Cons.IH [of c ?b] Cons.prems by (auto split: if_splits)
qed simp

lemma best_class_Max:
  "stmtClassPriority (best_class b cs) = Max (stmtClassPriority ` insert b (set cs))"
proof (rule Max_eqI [symmetric])
  show "finite (stmtClassPriority ` insert b (set cs))" by simp
  show "n \<le> stmtClassPriority (best_class b cs)" if "n \<in> stmtClassPriority ` insert b (set cs)" for n
    using that best_class_max by (elim imageE) blast
  show "stmtClassPriority (best_class b cs) \<in> stmtClassPriority ` insert b (set cs)"
    using best_class_in by (rule imageI)
qed

lemma insert_image_nonempty: "f [] = u \<Longrightarrow> insert u (f ` {x \<in> A. x \<noteq> []}) = insert u (f ` A)"
  by auto

lemma skip_one_suffix: "suffix (snd (skip_one d c s)) s"
proof -
  have line: "suffix (skip_line r) r" for r by (simp add: skip_line_def suffix_dropWhile)
  have block: "suffix (skip_block k r) r" for k r
    by (induction k r rule: skip_block.induct) (auto simp: suffix_ConsI)
  have squote: "suffix (skip_squote r) r" for r
    by (induction r rule: skip_squote.induct) (auto simp: suffix_ConsI)
  have sub: "suffix (after_sub p r) r" for p r
    by (induction p r rule: after_sub.induct) (auto simp: suffix_ConsI suffix_drop)
  have tag: "suffix r s" if "dollarTag s = Some (t, r)" for t r
    using that suffix_dropWhile [of isIdentPart s]
    by (auto simp: dollarTag_def Let_def split: if_splits intro: suffix_order.trans [OF suffix_tl])
  have "suffix (drop 1 (skip_line (tl s))) s" "suffix (skip_block 1 (tl s)) s"
    using line [of "tl s"] block [of 1 "tl s"] suffix_tl [of s] suffix_drop [of 1]
    by (meson suffix_order.trans)+
  then show ?thesis
    using squote [of s] suffix_order.trans [OF sub tag]
    unfolding skip_one_def by (simp split: option.split)
qed

lemma skip_one_split:
  "take (length (c # s) - length (snd (skip_one d c s))) (c # s) @ snd (skip_one d c s) = c # s"
proof -
  from skip_one_suffix [of d c s] obtain p where "s = p @ snd (skip_one d c s)" by (auto simp: suffix_def)
  then have "suffix (snd (skip_one d c s)) (c # s)" by (auto simp: suffix_def intro: exI [of _ "c # p"])
  then show ?thesis by (metis suffix_take)
qed

fun join :: "string list \<Rightarrow> string" where
  "join [] = []"
| "join [p] = p"
| "join (p # q # ps) = p @ CHR '';'' # join (q # ps)"

lemma join_Cons: "ps \<noteq> [] \<Longrightarrow> join (p # ps) = p @ CHR '';'' # join ps"
  by (cases ps) simp_all

lemma split_join:
  "acc @ s \<in> {join (splitOnDepthZeroSemicolons d acc s), join (splitOnDepthZeroSemicolons d acc s) @ '';''}"
proof (induction d acc s rule: splitOnDepthZeroSemicolons.induct)
  case (2 d acc c s)
  show ?case
  proof (cases "c = CHR '';'' \<and> d = 0")
    case True
    note IH = "2.IH"(1) [OF True]
    show ?thesis
    proof (cases "splitOnDepthZeroSemicolons d [] s = []")
      case e: True
      with IH have "s = [] \<or> s = '';''" by simp
      moreover have "s \<noteq> '';''" using e True by (auto simp: splitOnDepthZeroSemicolons.simps(2))
      ultimately show ?thesis using True by (simp add: splitOnDepthZeroSemicolons.simps(2))
    next
      case False
      with IH True show ?thesis
        using splitOnDepthZeroSemicolons.simps(2) [of d acc c s] by (auto simp: join_Cons)
    qed
  next
    case False
    from "2.IH"(2) [OF False refl] False show ?thesis
      by (simp only: splitOnDepthZeroSemicolons.simps(2) [of d acc c s] if_False Let_def append_assoc skip_one_split)
  qed
qed simp

lemma split_blank: "list_all blank_char t \<Longrightarrow> t \<noteq> [] \<or> acc \<noteq> [] \<Longrightarrow> splitOnDepthZeroSemicolons 0 acc t = [acc @ t]"
proof (induction t arbitrary: acc)
  case (Cons c t)
  then have "code c \<in> {32, 9, 10, 13}" by (simp add: blank_char_def)
  then have "c \<noteq> CHR '';''" "c \<noteq> CHR ''-''" "c \<noteq> CHR ''/''" "c \<noteq> quote" "c \<noteq> CHR ''$''" "c \<noteq> CHR ''(''" "c \<noteq> CHR '')''"
    by auto
  with Cons show ?case by (simp add: splitOnDepthZeroSemicolons.simps(2) skip_one_def)
qed simp

definition scanners_agree :: "string \<Rightarrow> string list \<Rightarrow> nat option \<Rightarrow> bool" where
  "scanners_agree text pieces idx = (case idx of
       Some i \<Rightarrow> i < length text \<and> text ! i = CHR '';''
         \<and> pieces = take i text # splitOnDepthZeroSemicolons 0 [] (drop (Suc i) text)
     | None \<Rightarrow> pieces = (if text = [] then [] else [text])
         \<or> (\<exists>p t. text = p @ CHR '';'' # t \<and> list_all blank_char t \<and> pieces = p # (if t = [] then [] else [t])))"

lemma scanners_agree_acc:
  "scanners_agree (acc @ s) (splitOnDepthZeroSemicolons d acc s)
     (indexDepthZeroSemicolon (length acc + length s) d s)"
proof (induction d acc s rule: splitOnDepthZeroSemicolons.induct)
  case (1 d acc)
  then show ?case by (simp add: scanners_agree_def)
next
  case (2 d acc c s)
  show ?case
  proof (cases "c = CHR '';'' \<and> d = 0")
    case True
    then show ?thesis
      using split_blank [of s "[]"]
      by (auto simp: splitOnDepthZeroSemicolons.simps(2) indexDepthZeroSemicolon.simps(2) scanners_agree_def)
  next
    case False
    let ?r = "snd (skip_one d c s)"
    have "length (take (length (c # s) - length ?r) (c # s)) + length ?r = length (c # s)"
      using arg_cong [OF skip_one_split [of c s d], of length] by (simp only: length_append)
    with "2.IH"(2) [OF False refl] False show ?thesis
      by (simp only: splitOnDepthZeroSemicolons.simps(2) [of d acc c s] if_False Let_def append_assoc
          skip_one_split indexDepthZeroSemicolon.simps(2) [of _ d c s] length_append add.assoc)
  qed
qed

section \<open>Common table expressions\<close>

text \<open>The parenthesis depth after the tokens, unless a parenthesis closes below the start.\<close>

fun closes :: "nat \<Rightarrow> token list \<Rightarrow> nat option" where
  "closes k [] = Some k"
| "closes k (TLParen # ts) = closes (Suc k) ts"
| "closes 0 (TRParen # ts) = None"
| "closes (Suc k) (TRParen # ts) = closes k ts"
| "closes k (t # ts) = closes k ts"

lemma primary_closes:
  "closes k body = Some m \<Longrightarrow>
     primaryCommandAfterWith (Suc k) (body @ r) = primaryCommandAfterWith (Suc m) r"
  by (induction k body arbitrary: m rule: closes.induct) simp_all

lemma primary_body:
  "closes 0 body = Some 0 \<Longrightarrow>
     primaryCommandAfterWith 0 (TLParen # body @ TRParen # r) = primaryCommandAfterWith 0 r"
  by (simp add: primary_closes [of 0 body 0])

section \<open>Properties\<close>

text \<open>
  Classification ignores letter case: two texts without dollar quoting that agree up to
  case have the same class.
\<close>

theorem classify_case_insensitive:
  assumes "plain s" and "ToLower s = ToLower t"
  shows "Classify builtins s = Classify builtins t"
proof -
  have lower: "Classify builtins (ToLower u) = Classify builtins u" if "plain u" for u
    using that by (simp add: Classify_def index_lower multi_lower classifySingle_lower split: option.split)
  have "plain t" using assms plain_simps(3) by metis
  with assms lower show ?thesis by metis
qed

theorem classify_case_insensitive_witness:
  "Classify [] ''CALL p()'' = Classify [] ''call P()''"
  by (rule classify_case_insensitive) (simp add: plain_def, code_simp)

text \<open>
  C27: a text with several statements is split without loss, up to a final semicolon, and gets
  the class of one of its statements (or Unknown), of the highest priority among them.
\<close>

theorem classify_batch:
  assumes "indexDepthZeroSemicolon (length sql) 0 sql = Some i"
  shows "let pieces = splitOnDepthZeroSemicolons 0 [] sql;
             classes = insert ClassUnknown ((\<lambda>p. classifySingle builtins (TrimSpace p)) ` set pieces)
         in sql \<in> {join pieces, join pieces @ '';''}
            \<and> Classify builtins sql \<in> classes
            \<and> stmtClassPriority (Classify builtins sql) = Max (stmtClassPriority ` classes)"
proof -
  let ?pieces = "splitOnDepthZeroSemicolons 0 [] sql"
  let ?classes = "insert ClassUnknown ((\<lambda>p. classifySingle builtins (TrimSpace p)) ` set ?pieces)"
  let ?cs = "map (classifySingle builtins) (filter (\<lambda>stmt. stmt \<noteq> '''') (map TrimSpace ?pieces))"
  have c: "Classify builtins sql = best_class ClassUnknown ?cs"
    using assms by (simp add: Classify_def classifyMultiStatement_def)
  have "classifySingle builtins [] = ClassUnknown" by (simp add: classifySingle_def)
  then have eq: "insert ClassUnknown (set ?cs) = ?classes"
    using insert_image_nonempty [of "classifySingle builtins" ClassUnknown "TrimSpace ` set ?pieces"]
    by (simp only: set_map set_filter image_image)
  have "stmtClassPriority (Classify builtins sql) = Max (stmtClassPriority ` ?classes)"
    unfolding c eq [symmetric] by (rule best_class_Max)
  moreover have "Classify builtins sql \<in> ?classes" unfolding c eq [symmetric] by (rule best_class_in)
  ultimately show ?thesis using split_join [of "[]" sql 0] unfolding Let_def append_Nil by blast
qed

theorem classify_batch_witness:
  "indexDepthZeroSemicolon (length ''a;b'') 0 ''a;b'' = Some 1
   \<and> ''a;b'' \<in> {join (splitOnDepthZeroSemicolons 0 [] ''a;b''), join (splitOnDepthZeroSemicolons 0 [] ''a;b'') @ '';''}"
proof -
  have i: "indexDepthZeroSemicolon (length ''a;b'') 0 ''a;b'' = Some 1" by code_simp
  from classify_batch [OF i] i show ?thesis unfolding Let_def by blast
qed

text \<open>
  The scanner that decides whether a text holds several statements and the one that splits
  it find the same semicolon: at a hit the first piece ends there and the rest is split on; with
  no hit the text is one piece, or one piece with blank space behind its semicolon.
\<close>

theorem semicolon_scanners_agree:
  "scanners_agree sql (splitOnDepthZeroSemicolons 0 [] sql) (indexDepthZeroSemicolon (length sql) 0 sql)"
  using scanners_agree_acc [of "[]" sql 0] by simp

text \<open>
  A WITH statement over one common table expression is classified by its main command alone:
  when that is SELECT the class is a SELECT class, whatever the expression's body does.
\<close>

theorem with_main_command:
  assumes "lex sql = TWord w # TWord n # TWord a # TLParen # body @ TRParen # main"
    and "ToLower w = ''with''" and "ToLower a = ''as''"
    and "ToLower n \<notin> {''select'', ''insert'', ''update'', ''delete''}"
    and "closes 0 body = Some 0" and "firstWord main = ''select''" and "main = TWord s # rest"
  shows "classifySingle builtins sql =
           (if isProcInvoking builtins (lex sql) then ClassProcSelect else ClassPlainSelect)"
proof -
  have "primaryCommandAfterWith 0 (lex sql) = ''select''"
    using assms primary_body [of body main] by simp
  moreover have "firstWord (lex sql) = ''with''" using assms by simp
  ultimately show ?thesis by (simp add: classifySingle_def Let_def)
qed

theorem with_main_command_witness:
  "classifySingle [] ''WITH d AS (DELETE) SELECT'' = ClassPlainSelect"
proof -
  have l: "lex ''WITH d AS (DELETE) SELECT'' =
      TWord ''WITH'' # TWord ''d'' # TWord ''AS'' # TLParen # [TWord ''DELETE''] @ TRParen # [TWord ''SELECT'']"
    by code_simp
  have "\<not> isProcInvoking [] (lex ''WITH d AS (DELETE) SELECT'')"
    unfolding l by code_simp
  moreover have "ToLower ''WITH'' = ''with''" "ToLower ''AS'' = ''as''" "firstWord [TWord ''SELECT''] = ''select''"
    "ToLower ''d'' \<notin> {''select'', ''insert'', ''update'', ''delete''}" "closes 0 [TWord ''DELETE''] = Some 0"
    by code_simp+
  ultimately show ?thesis
    using with_main_command [OF l, of "''SELECT''" "[]" "[]"] by simp
qed

end
