(* ===== verification/Sql_Filter.thy ===== *)
theory Sql_Filter
  imports Classifier_Facts Trackers
begin

text \<open>
  The SQL filter: the per-connection transaction state machine of \<^verbatim>\<open>src/pkg/filter/state.go\<close> and the
  rule matrix and decision pipeline of \<^verbatim>\<open>decide.go\<close> and \<^verbatim>\<open>filter.go\<close>. A compiled regular expression
  is the predicate its \<^verbatim>\<open>MatchString\<close> computes, a zero-value \<^verbatim>\<open>Regexp\<close> is \<open>None\<close>. The mutex around
  each operation of the state machine makes it one atomic step.
\<close>

section \<open>Transaction state\<close>

type_synonym txStateMachine = "ConnID \<Rightarrow> TxStatus option"

definition NewStateMachine :: txStateMachine where
  "NewStateMachine = Map.empty"

definition OnReadyForQuery :: "ConnID \<Rightarrow> byte \<Rightarrow> txStateMachine \<Rightarrow> txStateMachine" where
  "OnReadyForQuery conn status m =
     (if status = of_char CHR ''I'' then m(conn \<mapsto> TxIdle)
      else if status = of_char CHR ''T'' then m(conn \<mapsto> TxInTx)
      else if status = of_char CHR ''E'' then m(conn \<mapsto> TxFailed)
      else m)"

fun OnStatement :: "ConnID \<Rightarrow> StmtClass \<Rightarrow> txStateMachine \<Rightarrow> txStateMachine" where
  "OnStatement conn ClassBegin m = m(conn \<mapsto> TxInTx)"
| "OnStatement conn ClassCommitRollback m = m(conn \<mapsto> TxIdle)"
| "OnStatement conn _ m = m"

definition State :: "ConnID \<Rightarrow> txStateMachine \<Rightarrow> TxStatus" where
  "State conn m = (case m conn of Some s \<Rightarrow> s | None \<Rightarrow> TxIdle)"

definition sm_Forget :: "ConnID \<Rightarrow> txStateMachine \<Rightarrow> txStateMachine" where
  "sm_Forget conn m = m(conn := None)"

section \<open>The rule matrix\<close>

datatype Action = Keep | Drop

record Rule =
  InTransaction :: Action
  OutTransaction :: Action

type_synonym Regexp = "(string \<Rightarrow> bool) option"

record filter_config =
  Mode :: string
  Rules :: "StmtClass \<Rightarrow> Rule option"
  ExcludePatterns :: "Regexp list"
  IncludePatterns :: "Regexp list"
  ReplayableProcedures :: "string list"
  BuiltinFunctions :: "string list"

definition allRuleClasses :: "StmtClass list" where
  "allRuleClasses = [ClassPlainSelect, ClassProcSelect, ClassCall, ClassDML, ClassDDL,
     ClassBegin, ClassCommitRollback, ClassCopyFrom, ClassUtility]"

definition rule_of :: "Action \<Rightarrow> Action \<Rightarrow> Rule" where
  "rule_of i out = \<lparr>InTransaction = i, OutTransaction = out\<rparr>"

definition defaultRules :: "StmtClass \<Rightarrow> Rule option" where
  "defaultRules = [ClassPlainSelect \<mapsto> rule_of Keep Drop, ClassProcSelect \<mapsto> rule_of Keep Keep,
     ClassCall \<mapsto> rule_of Keep Keep, ClassDML \<mapsto> rule_of Keep Keep, ClassDDL \<mapsto> rule_of Keep Keep,
     ClassBegin \<mapsto> rule_of Keep Keep, ClassCommitRollback \<mapsto> rule_of Keep Keep,
     ClassCopyFrom \<mapsto> rule_of Keep Keep, ClassUtility \<mapsto> rule_of Keep Keep]"

definition onlyKeep :: "StmtClass \<Rightarrow> StmtClass \<Rightarrow> Rule option" where
  "onlyKeep keep = fold (\<lambda>c m. m(c \<mapsto> if c = keep then rule_of Keep Keep else rule_of Drop Drop))
     allRuleClasses Map.empty"

definition resolveRules :: "filter_config \<Rightarrow> string + (StmtClass \<Rightarrow> Rule option)" where
  "resolveRules cfg = (let mode = ToLower (TrimSpace (Mode cfg)) in
     if mode = '''' \<or> mode = ''custom'' then Inr (defaultRules ++ Rules cfg)
     else if mode = ''write_only'' then Inr (defaultRules(ClassPlainSelect \<mapsto> rule_of Drop Drop))
     else if mode = ''all'' then Inr (defaultRules(ClassPlainSelect \<mapsto> rule_of Keep Keep))
     else if mode = ''ddl_only'' then Inr (onlyKeep ClassDDL)
     else if mode = ''dml_only'' then Inr (onlyKeep ClassDML)
     else Inl (Mode cfg))"

section \<open>The decision\<close>

record filterImpl =
  flt_builtins :: "string list"
  flt_rules :: "StmtClass \<Rightarrow> Rule option"
  flt_exclude :: "Regexp list"
  flt_include :: "Regexp list"
  flt_replayable :: "string list"

definition NewFilter :: "filter_config \<Rightarrow> string + filterImpl" where
  "NewFilter cfg = (case resolveRules cfg of
       Inl e \<Rightarrow> Inl e
     | Inr rules \<Rightarrow> Inr \<lparr>flt_builtins = NewClassifier (BuiltinFunctions cfg), flt_rules = rules,
         flt_exclude = ExcludePatterns cfg, flt_include = IncludePatterns cfg,
         flt_replayable = filter (\<lambda>name. name \<noteq> '''')
           (map (\<lambda>p. ToLower (TrimSpace p)) (ReplayableProcedures cfg))\<rparr>)"

definition matchesAny :: "Regexp list \<Rightarrow> string \<Rightarrow> bool" where
  "matchesAny res s = list_ex (\<lambda>re. case re of None \<Rightarrow> False | Some match \<Rightarrow> match s) res"

text \<open>The segments of a qualified name after its first word, and the tokens behind them.\<close>

fun name_segs :: "token list \<Rightarrow> string list \<times> token list" where
  "name_segs (TDot # TWord w # ts) = (case name_segs ts of (segs, rest) \<Rightarrow> (ToLower w # segs, rest))"
| "name_segs ts = ([], ts)"

lemma name_segs_length: "length (snd (name_segs ts)) \<le> length ts"
  by (induction ts rule: name_segs.induct) (auto split: prod.splits)

fun join_dots :: "string list \<Rightarrow> string" where
  "join_dots [] = []"
| "join_dots [s] = s"
| "join_dots (s # t # ss) = s @ CHR ''.'' # join_dots (t # ss)"

function replayable_scan :: "string list \<Rightarrow> token list \<Rightarrow> bool" where
  "replayable_scan rep [] = False"
| "replayable_scan rep (t # ts) = (case t of
     TWord w \<Rightarrow>
       let segs = ToLower w # fst (name_segs ts); rest = snd (name_segs ts) in
       if call_follows rest \<and> (last segs \<in> set rep \<or> join_dots segs \<in> set rep) then True
       else replayable_scan rep rest
   | _ \<Rightarrow> replayable_scan rep ts)"
  by pat_completeness auto
termination
  by (relation "measure (\<lambda>(r, ts). length ts)") (auto simp: name_segs_length less_Suc_eq_le)

declare replayable_scan.simps(2) [simp del]

definition invokesReplayable :: "filterImpl \<Rightarrow> string \<Rightarrow> bool" where
  "invokesReplayable f sql =
     (if flt_replayable f = [] then False else replayable_scan (flt_replayable f) (lex sql))"

definition ruleAction :: "filterImpl \<Rightarrow> StmtClass \<Rightarrow> TxStatus \<Rightarrow> Action" where
  "ruleAction f cls state = (case flt_rules f cls of
       None \<Rightarrow> Drop
     | Some r \<Rightarrow> if state = TxInTx then InTransaction r else OutTransaction r)"

definition decide :: "filterImpl \<Rightarrow> string \<Rightarrow> StmtClass \<Rightarrow> TxStatus \<Rightarrow> Action" where
  "decide f sql cls state =
     (if matchesAny (flt_exclude f) sql then Drop
      else if cls = ClassUnknown then Drop
      else if cls = ClassPlainSelect \<or> cls = ClassProcSelect then
        (if matchesAny (flt_include f) sql \<or> invokesReplayable f sql then Keep
         else ruleAction f cls state)
      else ruleAction f cls state)"

text \<open>The action, the class, and the call of the classification hook.\<close>

definition Decide :: "filterImpl \<Rightarrow> SQLEvent \<Rightarrow> TxStatus \<Rightarrow> Action \<times> StmtClass \<times> (StmtClass \<times> bool)" where
  "Decide f ev state = (let sql = SQL ev; cls = Classify (flt_builtins f) sql;
     action = decide f sql cls state in (action, cls, (cls, action = Keep)))"

section \<open>The state machine per connection\<close>

datatype sm_op = Ready byte | Stmt StmtClass | Gone

fun sm_step :: "ConnID \<Rightarrow> sm_op \<Rightarrow> txStateMachine \<Rightarrow> txStateMachine" where
  "sm_step c (Ready b) m = OnReadyForQuery c b m"
| "sm_step c (Stmt cls) m = OnStatement c cls m"
| "sm_step c Gone m = sm_Forget c m"

text \<open>The state an operation establishes, if any.\<close>

definition signal :: "sm_op \<Rightarrow> TxStatus option" where
  "signal op = (case op of
       Ready b \<Rightarrow> if b = of_char CHR ''I'' then Some TxIdle else if b = of_char CHR ''T'' then Some TxInTx
         else if b = of_char CHR ''E'' then Some TxFailed else None
     | Stmt cls \<Rightarrow> if cls = ClassBegin then Some TxInTx else if cls = ClassCommitRollback then Some TxIdle
         else None
     | Gone \<Rightarrow> Some TxIdle)"

definition sm_lstep :: "sm_op \<Rightarrow> TxStatus \<Rightarrow> TxStatus" where
  "sm_lstep op s = (case signal op of Some t \<Rightarrow> t | None \<Rightarrow> s)"

lemma OnStatement_eq: "OnStatement c cls m =
    (if cls = ClassBegin then m(c \<mapsto> TxInTx) else if cls = ClassCommitRollback then m(c \<mapsto> TxIdle) else m)"
  by (cases cls) simp_all

interpretation tx_states: conn_local "\<lambda>m c. State c m" sm_step "\<lambda>_. sm_lstep" "\<lambda>_. True"
proof (unfold_locales, goal_cases)
  case (1 m c op c')
  then show ?case
    by (cases op rule: sm_op.exhaust)
      (auto simp: State_def sm_lstep_def signal_def OnReadyForQuery_def sm_Forget_def
        OnStatement_eq)
qed simp

lemma sm_fold: "fold sm_lstep ops s = last (s # List.map_filter signal ops)"
  by (induction ops arbitrary: s) (auto simp: sm_lstep_def List.map_filter_simps split: option.splits)

section \<open>What a configuration promises\<close>

text \<open>The contract of a configuration: which classes its matrix keeps in which state.\<close>

definition config_keeps :: "filter_config \<Rightarrow> StmtClass \<Rightarrow> TxStatus \<Rightarrow> bool" where
  "config_keeps cfg cls state = (let mode = ToLower (TrimSpace (Mode cfg));
       custom = (mode = '''' \<or> mode = ''custom'') in
     case (if custom then Rules cfg cls else None) of
       Some r \<Rightarrow> (if state = TxInTx then InTransaction r else OutTransaction r) = Keep
     | None \<Rightarrow>
         if mode = ''ddl_only'' then cls = ClassDDL
         else if mode = ''dml_only'' then cls = ClassDML
         else if cls = ClassPlainSelect then mode = ''all'' \<or> custom \<and> state = TxInTx
         else cls \<noteq> ClassUnknown)"

lemma only_keep_rule: "onlyKeep k c = (if c = ClassUnknown then None
    else Some (if c = k then rule_of Keep Keep else rule_of Drop Drop))"
  by (cases c) (simp_all add: onlyKeep_def allRuleClasses_def)

lemma default_rule: "defaultRules c = (if c = ClassUnknown then None
    else Some (if c = ClassPlainSelect then rule_of Keep Drop else rule_of Keep Keep))"
  by (cases c) (simp_all add: defaultRules_def)

lemma NewFilter_rules:
  "NewFilter cfg = Inr f \<Longrightarrow> resolveRules cfg = Inr (flt_rules f)
     \<and> flt_exclude f = ExcludePatterns cfg \<and> flt_include f = IncludePatterns cfg
     \<and> flt_builtins f = NewClassifier (BuiltinFunctions cfg)"
  by (auto simp: NewFilter_def split: sum.splits)

lemma config_rule:
  assumes "NewFilter cfg = Inr f"
  shows "ruleAction f cls state = Keep \<longleftrightarrow> config_keeps cfg cls state"
proof -
  define mode where "mode = ToLower (TrimSpace (Mode cfg))"
  have r: "resolveRules cfg = Inr (flt_rules f)" using NewFilter_rules [OF assms] by blast
  have mode_cases: "mode = '''' \<or> mode = ''custom'' \<or> mode = ''write_only'' \<or> mode = ''all''
      \<or> mode = ''ddl_only'' \<or> mode = ''dml_only''"
    using r unfolding resolveRules_def Let_def mode_def by (meson Inl_Inr_False)
  note defs = rule_of_def default_rule only_keep_rule
  have rules: "flt_rules f = (if mode = '''' \<or> mode = ''custom'' then defaultRules ++ Rules cfg
      else if mode = ''write_only'' then defaultRules(ClassPlainSelect \<mapsto> rule_of Drop Drop)
      else if mode = ''all'' then defaultRules(ClassPlainSelect \<mapsto> rule_of Keep Keep)
      else if mode = ''ddl_only'' then onlyKeep ClassDDL else onlyKeep ClassDML)"
    using r mode_cases unfolding resolveRules_def Let_def mode_def [symmetric] by (elim disjE) simp_all
  from mode_cases show ?thesis
    unfolding ruleAction_def rules config_keeps_def mode_def [symmetric] Let_def
    by (elim disjE) (simp_all add: defs map_add_def split: option.split)
qed

section \<open>Calls in a statement\<close>

text \<open>The qualified names that are followed by an opening parenthesis.\<close>

function called :: "token list \<Rightarrow> string list list" where
  "called [] = []"
| "called (t # ts) = (case t of
     TWord w \<Rightarrow> (if call_follows (snd (name_segs ts)) then [ToLower w # fst (name_segs ts)] else [])
       @ called (snd (name_segs ts))
   | _ \<Rightarrow> called ts)"
  by pat_completeness auto
termination
  by (relation "measure length") (auto simp: name_segs_length less_Suc_eq_le)

declare called.simps(2) [simp del]

lemma walk_name_segs: "walk_name w ts = (last (w # fst (name_segs ts)), snd (name_segs ts))"
  by (induction w ts rule: walk_name.induct) (auto split: prod.splits)

lemma proc_invoking_called:
  "isProcInvoking b ts \<longleftrightarrow> list_ex (\<lambda>segs. hd segs \<notin> set sqlKeywordsBeforeParen
     \<and> last segs \<notin> set sqlKeywordsBeforeParen \<union> set b) (called ts)"
proof (induction ts rule: called.induct)
  case (2 t ts)
  then show ?case
    by (cases t) (simp_all add: isProcInvoking.simps(2) called.simps(2) walk_name_segs Let_def)
qed simp

lemma replayable_called:
  "replayable_scan rep ts \<longleftrightarrow> list_ex (\<lambda>segs. last segs \<in> set rep \<or> join_dots segs \<in> set rep) (called ts)"
proof (induction ts rule: called.induct)
  case (2 t ts)
  then show ?case
    by (cases t) (simp_all add: replayable_scan.simps(2) called.simps(2) Let_def)
qed simp

section \<open>Properties\<close>

text \<open>
  C28: a filter built from a configuration keeps a statement exactly when no exclude pattern
  matches, its class is known, and either it is a SELECT that an include pattern or a replayable
  procedure selects, or the configuration's contract keeps its class in the connection's state.
\<close>

theorem filter_contract:
  assumes "NewFilter cfg = Inr f"
  shows "fst (Decide f ev state) = Keep \<longleftrightarrow>
    (let cls = Classify (NewClassifier (BuiltinFunctions cfg)) (SQL ev) in
       \<not> matchesAny (ExcludePatterns cfg) (SQL ev) \<and> cls \<noteq> ClassUnknown
       \<and> (cls \<in> {ClassPlainSelect, ClassProcSelect}
            \<and> (matchesAny (IncludePatterns cfg) (SQL ev) \<or> invokesReplayable f (SQL ev))
          \<or> config_keeps cfg cls state))"
  using NewFilter_rules [OF assms] config_rule [OF assms]
  by (auto simp: Decide_def decide_def Let_def)

definition sample_config :: filter_config where
  "sample_config = \<lparr>Mode = ''ddl_only'', Rules = Map.empty, ExcludePatterns = [], IncludePatterns = [],
     ReplayableProcedures = [], BuiltinFunctions = []\<rparr>"

definition sample_filter :: filterImpl where
  "sample_filter = \<lparr>flt_builtins = NewClassifier [], flt_rules = onlyKeep ClassDDL, flt_exclude = [],
     flt_include = [], flt_replayable = []\<rparr>"

lemma ddl_mode: "ToLower (TrimSpace ''ddl_only'') = ''ddl_only''"
  by code_simp

lemma sample_new: "NewFilter sample_config = Inr sample_filter"
  by (simp add: NewFilter_def resolveRules_def sample_config_def ddl_mode sample_filter_def)

lemma drop_class: "Classify b ''drop'' = ClassDDL"
proof -
  have "lex ''drop'' = [TWord ''drop'']" "ToLower ''drop'' = ''drop''"
    "indexDepthZeroSemicolon (length ''drop'') 0 ''drop'' = None" by code_simp+
  then show ?thesis by (simp add: Classify_def classifySingle_def)
qed

theorem filter_contract_witness:
  "NewFilter sample_config = Inr sample_filter
   \<and> fst (Decide sample_filter ((zero_event conn_a)\<lparr>SQL := ''drop''\<rparr>) TxIdle) = Keep"
  using sample_new filter_contract [OF sample_new, of "(zero_event conn_a)\<lparr>SQL := ''drop''\<rparr>" TxIdle]
  by (simp add: sample_config_def matchesAny_def config_keeps_def ddl_mode drop_class)

text \<open>
  The transaction state of a connection is the one its last signal established, a known
  ReadyForQuery status, BEGIN, COMMIT or ROLLBACK, or its close; with none it is as before.
  What happens on other connections in between does not matter.
\<close>

theorem tx_state_last_signal:
  "State c (fold (\<lambda>(c', op). sm_step c' op) ops m) =
     last (State c m # List.map_filter signal (map snd (filter (\<lambda>(c', op). c' = c) ops)))"
  using tx_states.interleave [of c ops m] by (simp only: sm_fold simp_thms)

text \<open>
  Both call scanners look for the same calls: the class heuristic fires on a called name
  that is neither a keyword nor a builtin, the replay list on a called name or qualified name it
  holds.
\<close>

theorem call_scanners_agree:
  "isProcInvoking builtins (lex sql) = list_ex (\<lambda>segs. hd segs \<notin> set sqlKeywordsBeforeParen
      \<and> last segs \<notin> set sqlKeywordsBeforeParen \<union> set builtins) (called (lex sql))
   \<and> invokesReplayable f sql = list_ex (\<lambda>segs. last segs \<in> set (flt_replayable f)
      \<or> join_dots segs \<in> set (flt_replayable f)) (called (lex sql))"
proof -
  have none: "list_ex (\<lambda>segs. False) xs \<longleftrightarrow> False" for xs :: "string list list" by (induction xs) simp_all
  show ?thesis by (simp add: proc_invoking_called invokesReplayable_def replayable_called none)
qed

end
