(* ===== verification/Processor.thy ===== *)
theory Processor
  imports Framing Messages Sql_Filter
begin

text \<open>
  The stream processor, \<^verbatim>\<open>src/pkg/pipeline/processor.go\<close>: it turns the ordered byte streams of the
  connections into filtered events on the queue, over the framing parsers, the event builder, the
  trackers and the filter. The queue is seen through the calls of \<^verbatim>\<open>Enqueue\<close>, in order, and the
  metrics collector, which may be nil, through the calls it receives. The time \<^verbatim>\<open>OnBytes\<close> reads
  from the clock is its argument \<open>ts\<close>. Debug output is left out.
\<close>

section \<open>State\<close>

datatype metric_call = MParseError | MClassified StmtClass bool | MExecTime string int int

record ConnParsers =
  cp_Client :: streamParser
  cp_Server :: streamParser

record StreamProcessor =
  sp_cfg :: proto_config
  sp_q :: "SQLEvent list"
  sp_collector :: "metric_call list option"
  sp_sm :: txStateMachine
  sp_flt :: filterImpl
  sp_cls :: "string list"
  sp_eb :: EventBuilder
  sp_txGen :: TxIDGenerator
  sp_binder :: BindCorrelator
  sp_copies :: CopyTracker
  sp_timer :: SourceExecTimer
  sp_parsers :: "ConnID \<Rightarrow> ConnParsers option"
  sp_seq :: "ConnID \<Rightarrow> u64 option"
  sp_lastSQL :: "ConnID \<Rightarrow> string option"
  sp_onBytesCount :: int

definition NewStreamProcessor ::
  "proto_config \<Rightarrow> filter_config \<Rightarrow> metric_call list option \<Rightarrow> string + StreamProcessor" where
  "NewStreamProcessor pcfg fcfg collector = (case NewFilter fcfg of
       Inl e \<Rightarrow> Inl e
     | Inr flt \<Rightarrow> Inr \<lparr>sp_cfg = pcfg, sp_q = [], sp_collector = collector, sp_sm = NewStateMachine,
         sp_flt = flt, sp_cls = NewClassifier (BuiltinFunctions fcfg),
         sp_eb = \<lparr>eb_cfg = pcfg, eb_seq = (\<lambda>_. 0), eb_errors = 0\<rparr>, sp_txGen = NewTxIDGenerator,
         sp_binder = (\<lambda>_. Map.empty), sp_copies = NewCopyTracker, sp_timer = Map.empty,
         sp_parsers = Map.empty, sp_seq = Map.empty, sp_lastSQL = Map.empty, sp_onBytesCount = 0\<rparr>)"

definition collect :: "metric_call \<Rightarrow> StreamProcessor \<Rightarrow> StreamProcessor" where
  "collect m sp = sp\<lparr>sp_collector := map_option (\<lambda>l. l @ [m]) (sp_collector sp)\<rparr>"

definition Enqueue_call :: "SQLEvent \<Rightarrow> StreamProcessor \<Rightarrow> StreamProcessor" where
  "Enqueue_call ev sp = sp\<lparr>sp_q := sp_q sp @ [ev]\<rparr>"

text \<open>A call of the event builder; its parse-error hook is the collector's.\<close>

definition sp_Build :: "ConnID \<Rightarrow> PGMessage \<Rightarrow> int \<Rightarrow> StreamProcessor \<Rightarrow> SQLEvent option \<times> StreamProcessor" where
  "sp_Build conn msg ts sp = (let (r, eb) = Build conn msg ts (sp_eb sp);
     n = eb_errors eb - eb_errors (sp_eb sp) in
     (r, (collect MParseError ^^ n) (sp\<lparr>sp_eb := eb\<rparr>)))"

section \<open>Closing and resetting\<close>

definition OnClose :: "ConnID \<Rightarrow> StreamProcessor \<Rightarrow> StreamProcessor" where
  "OnClose conn sp = sp\<lparr>
     sp_sm := sm_Forget conn (sp_sm sp),
     sp_binder := binder_Forget conn (sp_binder sp),
     sp_copies := copy_Discard conn (sp_copies sp),
     sp_timer := timer_Forget conn (sp_timer sp),
     sp_txGen := tx_Reset conn (sp_txGen sp),
     sp_parsers := (sp_parsers sp)(conn := None),
     sp_seq := (sp_seq sp)(conn := None),
     sp_lastSQL := (sp_lastSQL sp)(conn := None)\<rparr>"

definition parsersFor :: "ConnID \<Rightarrow> StreamProcessor \<Rightarrow> ConnParsers \<times> StreamProcessor" where
  "parsersFor conn sp = (case sp_parsers sp conn of
       Some cp \<Rightarrow> (cp, sp)
     | None \<Rightarrow> let cp = \<lparr>cp_Client = NewParser True, cp_Server = NewParser False\<rparr> in
         (cp, sp\<lparr>sp_parsers := (sp_parsers sp)(conn \<mapsto> cp)\<rparr>))"

definition resetPoolerSession :: "ConnID \<Rightarrow> StreamProcessor \<Rightarrow> StreamProcessor" where
  "resetPoolerSession conn sp = sp\<lparr>
     sp_binder := binder_Forget conn (sp_binder sp),
     sp_copies := copy_Discard conn (sp_copies sp),
     sp_txGen := tx_Reset conn (sp_txGen sp),
     sp_timer := timer_Forget conn (sp_timer sp)\<rparr>"

definition ToUpper :: "string \<Rightarrow> string" where
  "ToUpper s = map (\<lambda>c. if 97 \<le> code c \<and> code c \<le> 122 then char_of (code c - 32) else c) s"

definition isPoolerResetQuery :: "string \<Rightarrow> bool" where
  "isPoolerResetQuery sql =
     (if length sql < 9 then False
      else let upper = ToUpper (TrimSpace sql) in
        upper = ''DISCARD ALL'' \<or> upper = ''RESET ALL'' \<or> upper = ''DEALLOCATE ALL''
        \<or> prefix ''DISCARD ALL;'' upper \<or> prefix ''RESET ALL;'' upper \<or> prefix ''DEALLOCATE ALL;'' upper)"

section \<open>Dispatching an event\<close>

definition seq_of :: "ConnID \<Rightarrow> StreamProcessor \<Rightarrow> u64" where
  "seq_of conn sp = (case sp_seq sp conn of Some n \<Rightarrow> n | None \<Rightarrow> 0)"

text \<open>The transaction group and the sequence number of the event, and its text remembered.\<close>

definition stamp :: "ConnID \<Rightarrow> StmtClass \<Rightarrow> SQLEvent \<Rightarrow> StreamProcessor \<Rightarrow> SQLEvent \<times> StreamProcessor" where
  "stamp conn cls ev sp =
     (let txGen = (if cls = ClassBegin then snd (tx_Advance conn (sp_txGen sp))
                   else if tx_Current conn (sp_txGen sp) = 0
                     \<and> (cls = ClassDML \<or> cls = ClassDDL \<or> cls = ClassCopyFrom)
                   then snd (tx_Advance conn (sp_txGen sp))
                   else sp_txGen sp);
          n = seq_of conn sp + 1 in
      (ev\<lparr>TxID := tx_Current conn txGen, Seq := n\<rparr>,
       sp\<lparr>sp_txGen := txGen, sp_seq := (sp_seq sp)(conn \<mapsto> n), sp_lastSQL := (sp_lastSQL sp)(conn \<mapsto> SQL ev)\<rparr>))"

definition offer :: "ConnID \<Rightarrow> SQLEvent \<Rightarrow> StreamProcessor \<Rightarrow> StreamProcessor" where
  "offer conn ev sp =
     (let (action, _, cls, kept) = Decide (sp_flt sp) ev (State conn (sp_sm sp));
          sp = collect (MClassified cls kept) sp in
      if action = Keep then Enqueue_call ev sp else sp)"

definition settle :: "ConnID \<Rightarrow> StmtClass \<Rightarrow> string \<Rightarrow> StreamProcessor \<Rightarrow> StreamProcessor" where
  "settle conn cls sql sp =
     (let sp = sp\<lparr>sp_sm := OnStatement conn cls (sp_sm sp)\<rparr>;
          sp = (if cls = ClassCommitRollback then sp\<lparr>sp_txGen := tx_Reset conn (sp_txGen sp)\<rparr> else sp) in
      if ConnectionPooler (sp_cfg sp) \<and> cls = ClassUtility \<and> isPoolerResetQuery sql
      then resetPoolerSession conn sp else sp)"

definition dispatch :: "ConnID \<Rightarrow> SQLEvent \<Rightarrow> StreamProcessor \<Rightarrow> StreamProcessor" where
  "dispatch conn ev sp =
     (let cls = Classify (sp_cls sp) (SQL ev); (ev, sp) = stamp conn cls ev sp in
      settle conn cls (SQL ev) (offer conn ev sp))"

section \<open>Client messages\<close>

definition oidsOf :: "ParamInfo list \<Rightarrow> u32 list" where
  "oidsOf params = map OID params"

definition on_parse :: "ConnID \<Rightarrow> PGMessage \<Rightarrow> int \<Rightarrow> StreamProcessor \<Rightarrow> StreamProcessor" where
  "on_parse conn msg ts sp = (case sp_Build conn msg ts sp of
       (Some ev, sp) \<Rightarrow> sp\<lparr>sp_binder := OnParse conn (StmtName ev) (SQL ev) (oidsOf (Params ev)) (sp_binder sp)\<rparr>
     | (None, sp) \<Rightarrow> sp)"

definition on_bind :: "ConnID \<Rightarrow> PGMessage \<Rightarrow> int \<Rightarrow> StreamProcessor \<Rightarrow> StreamProcessor" where
  "on_bind conn msg ts sp = (case OnBind conn (Payload msg) (sp_binder sp) of
       Some res \<Rightarrow>
         let ev = (zero_event conn)\<lparr>SQL := br_SQL res, StmtName := br_StmtName res, Params := br_Params res,
                    Extended := True, Timestamp := ts\<rparr>;
             sp = dispatch conn ev sp in
         sp\<lparr>sp_timer := OnClientQuery conn ts (sp_timer sp)\<rparr>
     | None \<Rightarrow> collect MParseError sp)"

definition on_copy_done :: "ConnID \<Rightarrow> int \<Rightarrow> StreamProcessor \<Rightarrow> StreamProcessor" where
  "on_copy_done conn ts sp = (case copy_Done conn (sp_copies sp) of
       (Some (sql, data), t) \<Rightarrow>
         dispatch conn ((zero_event conn)\<lparr>SQL := sql, CopyData := data, Timestamp := ts\<rparr>) (sp\<lparr>sp_copies := t\<rparr>)
     | (None, t) \<Rightarrow> sp\<lparr>sp_copies := t\<rparr>)"

definition on_query :: "ConnID \<Rightarrow> PGMessage \<Rightarrow> int \<Rightarrow> StreamProcessor \<Rightarrow> StreamProcessor" where
  "on_query conn msg ts sp = (case sp_Build conn msg ts sp of
       (None, sp) \<Rightarrow> sp
     | (Some ev, sp) \<Rightarrow>
         let sp = (if Classify (sp_cls sp) (SQL ev) = ClassCopyFrom
                   then sp\<lparr>sp_copies := copy_Start conn (SQL ev) (sp_copies sp)\<rparr>
                   else dispatch conn ev sp) in
         sp\<lparr>sp_timer := OnClientQuery conn ts (sp_timer sp)\<rparr>)"

definition handleClient :: "ConnID \<Rightarrow> int \<Rightarrow> PGMessage \<Rightarrow> StreamProcessor \<Rightarrow> StreamProcessor" where
  "handleClient conn ts msg sp =
     (if Type msg = 0 \<and> 4 \<le> length (Payload msg)
         \<and> be_get (take 4 (Payload msg)) = cancelRequestCode then sp
      else if Type msg = of_char CHR ''P'' then on_parse conn msg ts sp
      else if Type msg = of_char CHR ''B'' then on_bind conn msg ts sp
      else if Type msg = of_char CHR ''d'' then
        sp\<lparr>sp_copies := snd (copy_Data conn (Payload msg) (sp_copies sp))\<rparr>
      else if Type msg = of_char CHR ''c'' then on_copy_done conn ts sp
      else if Type msg = of_char CHR ''f'' then sp\<lparr>sp_copies := copy_Fail conn (sp_copies sp)\<rparr>
      else on_query conn msg ts sp)"

section \<open>Server messages\<close>

definition recordExec :: "ConnID \<Rightarrow> int \<Rightarrow> StreamProcessor \<Rightarrow> StreamProcessor" where
  "recordExec conn ts sp = (case OnBackendComplete conn ts (sp_timer sp) of (d, t) \<Rightarrow>
     let sp = sp\<lparr>sp_timer := t\<rparr> in
     case d of
       None \<Rightarrow> sp
     | Some d \<Rightarrow> if d \<le> 0 then sp
         else collect (MExecTime (case sp_lastSQL sp conn of Some s \<Rightarrow> s | None \<Rightarrow> '''') d 0) sp)"

definition handleServer :: "ConnID \<Rightarrow> int \<Rightarrow> PGMessage \<Rightarrow> StreamProcessor \<Rightarrow> StreamProcessor" where
  "handleServer conn ts msg sp =
     (if Type msg = of_char CHR ''Z'' then
        let sp = (case ExtractReadyForQuery msg of
                    Some status \<Rightarrow> sp\<lparr>sp_sm := OnReadyForQuery conn status (sp_sm sp)\<rparr>
                  | None \<Rightarrow> sp) in
        recordExec conn ts sp
      else if Type msg = of_char CHR ''C'' then recordExec conn ts sp
      else sp)"

section \<open>Bytes\<close>

definition OnBytes :: "ConnID \<Rightarrow> bool \<Rightarrow> bytes \<Rightarrow> int \<Rightarrow> StreamProcessor \<Rightarrow> StreamProcessor" where
  "OnBytes conn client data ts sp =
     (let sp = sp\<lparr>sp_onBytesCount := sp_onBytesCount sp + 1\<rparr>;
          (cp, sp) = parsersFor conn sp;
          ((msgs, err), p) = Feed data (if client then cp_Client cp else cp_Server cp);
          cp = (if client then cp\<lparr>cp_Client := p\<rparr> else cp\<lparr>cp_Server := p\<rparr>);
          sp = sp\<lparr>sp_parsers := (sp_parsers sp)(conn \<mapsto> cp)\<rparr>;
          sp = (if err \<noteq> None then collect MParseError sp else sp) in
      fold (if client then handleClient conn ts else handleServer conn ts) msgs sp)"

end
