(* ===== verification/Processor_Local.thy ===== *)
theory Processor_Local
  imports Processor
begin

text \<open>
  Connections do not influence each other: every handler of the stream processor depends on the
  entries of its own connection only and changes no other's.
\<close>

section \<open>What dispatch does\<close>

definition kept :: "StreamProcessor \<Rightarrow> ConnID \<Rightarrow> string \<Rightarrow> bool" where
  "kept sp conn sql \<longleftrightarrow>
     decide (sp_flt sp) sql (Classify (flt_builtins (sp_flt sp)) sql) (State conn (sp_sm sp)) = Keep"

definition pooled :: "StreamProcessor \<Rightarrow> string \<Rightarrow> bool" where
  "pooled sp sql \<longleftrightarrow> ConnectionPooler (sp_cfg sp) \<and> Classify (sp_cls sp) sql = ClassUtility
     \<and> isPoolerResetQuery sql"

definition tx_of :: "ConnID \<Rightarrow> SQLEvent \<Rightarrow> StreamProcessor \<Rightarrow> u64" where
  "tx_of conn ev sp = TxID (fst (stamp conn (Classify (sp_cls sp) (SQL ev)) ev sp))"

lemma settle_fields:
  "sp_q (settle c cls sql sp) = sp_q sp" "sp_seq (settle c cls sql sp) = sp_seq sp"
  "sp_lastSQL (settle c cls sql sp) = sp_lastSQL sp" "sp_sm (settle c cls sql sp) = OnStatement c cls (sp_sm sp)"
  "sp_cfg (settle c cls sql sp) = sp_cfg sp" "sp_flt (settle c cls sql sp) = sp_flt sp"
  "sp_cls (settle c cls sql sp) = sp_cls sp" "sp_eb (settle c cls sql sp) = sp_eb sp"
  "sp_parsers (settle c cls sql sp) = sp_parsers sp" "sp_onBytesCount (settle c cls sql sp) = sp_onBytesCount sp"
  by (simp_all add: settle_def resetPoolerSession_def Let_def)

lemma settle_session:
  fixes sp sql cls
  defines "p \<equiv> ConnectionPooler (sp_cfg sp) \<and> cls = ClassUtility \<and> isPoolerResetQuery sql"
  shows "sp_binder (settle c cls sql sp) = (if p then binder_Forget c (sp_binder sp) else sp_binder sp)"
    "sp_copies (settle c cls sql sp) = (if p then copy_Discard c (sp_copies sp) else sp_copies sp)"
    "sp_timer (settle c cls sql sp) = (if p then timer_Forget c (sp_timer sp) else sp_timer sp)"
  unfolding settle_def resetPoolerSession_def Let_def p_def
  by (cases "cls = ClassCommitRollback"; simp)+

lemma offer_eq:
  "offer c ev sp = (let cls = Classify (flt_builtins (sp_flt sp)) (SQL ev); k = kept sp c (SQL ev);
     sp' = collect (MClassified cls k) sp in if k then Enqueue_call ev sp' else sp')"
  by (simp add: offer_def Decide_def kept_def Let_def)

lemma offer_fields:
  "sp_q (offer c ev sp) = sp_q sp @ (if kept sp c (SQL ev) then [ev] else [])" "sp_seq (offer c ev sp) = sp_seq sp"
  "sp_lastSQL (offer c ev sp) = sp_lastSQL sp" "sp_sm (offer c ev sp) = sp_sm sp"
  "sp_cfg (offer c ev sp) = sp_cfg sp" "sp_flt (offer c ev sp) = sp_flt sp"
  "sp_cls (offer c ev sp) = sp_cls sp" "sp_eb (offer c ev sp) = sp_eb sp"
  "sp_parsers (offer c ev sp) = sp_parsers sp" "sp_onBytesCount (offer c ev sp) = sp_onBytesCount sp"
  "sp_binder (offer c ev sp) = sp_binder sp" "sp_copies (offer c ev sp) = sp_copies sp"
  "sp_timer (offer c ev sp) = sp_timer sp" "sp_txGen (offer c ev sp) = sp_txGen sp"
  by (simp_all add: offer_eq collect_def Enqueue_call_def Let_def)

lemma stamp_fields:
  "sp_q (snd (stamp c cls ev sp)) = sp_q sp" "sp_seq (snd (stamp c cls ev sp)) = (sp_seq sp)(c \<mapsto> seq_of c sp + 1)"
  "sp_lastSQL (snd (stamp c cls ev sp)) = (sp_lastSQL sp)(c \<mapsto> SQL ev)" "sp_sm (snd (stamp c cls ev sp)) = sp_sm sp"
  "sp_cfg (snd (stamp c cls ev sp)) = sp_cfg sp" "sp_flt (snd (stamp c cls ev sp)) = sp_flt sp"
  "sp_cls (snd (stamp c cls ev sp)) = sp_cls sp" "sp_eb (snd (stamp c cls ev sp)) = sp_eb sp"
  "sp_parsers (snd (stamp c cls ev sp)) = sp_parsers sp"
  "sp_onBytesCount (snd (stamp c cls ev sp)) = sp_onBytesCount sp"
  "sp_binder (snd (stamp c cls ev sp)) = sp_binder sp" "sp_copies (snd (stamp c cls ev sp)) = sp_copies sp"
  "sp_timer (snd (stamp c cls ev sp)) = sp_timer sp" "SQL (fst (stamp c cls ev sp)) = SQL ev"
  by (simp_all add: stamp_def Let_def)

lemma stamp_event:
  "fst (stamp c cls ev sp) = ev\<lparr>TxID := TxID (fst (stamp c cls ev sp)), Seq := seq_of c sp + 1\<rparr>"
  by (simp add: stamp_def Let_def)

lemma dispatch_split:
  "dispatch c ev sp = (let cls = Classify (sp_cls sp) (SQL ev); r = stamp c cls ev sp in
     settle c cls (SQL ev) (offer c (fst r) (snd r)))"
  by (simp add: dispatch_def Let_def split_beta stamp_fields)

lemma kept_stamp: "kept (snd (stamp c cls ev sp)) c sql = kept sp c sql"
  by (simp add: kept_def stamp_fields)

lemma dispatch_q [simp]:
  "sp_q (dispatch c ev sp) =
     sp_q sp @ (if kept sp c (SQL ev) then [ev\<lparr>TxID := tx_of c ev sp, Seq := seq_of c sp + 1\<rparr>] else [])"
  unfolding dispatch_split Let_def settle_fields offer_fields stamp_fields kept_stamp tx_of_def
  by (subst stamp_event) (rule refl)

lemma dispatch_state [simp]:
  "sp_seq (dispatch c ev sp) = (sp_seq sp)(c \<mapsto> seq_of c sp + 1)"
  "sp_lastSQL (dispatch c ev sp) = (sp_lastSQL sp)(c \<mapsto> SQL ev)"
  "sp_sm (dispatch c ev sp) = OnStatement c (Classify (sp_cls sp) (SQL ev)) (sp_sm sp)"
  "sp_cfg (dispatch c ev sp) = sp_cfg sp" "sp_flt (dispatch c ev sp) = sp_flt sp"
  "sp_cls (dispatch c ev sp) = sp_cls sp" "sp_eb (dispatch c ev sp) = sp_eb sp"
  "sp_parsers (dispatch c ev sp) = sp_parsers sp"
  "sp_onBytesCount (dispatch c ev sp) = sp_onBytesCount sp"
  unfolding dispatch_split Let_def settle_fields offer_fields stamp_fields by (rule refl)+

lemma dispatch_session [simp]:
  "sp_binder (dispatch c ev sp) = (if pooled sp (SQL ev) then binder_Forget c (sp_binder sp) else sp_binder sp)"
  "sp_copies (dispatch c ev sp) = (if pooled sp (SQL ev) then copy_Discard c (sp_copies sp) else sp_copies sp)"
  "sp_timer (dispatch c ev sp) = (if pooled sp (SQL ev) then timer_Forget c (sp_timer sp) else sp_timer sp)"
  unfolding dispatch_split Let_def settle_session offer_fields stamp_fields pooled_def by (rule refl)+

lemma collect_fixed [simp]:
  "sp_cfg (collect m sp) = sp_cfg sp" "sp_flt (collect m sp) = sp_flt sp" "sp_cls (collect m sp) = sp_cls sp"
  "sp_eb (collect m sp) = sp_eb sp" "sp_parsers (collect m sp) = sp_parsers sp" "sp_q (collect m sp) = sp_q sp"
  "sp_seq (collect m sp) = sp_seq sp" "sp_lastSQL (collect m sp) = sp_lastSQL sp" "sp_sm (collect m sp) = sp_sm sp"
  "sp_binder (collect m sp) = sp_binder sp" "sp_copies (collect m sp) = sp_copies sp"
  "sp_timer (collect m sp) = sp_timer sp" "sp_onBytesCount (collect m sp) = sp_onBytesCount sp"
  by (simp_all add: collect_def)

section \<open>One connection's part of the state\<close>

text \<open>
  What is left of a processor when only one connection is looked at: its entries of the
  per-connection stores, the events enqueued for it, and the configuration. The transaction
  identifiers come from a counter all connections share, so they are blanked.
\<close>

definition only :: "ConnID \<Rightarrow> (ConnID \<Rightarrow> 'a) \<Rightarrow> 'a \<Rightarrow> ConnID \<Rightarrow> 'a" where
  "only c f d = (\<lambda>x. if x = c then f x else d)"

definition blank_tx :: "SQLEvent \<Rightarrow> SQLEvent" where
  "blank_tx e = e\<lparr>TxID := 0\<rparr>"

definition events_of :: "ConnID \<Rightarrow> SQLEvent list \<Rightarrow> SQLEvent list" where
  "events_of c q = map blank_tx (filter (\<lambda>e. Conn e = c) q)"

definition conn_view :: "StreamProcessor \<Rightarrow> ConnID \<Rightarrow> StreamProcessor" where
  "conn_view sp c = \<lparr>sp_cfg = sp_cfg sp, sp_q = events_of c (sp_q sp), sp_collector = None,
     sp_sm = only c (sp_sm sp) None, sp_flt = sp_flt sp, sp_cls = sp_cls sp,
     sp_eb = \<lparr>eb_cfg = eb_cfg (sp_eb sp), eb_seq = (\<lambda>_. 0), eb_errors = 0\<rparr>, sp_txGen = NewTxIDGenerator,
     sp_binder = only c (sp_binder sp) Map.empty,
     sp_copies = \<lparr>ct_active = only c (ct_active (sp_copies sp)) None,
       ct_sizes = only c (ct_sizes (sp_copies sp)) 0, ct_overflow = only c (ct_overflow (sp_copies sp)) False,
       ct_maxBytes = ct_maxBytes (sp_copies sp)\<rparr>,
     sp_timer = only c (sp_timer sp) None, sp_parsers = only c (sp_parsers sp) None,
     sp_seq = only c (sp_seq sp) None, sp_lastSQL = only c (sp_lastSQL sp) None, sp_onBytesCount = 0\<rparr>"

lemma only_eq [simp]: "only c f d = only c g d \<longleftrightarrow> f c = g c"
  by (auto simp: only_def fun_eq_iff)

lemma only_at [simp]: "only c f d c = f c"
  by (simp add: only_def)

lemma only_idem [simp]: "only c (only c f d) d = only c f d"
  by (simp add: only_def fun_eq_iff)

lemma events_of_append [simp]: "events_of c (q @ q') = events_of c q @ events_of c q'"
  "events_of c [] = []" "events_of c [e] = (if Conn e = c then [blank_tx e] else [])"
  by (simp_all add: events_of_def)

lemma events_of_idem [simp]: "events_of c (events_of c q) = events_of c q"
  by (simp add: events_of_def blank_tx_def filter_map o_def)

lemma view_eq:
  "conn_view s c = conn_view s' c \<longleftrightarrow>
     sp_cfg s = sp_cfg s' \<and> sp_flt s = sp_flt s' \<and> sp_cls s = sp_cls s' \<and> eb_cfg (sp_eb s) = eb_cfg (sp_eb s')
     \<and> events_of c (sp_q s) = events_of c (sp_q s') \<and> sp_sm s c = sp_sm s' c \<and> sp_binder s c = sp_binder s' c
     \<and> ct_active (sp_copies s) c = ct_active (sp_copies s') c \<and> ct_sizes (sp_copies s) c = ct_sizes (sp_copies s') c
     \<and> ct_overflow (sp_copies s) c = ct_overflow (sp_copies s') c
     \<and> ct_maxBytes (sp_copies s) = ct_maxBytes (sp_copies s') \<and> sp_timer s c = sp_timer s' c
     \<and> sp_parsers s c = sp_parsers s' c \<and> sp_seq s c = sp_seq s' c \<and> sp_lastSQL s c = sp_lastSQL s' c"
  by (auto simp: conn_view_def)

lemma conn_view_idem [simp]: "conn_view (conn_view s c) c = conn_view s c"
  by (simp add: conn_view_def)

text \<open>An operation for one connection depends on its part and changes nothing of the others'.\<close>

definition confined :: "ConnID \<Rightarrow> (StreamProcessor \<Rightarrow> StreamProcessor) \<Rightarrow> bool" where
  "confined c f \<longleftrightarrow>
     (\<forall>s s'. conn_view s c = conn_view s' c \<longrightarrow> conn_view (f s) c = conn_view (f s') c)
     \<and> (\<forall>s c'. c' \<noteq> c \<longrightarrow> conn_view (f s) c' = conn_view s c')"

lemma confined_comp:
  assumes "confined c f" and "confined c g"
  shows "confined c (\<lambda>s. g (f s))"
proof -
  have "conn_view (g (f s)) c = conn_view (g (f s')) c" if "conn_view s c = conn_view s' c" for s s'
    using assms that unfolding confined_def by blast
  moreover have "conn_view (g (f s)) c' = conn_view s c'" if "c' \<noteq> c" for s c'
    using assms that unfolding confined_def by (metis (no_types))
  ultimately show ?thesis unfolding confined_def by blast
qed

lemma confined_id: "confined c id"
  by (simp add: confined_def)

lemma confined_fold: "(\<And>x. confined c (f x)) \<Longrightarrow> confined c (fold f xs)"
proof (induction xs)
  case Nil
  then show ?case by (simp only: fold.simps confined_id)
next
  case (Cons x xs)
  then show ?case using confined_comp [of c "f x" "fold f xs"] by (simp only: fold.simps comp_def)
qed

lemmas forget_defs = binder_Forget_def copy_Discard_def copy_Fail_def copy_clear_def timer_Forget_def sm_Forget_def

lemma dispatch_own:
  assumes "conn_view s c = conn_view s' c" and "Conn ev = c" and "ev\<lparr>Seq := 0\<rparr> = ev'\<lparr>Seq := 0\<rparr>"
  shows "conn_view (dispatch c ev s) c = conn_view (dispatch c ev' s') c"
proof -
  have ev: "SQL ev' = SQL ev" "Conn ev' = c" "blank_tx (ev\<lparr>TxID := t, Seq := n\<rparr>) = blank_tx (ev'\<lparr>TxID := t', Seq := n\<rparr>)" for t t' n
    using assms(2,3) by (cases ev; cases ev'; simp add: blank_tx_def)+
  have k: "kept s c sql = kept s' c sql" "pooled s sql = pooled s' sql" "seq_of c s = seq_of c s'" for sql
    using assms(1) by (simp_all add: view_eq kept_def pooled_def seq_of_def State_def)
  show ?thesis
    using assms(1,2) ev k
    by (simp add: view_eq forget_defs OnStatement_eq)
qed

lemma dispatch_other: "Conn ev = c \<Longrightarrow> c' \<noteq> c \<Longrightarrow> conn_view (dispatch c ev s) c' = conn_view s c'"
  by (auto simp: view_eq forget_defs OnStatement_eq)

section \<open>Every handler is confined\<close>

lemma Build_cfg: "eb_cfg (snd (Build c m ts b)) = eb_cfg b"
  by (simp add: Build_def eb_emit_def recordParseError_def Let_def split: option.split)

lemma Build_same:
  assumes "eb_cfg b = eb_cfg b'"
  shows "rel_option (\<lambda>e e'. e\<lparr>Seq := 0\<rparr> = e'\<lparr>Seq := 0\<rparr> \<and> Conn e = c) (fst (Build c m ts b)) (fst (Build c m ts b'))"
  using assms by (simp add: Build_def eb_emit_def zero_event_def Let_def split: option.split)

lemma collect_n_fixed:
  "conn_view ((collect m ^^ n) s) c = conn_view s c"
  by (induction n) (simp_all add: view_eq)

lemma sp_Build_fst: "fst (sp_Build c m ts s) = fst (Build c m ts (sp_eb s))"
  by (simp add: sp_Build_def Let_def split_beta)

lemma sp_Build_view: "conn_view (snd (sp_Build c m ts s)) c' = conn_view s c'"
proof -
  have "conn_view (s\<lparr>sp_eb := snd (Build c m ts (sp_eb s))\<rparr>) c' = conn_view s c'"
    by (simp add: view_eq Build_cfg)
  then show ?thesis by (simp add: sp_Build_def Let_def split_beta collect_n_fixed)
qed

lemma confinedI:
  assumes "\<And>s s'. conn_view s c = conn_view s' c \<Longrightarrow> conn_view (f s) c = conn_view (f s') c"
    and "\<And>s c'. c' \<noteq> c \<Longrightarrow> conn_view (f s) c' = conn_view s c'"
  shows "confined c f"
  using assms unfolding confined_def by blast

lemma after_Build:
  assumes "\<And>e. Conn e = c \<Longrightarrow> confined c (f e)"
    and "\<And>s e e'. e\<lparr>Seq := 0\<rparr> = e'\<lparr>Seq := 0\<rparr> \<Longrightarrow> Conn e = c \<Longrightarrow> conn_view (f e s) c = conn_view (f e' s) c"
  shows "confined c (\<lambda>s. case sp_Build c m ts s of (None, s) \<Rightarrow> s | (Some e, s) \<Rightarrow> f e s)"
    (is "confined c ?g")
proof (rule confinedI)
  fix s s' assume v: "conn_view s c = conn_view s' c"
  let ?r = "fst (Build c m ts (sp_eb s))" and ?r' = "fst (Build c m ts (sp_eb s'))"
  let ?s = "snd (sp_Build c m ts s)" and ?s' = "snd (sp_Build c m ts s')"
  have rel: "rel_option (\<lambda>e e'. e\<lparr>Seq := 0\<rparr> = e'\<lparr>Seq := 0\<rparr> \<and> Conn e = c) ?r ?r'"
    using v by (intro Build_same) (simp add: view_eq)
  have v': "conn_view ?s c = conn_view ?s' c" using v by (simp only: sp_Build_view)
  show "conn_view (?g s) c = conn_view (?g s') c"
    using rel
  proof (cases rule: option.rel_cases)
    case None
    then show ?thesis using v' by (simp add: split_beta sp_Build_fst)
  next
    case (Some e e')
    have "conn_view (f e ?s) c = conn_view (f e ?s') c"
      using assms(1) Some v' unfolding confined_def by blast
    also have "\<dots> = conn_view (f e' ?s') c" using assms(2) Some by blast
    finally show ?thesis using Some by (simp add: split_beta sp_Build_fst)
  qed
next
  fix s c' assume "c' \<noteq> c"
  let ?r = "fst (Build c m ts (sp_eb s))" and ?s = "snd (sp_Build c m ts s)"
  have "conn_view (f e ?s) c' = conn_view s c'" if "?r = Some e" for e
  proof -
    have "Conn e = c" using Build_same [of "sp_eb s" "sp_eb s" c m ts] that by simp
    then show ?thesis using assms(1) \<open>c' \<noteq> c\<close> sp_Build_view unfolding confined_def by metis
  qed
  then show "conn_view (?g s) c' = conn_view s c'"
    by (cases ?r) (simp_all add: split_beta sp_Build_fst sp_Build_view)
qed

lemma confined_dispatch: "Conn ev = c \<Longrightarrow> confined c (dispatch c ev)"
  by (rule confinedI, rule dispatch_own, assumption, assumption, rule refl, rule dispatch_other)

lemma confined_field:
  "confined c (\<lambda>s. s\<lparr>sp_timer := OnClientQuery c ts (sp_timer s)\<rparr>)"
  "confined c (\<lambda>s. s\<lparr>sp_binder := OnParse c n q os (sp_binder s)\<rparr>)"
  "confined c (\<lambda>s. s\<lparr>sp_copies := copy_Start c q (sp_copies s)\<rparr>)"
  "confined c (\<lambda>s. s\<lparr>sp_copies := copy_Fail c (sp_copies s)\<rparr>)"
  "confined c (\<lambda>s. s\<lparr>sp_copies := snd (copy_Data c p (sp_copies s))\<rparr>)"
  "confined c (collect mc)"
  unfolding confined_def view_eq
  by (simp_all add: OnClientQuery_def OnParse_def copy_Start_def copy_Fail_def copy_clear_def
      copy_Data_def Let_def split: option.split)

lemma confined_parse: "confined c (on_parse c m ts)"
proof -
  have eq: "on_parse c m ts = (\<lambda>s. case sp_Build c m ts s of (None, s) \<Rightarrow> s
     | (Some ev, s) \<Rightarrow> s\<lparr>sp_binder := OnParse c (StmtName ev) (SQL ev) (oidsOf (Params ev)) (sp_binder s)\<rparr>)"
    by (auto simp: fun_eq_iff on_parse_def split: prod.split option.split)
  show ?thesis unfolding eq
  proof (rule after_Build)
    fix s :: StreamProcessor and e e' :: SQLEvent
    assume "e\<lparr>Seq := 0\<rparr> = e'\<lparr>Seq := 0\<rparr>"
    then have "StmtName e = StmtName e'" "SQL e = SQL e'" "Params e = Params e'"
      by (cases e; cases e'; simp)+
    then show "conn_view (s\<lparr>sp_binder := OnParse c (StmtName e) (SQL e) (oidsOf (Params e)) (sp_binder s)\<rparr>) c
       = conn_view (s\<lparr>sp_binder := OnParse c (StmtName e') (SQL e') (oidsOf (Params e')) (sp_binder s)\<rparr>) c"
      by simp
  qed (rule confined_field)
qed

lemma dispatch_same:
  "e\<lparr>Seq := 0\<rparr> = e'\<lparr>Seq := 0\<rparr> \<Longrightarrow> Conn e = c \<Longrightarrow> conn_view (dispatch c e s) c = conn_view (dispatch c e' s) c"
  by (rule dispatch_own [OF refl])

lemma confinedD:
  "confined c f \<Longrightarrow> conn_view s c = conn_view s' c \<Longrightarrow> conn_view (f s) c = conn_view (f s') c"
  "confined c f \<Longrightarrow> c' \<noteq> c \<Longrightarrow> conn_view (f s) c' = conn_view s c'"
  unfolding confined_def by blast+

lemma confined_case:
  assumes "\<And>x. confined c (f x)" and "confined c g"
    and "\<And>s s'. conn_view s c = conn_view s' c \<Longrightarrow> v s = v s'"
  shows "confined c (\<lambda>s. case v s of Some x \<Rightarrow> f x s | None \<Rightarrow> g s)" (is "confined c ?h")
proof (rule confinedI)
  fix s s' assume s: "conn_view s c = conn_view s' c"
  show "conn_view (?h s) c = conn_view (?h s') c"
    unfolding assms(3) [OF s] using confinedD(1) [OF assms(1) s] confinedD(1) [OF assms(2) s]
    by (cases "v s'") (simp_all only: option.case)
next
  fix s c' assume "c' \<noteq> c"
  then show "conn_view (?h s) c' = conn_view s c'"
    using confinedD(2) [OF assms(1)] confinedD(2) [OF assms(2)] by (cases "v s") (simp_all only: option.case)
qed

lemma confined_if:
  assumes "confined c f" and "confined c g" and "\<And>s s'. conn_view s c = conn_view s' c \<Longrightarrow> b s = b s'"
  shows "confined c (\<lambda>s. if b s then f s else g s)" (is "confined c ?h")
proof -
  have eq: "?h = (\<lambda>s. case (if b s then Some () else None) of Some x \<Rightarrow> f s | None \<Rightarrow> g s)" by (simp add: fun_eq_iff)
  show ?thesis
    unfolding eq by (rule confined_case [OF assms(1,2)]) (drule assms(3), simp)
qed

lemma confined_query: "confined c (on_query c m ts)"
proof -
  let ?t = "\<lambda>s. s\<lparr>sp_timer := OnClientQuery c ts (sp_timer s)\<rparr>"
  let ?f = "\<lambda>ev s. ?t (if Classify (sp_cls s) (SQL ev) = ClassCopyFrom
      then s\<lparr>sp_copies := copy_Start c (SQL ev) (sp_copies s)\<rparr> else dispatch c ev s)"
  have eq: "on_query c m ts = (\<lambda>s. case sp_Build c m ts s of (None, s) \<Rightarrow> s | (Some ev, s) \<Rightarrow> ?f ev s)"
    by (auto simp: fun_eq_iff on_query_def Let_def split: prod.split option.split)
  have timer: "conn_view (?t s) c = conn_view (?t s') c" if "conn_view s c = conn_view s' c" for s s'
    using confined_field(1) that unfolding confined_def by blast
  show ?thesis unfolding eq
  proof (rule after_Build)
    fix e :: SQLEvent assume "Conn e = c"
    then show "confined c (?f e)"
      by (intro confined_comp [OF confined_if confined_field(1)] confined_field confined_dispatch)
        (simp_all add: view_eq)
  next
    fix s and e e' :: SQLEvent assume e: "e\<lparr>Seq := 0\<rparr> = e'\<lparr>Seq := 0\<rparr>" "Conn e = c"
    have "SQL e = SQL e'" using e(1) by (cases e; cases e'; simp)
    then show "conn_view (?f e s) c = conn_view (?f e' s) c"
      using timer [OF dispatch_same [OF e]] by simp
  qed
qed

lemma confined_bind: "confined c (on_bind c m ts)"
proof -
  have ev: "Conn ((zero_event c)\<lparr>SQL := q, StmtName := n, Params := p, Extended := True, Timestamp := ts\<rparr>) = c"
    for q n p by (simp add: zero_event_def)
  show ?thesis
    unfolding on_bind_def Let_def
    by (intro confined_case confined_comp [OF confined_dispatch [OF ev] confined_field(1)] confined_field)
      (simp add: view_eq OnBind_def)
qed

lemma copy_Done_eq:
  "copy_Done c t = (case ct_active t c of
     Some cb \<Rightarrow> (if ct_overflow t c then None else Some (cb_SQL cb, cb_Data cb), copy_clear c t)
   | None \<Rightarrow> (None, copy_clear c t))"
  by (simp add: copy_Done_def split: option.split bool.split)

lemma confined_clear: "confined c (\<lambda>s. s\<lparr>sp_copies := copy_clear c (sp_copies s)\<rparr>)"
  unfolding confined_def view_eq by (simp add: copy_clear_def)

lemma confined_copy_done: "confined c (on_copy_done c ts)"
proof -
  let ?ev = "\<lambda>r. (zero_event c)\<lparr>SQL := fst r, CopyData := snd r, Timestamp := ts\<rparr>"
  let ?clear = "\<lambda>s. s\<lparr>sp_copies := copy_clear c (sp_copies s)\<rparr>"
  have ev: "Conn (?ev r) = c" for r by (simp add: zero_event_def)
  have eq: "on_copy_done c ts = (\<lambda>s. case fst (copy_Done c (sp_copies s)) of
      Some r \<Rightarrow> dispatch c (?ev r) (?clear s) | None \<Rightarrow> ?clear s)"
    by (auto simp: fun_eq_iff on_copy_done_def copy_Done_eq split: option.split)
  show ?thesis
    unfolding eq
    by (intro confined_case confined_comp [OF confined_clear confined_dispatch [OF ev]] confined_clear)
      (simp add: view_eq copy_Done_eq split: option.split)
qed

lemma confined_client: "confined c (handleClient c ts m)"
  unfolding handleClient_def
  by (cases "Type m = 0 \<and> 4 \<le> length (Payload m) \<and> be_get (take 4 (Payload m)) = cancelRequestCode";
      cases "Type m = of_char CHR ''P''"; cases "Type m = of_char CHR ''B''"; cases "Type m = of_char CHR ''d''";
      cases "Type m = of_char CHR ''c''"; cases "Type m = of_char CHR ''f''")
    (simp_all only: if_True if_False simp_thms confined_id [unfolded id_def] confined_parse confined_bind confined_field
      confined_copy_done confined_query)

lemma confined_via:
  assumes "\<And>s c'. conn_view (f s) c' = conn_view (g s) c'" and "confined c g"
  shows "confined c f"
  by (rule confinedI; unfold assms(1)) (erule confinedD [OF assms(2)])+

lemma confined_exec: "confined c (recordExec c ts)"
proof (rule confined_via)
  let ?pop = "\<lambda>s. s\<lparr>sp_timer := snd (OnBackendComplete c ts (sp_timer s))\<rparr>"
  show "confined c ?pop"
    unfolding confined_def view_eq by (simp add: OnBackendComplete_def split: option.split)
  show "conn_view (recordExec c ts s) c' = conn_view (?pop s) c'" for s c'
    by (simp add: recordExec_def view_eq Let_def split: prod.split option.split)
qed

lemma confined_server: "confined c (handleServer c ts m)"
proof -
  have ready: "confined c (\<lambda>s. s\<lparr>sp_sm := OnReadyForQuery c b (sp_sm s)\<rparr>)" for b
    unfolding confined_def view_eq by (simp add: OnReadyForQuery_def)
  show ?thesis
    unfolding handleServer_def Let_def
    by (intro confined_if confined_comp [OF confined_case confined_exec] ready confined_exec confined_id [unfolded id_def] refl)
qed

text \<open>\<^verbatim>\<open>OnBytes\<close> in three parts: the bytes fed to the parser, the parser stored, the messages handled.\<close>

definition parsers_at :: "StreamProcessor \<Rightarrow> ConnID \<Rightarrow> ConnParsers" where
  "parsers_at s c = (case sp_parsers s c of Some cp \<Rightarrow> cp
     | None \<Rightarrow> \<lparr>cp_Client = NewParser True, cp_Server = NewParser False\<rparr>)"

definition fed :: "ConnID \<Rightarrow> bool \<Rightarrow> bytes \<Rightarrow> StreamProcessor \<Rightarrow> (PGMessage list \<times> frame_error option) \<times> streamParser" where
  "fed c client data s = Feed data (if client then cp_Client (parsers_at s c) else cp_Server (parsers_at s c))"

definition store_parser :: "ConnID \<Rightarrow> bool \<Rightarrow> streamParser \<Rightarrow> StreamProcessor \<Rightarrow> StreamProcessor" where
  "store_parser c client p s = s\<lparr>sp_onBytesCount := sp_onBytesCount s + 1, sp_parsers := (sp_parsers s)(c \<mapsto>
     (if client then (parsers_at s c)\<lparr>cp_Client := p\<rparr> else (parsers_at s c)\<lparr>cp_Server := p\<rparr>))\<rparr>"

definition handle_all ::
  "ConnID \<Rightarrow> bool \<Rightarrow> int \<Rightarrow> PGMessage list \<times> frame_error option \<Rightarrow> StreamProcessor \<Rightarrow> StreamProcessor" where
  "handle_all c client ts r s = fold (if client then handleClient c ts else handleServer c ts) (fst r)
     (if snd r \<noteq> None then collect MParseError s else s)"

lemma OnBytes_eq:
  "OnBytes c client data ts s =
     handle_all c client ts (fst (fed c client data s)) (store_parser c client (snd (fed c client data s)) s)"
  unfolding OnBytes_def parsersFor_def Let_def split_beta handle_all_def fed_def store_parser_def parsers_at_def
  by (cases "sp_parsers s c"; cases client) simp_all

lemma confined_handle: "confined c (handle_all c client ts r)"
  unfolding handle_all_def
  by (rule confined_comp [OF confined_if confined_fold])
    (simp_all add: confined_field confined_id [unfolded id_def] confined_client confined_server)

lemma confined_bytes: "confined c (OnBytes c client data ts)"
proof -
  have eq: "OnBytes c client data ts = (\<lambda>s. case Some (fed c client data s) of
      Some r \<Rightarrow> handle_all c client ts (fst r) (store_parser c client (snd r) s) | None \<Rightarrow> s)"
    by (simp add: fun_eq_iff OnBytes_eq)
  have store: "confined c (store_parser c client p)" for p
    unfolding confined_def view_eq by (simp add: store_parser_def parsers_at_def)
  show ?thesis
    unfolding eq
    by (intro confined_case confined_comp [OF store confined_handle] confined_id [unfolded id_def])
      (simp add: view_eq fed_def parsers_at_def)
qed

lemma confined_close: "confined c (OnClose c)"
  unfolding confined_def view_eq by (simp add: OnClose_def forget_defs)

end
