(* ===== verification/Processor_Correct.thy ===== *)
theory Processor_Correct
  imports Processor_Local
begin

text \<open>
  What the stream processor promises: connections are isolated, a closed connection leaves
  nothing behind, sequence numbers increase, and a stream of queries comes out as exactly the
  statements the filter keeps, in order.
\<close>

section \<open>Runs\<close>

datatype sp_op = Bytes bool bytes int | Closed

fun sp_step :: "ConnID \<Rightarrow> sp_op \<Rightarrow> StreamProcessor \<Rightarrow> StreamProcessor" where
  "sp_step c (Bytes client data ts) = OnBytes c client data ts"
| "sp_step c Closed = OnClose c"

definition sp_run :: "(ConnID \<times> sp_op) list \<Rightarrow> StreamProcessor \<Rightarrow> StreamProcessor" where
  "sp_run ops = fold (\<lambda>(c, op). sp_step c op) ops"

lemma confined_step: "confined c (sp_step c op)"
  by (cases op) (simp_all only: sp_step.simps confined_bytes confined_close)

interpretation sessions: conn_local conn_view sp_step "\<lambda>c op v. conn_view (sp_step c op v) c" "\<lambda>_. True"
proof (unfold_locales, goal_cases)
  case (1 s c op c')
  have "conn_view (sp_step c op s) c = conn_view (sp_step c op (conn_view s c)) c"
    by (rule confinedD(1) [OF confined_step]) (simp only: conn_view_idem)
  moreover have "conn_view (sp_step c op s) c' = conn_view s c'" if "c' \<noteq> c"
    using that by (rule confinedD(2) [OF confined_step])
  ultimately show ?case by (simp only: split: if_split) blast
qed simp

lemma run_view:
  "conn_view (sp_run ops s) c =
     fold (\<lambda>op v. conn_view (sp_step c op v) c) (map snd (filter (\<lambda>(c', op). c' = c) ops)) (conn_view s c)"
  using sessions.interleave [of ops s c] by (simp only: sp_run_def simp_thms)

lemma run_own: "conn_view (sp_run ops sp) c = conn_view (sp_run (filter (\<lambda>(c', op). c' = c) ops) sp) c"
proof -
  have "filter (\<lambda>(c', op). c' = c) (filter (\<lambda>(c', op). c' = c) ops) = filter (\<lambda>(c', op). c' = c) ops"
    by (simp add: filter_filter)
  then show ?thesis by (simp only: run_view)
qed

section \<open>The queue is only appended to\<close>

definition add_q :: "SQLEvent list \<Rightarrow> StreamProcessor \<Rightarrow> StreamProcessor" where
  "add_q qs s = s\<lparr>sp_q := qs @ sp_q s\<rparr>"

definition appends :: "(StreamProcessor \<Rightarrow> StreamProcessor) \<Rightarrow> bool" where
  "appends f \<longleftrightarrow> (\<forall>qs s. f (add_q qs s) = add_q qs (f s))"

lemma appends_comp: "appends f \<Longrightarrow> appends g \<Longrightarrow> appends (\<lambda>s. g (f s))"
  by (simp add: appends_def)

lemma appends_fold: "(\<And>x. appends (f x)) \<Longrightarrow> appends (fold f xs)"
  by (induction xs) (simp_all add: appends_def)

lemma add_q_fields [simp]:
  "sp_cfg (add_q qs s) = sp_cfg s" "sp_collector (add_q qs s) = sp_collector s" "sp_sm (add_q qs s) = sp_sm s"
  "sp_flt (add_q qs s) = sp_flt s" "sp_cls (add_q qs s) = sp_cls s" "sp_eb (add_q qs s) = sp_eb s"
  "sp_txGen (add_q qs s) = sp_txGen s" "sp_binder (add_q qs s) = sp_binder s" "sp_copies (add_q qs s) = sp_copies s"
  "sp_timer (add_q qs s) = sp_timer s" "sp_parsers (add_q qs s) = sp_parsers s" "sp_seq (add_q qs s) = sp_seq s"
  "sp_lastSQL (add_q qs s) = sp_lastSQL s" "sp_onBytesCount (add_q qs s) = sp_onBytesCount s"
  "sp_q (add_q qs s) = qs @ sp_q s"
  by (simp_all add: add_q_def)

lemma appends_collect: "appends (collect m)"
  by (simp add: appends_def collect_def add_q_def)

lemma appends_pow: "appends f \<Longrightarrow> appends (f ^^ n)"
  by (induction n) (simp_all add: appends_def)

lemma appends_dispatch: "appends (dispatch c ev)"
proof -
  have st: "stamp c cls ev (add_q qs s) = map_prod id (add_q qs) (stamp c cls ev s)" for cls qs s
    by (auto simp: stamp_def add_q_def seq_of_def Let_def)
  have of: "offer c ev (add_q qs s) = add_q qs (offer c ev s)" for ev qs s
    by (simp add: offer_eq kept_def collect_def Enqueue_call_def add_q_def Let_def)
  have se: "settle c cls sql (add_q qs s) = add_q qs (settle c cls sql s)" for cls sql qs s
    by (simp add: settle_def resetPoolerSession_def add_q_def Let_def)
  show ?thesis by (simp add: appends_def dispatch_split st of se Let_def)
qed

lemma appends_Build:
  "sp_Build c m ts (add_q qs s) = map_prod id (add_q qs) (sp_Build c m ts s)"
proof -
  have up: "(add_q qs s)\<lparr>sp_eb := e\<rparr> = add_q qs (s\<lparr>sp_eb := e\<rparr>)" for e by (simp add: add_q_def)
  have "(collect MParseError ^^ n) (add_q qs s) = add_q qs ((collect MParseError ^^ n) s)" for n s
    using appends_pow [OF appends_collect] by (simp add: appends_def)
  then show ?thesis by (simp add: sp_Build_def Let_def split_beta up)
qed

lemma add_q_update [simp]:
  "(add_q qs s)\<lparr>sp_timer := t\<rparr> = add_q qs (s\<lparr>sp_timer := t\<rparr>)" "(add_q qs s)\<lparr>sp_binder := b\<rparr> = add_q qs (s\<lparr>sp_binder := b\<rparr>)"
  "(add_q qs s)\<lparr>sp_copies := cp\<rparr> = add_q qs (s\<lparr>sp_copies := cp\<rparr>)" "(add_q qs s)\<lparr>sp_sm := m\<rparr> = add_q qs (s\<lparr>sp_sm := m\<rparr>)"
  "(add_q qs s)\<lparr>sp_parsers := p\<rparr> = add_q qs (s\<lparr>sp_parsers := p\<rparr>)"
  "(add_q qs s)\<lparr>sp_onBytesCount := n\<rparr> = add_q qs (s\<lparr>sp_onBytesCount := n\<rparr>)"
  "dispatch c ev (add_q qs s) = add_q qs (dispatch c ev s)" "collect mc (add_q qs s) = add_q qs (collect mc s)"
  using appends_dispatch appends_collect by (simp_all add: add_q_def appends_def)

lemma appends_client: "appends (handleClient c ts m)"
proof -
  have "on_parse c m ts (add_q qs s) = add_q qs (on_parse c m ts s)" for qs s
    by (cases "sp_Build c m ts s") (simp add: on_parse_def appends_Build split: option.split)
  moreover have "on_query c m ts (add_q qs s) = add_q qs (on_query c m ts s)" for qs s
    by (cases "sp_Build c m ts s") (simp add: on_query_def appends_Build Let_def split: option.split)
  moreover have "on_bind c m ts (add_q qs s) = add_q qs (on_bind c m ts s)" for qs s
    by (simp add: on_bind_def Let_def split: option.split)
  moreover have "on_copy_done c ts (add_q qs s) = add_q qs (on_copy_done c ts s)" for qs s
    by (simp add: on_copy_done_def split: option.split prod.split)
  ultimately show ?thesis by (simp add: appends_def handleClient_def)
qed

lemma appends_server: "appends (handleServer c ts m)"
proof -
  have "recordExec c ts (add_q qs s) = add_q qs (recordExec c ts s)" for qs s
    by (simp add: recordExec_def Let_def split: prod.split option.split)
  then show ?thesis by (simp add: appends_def handleServer_def Let_def split: option.split)
qed

lemma appends_step: "appends (sp_step c op)"
proof (cases op)
  case (Bytes client data ts)
  have "fold (handleClient c ts) ms (add_q qs s) = add_q qs (fold (handleClient c ts) ms s)"
    "fold (handleServer c ts) ms (add_q qs s) = add_q qs (fold (handleServer c ts) ms s)" for ms qs s
    using appends_fold [of "handleClient c ts" ms] appends_fold [of "handleServer c ts" ms] appends_client appends_server
    by (simp_all add: appends_def)
  moreover have "store_parser c client p (add_q qs s) = add_q qs (store_parser c client p s)"
    "fed c client data (add_q qs s) = fed c client data s" for p qs s
    by (simp_all add: store_parser_def fed_def parsers_at_def)
  ultimately show ?thesis
    by (simp add: Bytes appends_def OnBytes_eq handle_all_def)
next
  case Closed
  then show ?thesis by (simp add: appends_def OnClose_def add_q_def)
qed

lemma appends_run: "sp_run ops (add_q qs s) = add_q qs (sp_run ops s)"
  using appends_fold [of "\<lambda>(c, op). sp_step c op" ops] appends_step by (simp add: sp_run_def appends_def split_beta)

section \<open>What never changes\<close>

lemma other_conn: "\<exists>c'. c' \<noteq> (c :: ConnID)"
  by (rule exI [of _ "c\<lparr>SrcPort := SrcPort c + 1\<rparr>"]) (cases c, simp)

lemma step_fixed:
  "sp_cfg (sp_step c op s) = sp_cfg s \<and> sp_flt (sp_step c op s) = sp_flt s \<and> sp_cls (sp_step c op s) = sp_cls s
   \<and> eb_cfg (sp_eb (sp_step c op s)) = eb_cfg (sp_eb s)
   \<and> ct_maxBytes (sp_copies (sp_step c op s)) = ct_maxBytes (sp_copies s)"
proof -
  obtain c' where "c' \<noteq> c" using other_conn by blast
  then have "conn_view (sp_step c op s) c' = conn_view s c'" by (rule confinedD(2) [OF confined_step])
  then show ?thesis by (simp add: view_eq)
qed

lemma run_fixed:
  "sp_cfg (sp_run ops s) = sp_cfg s \<and> sp_flt (sp_run ops s) = sp_flt s \<and> sp_cls (sp_run ops s) = sp_cls s
   \<and> eb_cfg (sp_eb (sp_run ops s)) = eb_cfg (sp_eb s)
   \<and> ct_maxBytes (sp_copies (sp_run ops s)) = ct_maxBytes (sp_copies s)"
proof (induction ops arbitrary: s)
  case (Cons op ops)
  obtain c o1 where op: "op = (c, o1)" by (cases op)
  have "sp_run (op # ops) s = sp_run ops (sp_step c o1 s)" by (simp add: sp_run_def op)
  with Cons [of "sp_step c o1 s"] step_fixed [of c o1 s] show ?case by simp
qed (simp add: sp_run_def)

lemma new_processor:
  assumes "NewStreamProcessor pcfg fcfg col = Inr sp0"
  shows "sp_q sp0 = []" "sp_seq sp0 = Map.empty" "sp_parsers sp0 = Map.empty" "sp_sm sp0 = Map.empty"
    "sp_binder sp0 = (\<lambda>_. Map.empty)" "sp_timer sp0 = Map.empty" "sp_lastSQL sp0 = Map.empty"
    "ct_active (sp_copies sp0) = Map.empty" "ct_sizes (sp_copies sp0) = (\<lambda>_. 0)"
    "ct_overflow (sp_copies sp0) = (\<lambda>_. False)" "sp_cfg sp0 = pcfg" "NewFilter fcfg = Inr (sp_flt sp0)"
    "sp_cls sp0 = flt_builtins (sp_flt sp0)" "eb_cfg (sp_eb sp0) = pcfg"
  using assms NewFilter_rules [of fcfg "sp_flt sp0"]
  by (auto simp: NewStreamProcessor_def NewStateMachine_def NewCopyTracker_def NewCopyTrackerWithLimit_def
      split: sum.splits)

lemma closed_view:
  assumes "NewStreamProcessor pcfg fcfg col = Inr sp0"
  shows "conn_view (OnClose c (sp_run ops sp0)) c =
    conn_view (add_q (events_of c (sp_q (sp_run ops sp0))) sp0) c"
  using run_fixed [of ops sp0] new_processor [OF assms]
  by (simp add: view_eq OnClose_def forget_defs)

section \<open>A stream of queries\<close>

text \<open>What the filter lets through of a list of statements on one connection.\<close>

definition next_state :: "StmtClass \<Rightarrow> TxStatus \<Rightarrow> TxStatus" where
  "next_state cls st = (if cls = ClassBegin then TxInTx else if cls = ClassCommitRollback then TxIdle else st)"

fun expected :: "filterImpl \<Rightarrow> TxStatus \<Rightarrow> string list \<Rightarrow> string list" where
  "expected f st [] = []"
| "expected f st (q # qs) = (let cls = Classify (flt_builtins f) q in
     (if decide f q cls st = Keep then [q] else []) @ expected f (next_state cls st) qs)"

definition is_query :: "PGMessage \<Rightarrow> bool" where
  "is_query m \<longleftrightarrow> Type m = of_char CHR ''Q''"

definition query_of :: "PGMessage \<Rightarrow> string" where
  "query_of m = extractSimpleQuerySQL (Payload m)"

definition queries :: "PGMessage list \<Rightarrow> string list" where
  "queries ms = map query_of (filter is_query ms)"

text \<open>Messages that are neither extended-protocol nor COPY messages, with queries of a size and
  class that are dispatched at once.\<close>

definition simple_msg :: "proto_config \<Rightarrow> filterImpl \<Rightarrow> PGMessage \<Rightarrow> bool" where
  "simple_msg cfg f m \<longleftrightarrow>
     Type m \<notin> {of_char CHR ''P'', of_char CHR ''B'', of_char CHR ''d'', of_char CHR ''c'', of_char CHR ''f''}
     \<and> (is_query m \<longrightarrow> \<not> oversized cfg (query_of m) \<and> Classify (flt_builtins f) (query_of m) \<noteq> ClassCopyFrom)"

definition sqls_of :: "ConnID \<Rightarrow> StreamProcessor \<Rightarrow> string list" where
  "sqls_of c s = map SQL (filter (\<lambda>e. Conn e = c) (sp_q s))"

text \<open>The configuration a processor was built with.\<close>

definition built :: "proto_config \<Rightarrow> filterImpl \<Rightarrow> StreamProcessor \<Rightarrow> bool" where
  "built cfg f s \<longleftrightarrow> sp_flt s = f \<and> sp_cls s = flt_builtins f \<and> eb_cfg (sp_eb s) = cfg"

lemma simple_other:
  assumes "simple_msg cfg f m" and "\<not> is_query m"
  shows "handleClient c ts m s = s"
proof -
  have "sp_Build c m ts s = (None, s)"
    using assms by (simp add: simple_msg_def is_query_def sp_Build_def Build_def)
  then show ?thesis using assms by (simp add: simple_msg_def handleClient_def on_query_def)
qed

lemma simple_query:
  fixes c ts s m f
  assumes "simple_msg cfg f m" and "is_query m" and "built cfg f s"
  defines "s' \<equiv> handleClient c ts m s" and "cls \<equiv> Classify (flt_builtins f) (query_of m)"
  shows "built cfg f s'" "sp_parsers s' = sp_parsers s"
    "sqls_of c s' = sqls_of c s @ (if decide f (query_of m) cls (State c (sp_sm s)) = Keep then [query_of m] else [])"
    "State c (sp_sm s') = next_state cls (State c (sp_sm s))"
proof -
  have ty: "Type m = of_char CHR ''Q''" using assms(2) by (simp add: is_query_def)
  let ?r = "eb_emit c ts (query_of m) '''' False [] (sp_eb s)"
  let ?s1 = "s\<lparr>sp_eb := snd ?r\<rparr>"
  have B: "Build c m ts (sp_eb s) = (Some (fst ?r), snd ?r)"
    using assms(1-3) by (simp add: Build_def ty query_of_def simple_msg_def built_def Let_def prod_eq_iff)
  have ev: "SQL (fst ?r) = query_of m" "Conn (fst ?r) = c" "eb_errors (snd ?r) = eb_errors (sp_eb s)"
      "eb_cfg (snd ?r) = eb_cfg (sp_eb s)"
    by (simp_all add: eb_emit_def zero_event_def Let_def)
  have sB: "sp_Build c m ts s = (Some (fst ?r), ?s1)"
    by (simp add: sp_Build_def B ev Let_def)
  have cl: "sp_cls s = flt_builtins f" "sp_flt s = f" using assms(3) by (simp_all add: built_def)
  have "cls \<noteq> ClassCopyFrom" using assms(1,2) by (simp add: simple_msg_def cls_def)
  then have s': "s' = (dispatch c (fst ?r) ?s1)\<lparr>sp_timer := OnClientQuery c ts (sp_timer (dispatch c (fst ?r) ?s1))\<rparr>"
    by (simp add: s'_def handleClient_def ty on_query_def sB ev cl cls_def)
  show "built cfg f s'" "sp_parsers s' = sp_parsers s"
    using assms(3) by (simp_all add: s' built_def ev)
  show "sqls_of c s' = sqls_of c s @ (if decide f (query_of m) cls (State c (sp_sm s)) = Keep then [query_of m] else [])"
    by (simp add: s' sqls_of_def ev kept_def cl cls_def)
  show "State c (sp_sm s') = next_state cls (State c (sp_sm s))"
    by (simp add: s' ev cl cls_def State_def OnStatement_eq next_state_def)
qed

lemma simple_fold:
  assumes "built cfg f s" and "list_all (simple_msg cfg f) ms"
  shows "built cfg f (fold (handleClient c ts) ms s) \<and> sp_parsers (fold (handleClient c ts) ms s) = sp_parsers s
    \<and> sqls_of c (fold (handleClient c ts) ms s) = sqls_of c s @ expected f (State c (sp_sm s)) (queries ms)
    \<and> State c (sp_sm (fold (handleClient c ts) ms s))
        = fold (\<lambda>q. next_state (Classify (flt_builtins f) q)) (queries ms) (State c (sp_sm s))"
  using assms
proof (induction ms arbitrary: s)
  case Nil
  then show ?case by (simp add: queries_def)
next
  case (Cons m ms)
  show ?case
  proof (cases "is_query m")
    case True
    note q = simple_query [OF _ True Cons.prems(1), of c ts]
    have "simple_msg cfg f m" using Cons.prems by simp
    with q Cons.IH [of "handleClient c ts m s"] Cons.prems(2) True show ?thesis
      by (simp add: queries_def Let_def)
  next
    case False
    with simple_other [of cfg f m c ts s] Cons show ?thesis by (simp add: queries_def)
  qed
qed

lemma expected_append:
  "expected f st (qs @ qs') = expected f st qs
     @ expected f (fold (\<lambda>q. next_state (Classify (flt_builtins f) q)) qs st) qs'"
  by (induction qs arbitrary: st) (simp_all add: Let_def)

lemma chunks_run:
  assumes "built cfg f s" and "list_all (simple_msg cfg f) ms"
    and "well_framed_stream (inStartup p) ms" and "\<forall>m \<in> set ms. Length m \<le> maxFrameLength"
    and "cp_Client (parsers_at s c) = p" and "\<not> stalled p" and "buf p @ concat cs = encode_stream (inStartup p) ms"
    and "cs \<noteq> []"
  shows "sqls_of c (sp_run (map (\<lambda>d. (c, Bytes True d ts)) cs) s) = sqls_of c s @ expected f (State c (sp_sm s)) (queries ms)"
  using assms
proof (induction cs arbitrary: s ms p)
  case (Cons d cs)
  obtain ms1 ms2 b where F: "Feed d p = ((ms1, None), p\<lparr>inStartup := phase_after (inStartup p) ms1, buf := b\<rparr>)"
      "ms = ms1 @ ms2" "well_framed_stream (phase_after (inStartup p) ms1) ms2"
      "b @ concat cs = encode_stream (phase_after (inStartup p) ms1) ms2"
      "concat cs = [] \<longrightarrow> b = [] \<and> ms2 = []"
    using feed_step [OF Cons.prems(3,4,6), of d "concat cs"] Cons.prems(7) by auto
  let ?p = "p\<lparr>inStartup := phase_after (inStartup p) ms1, buf := b\<rparr>"
  let ?s1 = "store_parser c True ?p s"
  let ?s2 = "fold (handleClient c ts) ms1 ?s1"
  have s1: "built cfg f ?s1" "sqls_of c ?s1 = sqls_of c s" "sp_sm ?s1 = sp_sm s"
    using Cons.prems(1) by (simp_all add: built_def store_parser_def sqls_of_def)
  have bytes: "OnBytes c True d ts s = ?s2"
    using F(1) Cons.prems(5) by (simp add: OnBytes_eq fed_def handle_all_def)
  have run: "sp_run (map (\<lambda>d. (c, Bytes True d ts)) (d # cs)) s = sp_run (map (\<lambda>d. (c, Bytes True d ts)) cs) ?s2"
    by (simp add: sp_run_def bytes)
  have sub: "list_all (simple_msg cfg f) ms1" "list_all (simple_msg cfg f) ms2" using Cons.prems(2) F(2) by simp_all
  note two = simple_fold [OF s1(1) sub(1), of c ts]
  have pc: "cp_Client (parsers_at ?s2 c) = ?p" using two by (simp add: parsers_at_def store_parser_def)
  have q: "queries ms = queries ms1 @ queries ms2" by (simp add: queries_def F(2))
  show ?case
  proof (cases "cs = []")
    case True
    with F(2,5) have "ms = ms1" by simp
    then show ?thesis unfolding run using two s1 by (simp add: True sp_run_def)
  next
    case False
    have "sqls_of c (sp_run (map (\<lambda>d. (c, Bytes True d ts)) cs) ?s2)
        = sqls_of c ?s2 @ expected f (State c (sp_sm ?s2)) (queries ms2)"
      by (rule Cons.IH [of ?s2 ms2 ?p]) (use two sub(2) F pc Cons.prems(4,6) False in auto)
    then show ?thesis unfolding run using two s1 by (simp add: q expected_append)
  qed
qed simp

lemma sqls_view: "sqls_of c s = map SQL (sp_q (conn_view s c))"
  by (simp add: sqls_of_def conn_view_def events_of_def blank_tx_def)

section \<open>Sequence numbers\<close>

text \<open>
  \<open>k\<close> events were numbered for the connection between two states, those enqueued with increasing
  numbers among them.
\<close>

definition numbered :: "ConnID \<Rightarrow> StreamProcessor \<Rightarrow> nat \<Rightarrow> StreamProcessor \<Rightarrow> bool" where
  "numbered c s k s' \<longleftrightarrow> seq_of c s' = seq_of c s + of_nat k \<and>
     (\<exists>js. sorted_wrt (<) js \<and> set js \<subseteq> {1..k} \<and>
       map Seq (events_of c (sp_q s')) = map Seq (events_of c (sp_q s)) @ map (\<lambda>j. seq_of c s + of_nat j) js)"

lemma numbered_refl: "numbered c s 0 s"
  unfolding numbered_def by (intro conjI exI [of _ "[]"]) simp_all

lemma numbered_trans:
  assumes "numbered c s k s'" and "numbered c s' k' s''"
  shows "numbered c s (k + k') s''"
proof -
  obtain js where a: "seq_of c s' = seq_of c s + of_nat k" "sorted_wrt (<) js" "set js \<subseteq> {1..k}"
      "map Seq (events_of c (sp_q s')) = map Seq (events_of c (sp_q s)) @ map (\<lambda>j. seq_of c s + of_nat j) js"
    using assms(1) unfolding numbered_def by blast
  obtain js' where b: "seq_of c s'' = seq_of c s' + of_nat k'" "sorted_wrt (<) js'" "set js' \<subseteq> {1..k'}"
      "map Seq (events_of c (sp_q s'')) = map Seq (events_of c (sp_q s')) @ map (\<lambda>j. seq_of c s' + of_nat j) js'"
    using assms(2) unfolding numbered_def by blast
  let ?js = "js @ map (\<lambda>j. k + j) js'"
  have "sorted_wrt (<) ?js"
    using a(2,3) b(2,3) by (fastforce simp: sorted_wrt_append sorted_wrt_map)
  moreover have "set ?js \<subseteq> {1..k + k'}" using a(3) b(3) by fastforce
  moreover have "map Seq (events_of c (sp_q s'')) = map Seq (events_of c (sp_q s)) @ map (\<lambda>j. seq_of c s + of_nat j) ?js"
    using a(1,4) b(4) by (simp add: add.assoc)
  moreover have "seq_of c s'' = seq_of c s + of_nat (k + k')" using a(1) b(1) by (simp add: add.assoc)
  ultimately show ?thesis unfolding numbered_def by blast
qed

lemma numbered_same:
  "sp_seq s' c = sp_seq s c \<Longrightarrow> events_of c (sp_q s') = events_of c (sp_q s) \<Longrightarrow> numbered c s 0 s'"
  unfolding numbered_def by (auto simp: seq_of_def intro: exI [of _ "[]"])

lemma numbered_dispatch:
  "Conn ev = c \<Longrightarrow> numbered c s 1 (dispatch c ev s)"
  unfolding numbered_def
  by (auto simp: seq_of_def blank_tx_def intro: exI [of _ "[]"] exI [of _ "[1]"])

lemma numbered_cong:
  assumes "sp_seq s2 = sp_seq s1" and "sp_q s2 = sp_q s1" and "sp_seq s2' = sp_seq s1'" and "sp_q s2' = sp_q s1'"
  shows "numbered c s1 k s1' = numbered c s2 k s2'"
  using assms by (simp add: numbered_def seq_of_def)

definition at_most_one :: "ConnID \<Rightarrow> StreamProcessor \<Rightarrow> StreamProcessor \<Rightarrow> bool" where
  "at_most_one c s s' \<longleftrightarrow> numbered c s 0 s' \<or> numbered c s 1 s'"

lemma one_dispatch:
  assumes "Conn ev = c" and "sp_seq s1 = sp_seq s" "sp_q s1 = sp_q s"
    and "sp_seq s' = sp_seq (dispatch c ev s1)" "sp_q s' = sp_q (dispatch c ev s1)"
  shows "at_most_one c s s'"
  unfolding at_most_one_def
  using numbered_dispatch [OF assms(1), of s1] numbered_cong [of s s1 s' "dispatch c ev s1" c 1] assms(2-)
  by simp

lemma one_same: "sp_seq s' = sp_seq s \<Longrightarrow> sp_q s' = sp_q s \<Longrightarrow> at_most_one c s s'"
  unfolding at_most_one_def by (simp add: numbered_same)

lemma sp_Build_same:
  "sp_seq (snd (sp_Build c m ts s)) = sp_seq s" "sp_q (snd (sp_Build c m ts s)) = sp_q s"
proof -
  have "sp_seq ((collect mc ^^ n) s) = sp_seq s \<and> sp_q ((collect mc ^^ n) s) = sp_q s" for mc n s
    by (induction n) simp_all
  then show "sp_seq (snd (sp_Build c m ts s)) = sp_seq s" "sp_q (snd (sp_Build c m ts s)) = sp_q s"
    by (simp_all add: sp_Build_def Let_def split_beta)
qed

lemma Build_conn: "fst (sp_Build c m ts s) = Some ev \<Longrightarrow> Conn ev = c"
  using Build_same [of "sp_eb s" "sp_eb s" c m ts] by (simp add: sp_Build_fst)

lemma one_query: "at_most_one c s (on_query c m ts s)"
proof (cases "fst (sp_Build c m ts s)")
  case None
  then show ?thesis using sp_Build_same [of c m ts s] by (intro one_same) (simp_all add: on_query_def split_beta)
next
  case (Some ev)
  show ?thesis
  proof (cases "Classify (sp_cls (snd (sp_Build c m ts s))) (SQL ev) = ClassCopyFrom")
    case True
    with Some show ?thesis using sp_Build_same [of c m ts s] by (intro one_same) (simp_all add: on_query_def split_beta)
  next
    case False
    show ?thesis
      by (rule one_dispatch [OF Build_conn [OF Some] sp_Build_same(1) [of c m ts s] sp_Build_same(2)])
        (use Some False in \<open>simp_all add: on_query_def split_beta\<close>)
  qed
qed

lemma one_bind: "at_most_one c s (on_bind c m ts s)"
proof (cases "OnBind c (Payload m) (sp_binder s)")
  case None
  then show ?thesis by (intro one_same) (simp_all add: on_bind_def)
next
  case (Some res)
  let ?ev = "(zero_event c)\<lparr>SQL := br_SQL res, StmtName := br_StmtName res, Params := br_Params res,
    Extended := True, Timestamp := ts\<rparr>"
  have "Conn ?ev = c" by (simp add: zero_event_def)
  then show ?thesis
    by (rule one_dispatch [where ?s1.0 = s]) (simp_all add: on_bind_def Some Let_def)
qed

lemma one_copy_done: "at_most_one c s (on_copy_done c ts s)"
proof (cases "fst (copy_Done c (sp_copies s))")
  case None
  then show ?thesis by (intro one_same) (simp_all add: on_copy_done_def split_beta)
next
  case (Some r)
  let ?ev = "(zero_event c)\<lparr>SQL := fst r, CopyData := snd r, Timestamp := ts\<rparr>"
  let ?s1 = "s\<lparr>sp_copies := snd (copy_Done c (sp_copies s))\<rparr>"
  have "Conn ?ev = c" by (simp add: zero_event_def)
  moreover have "on_copy_done c ts s = dispatch c ?ev ?s1" using Some by (simp add: on_copy_done_def split_beta)
  ultimately show ?thesis by (intro one_dispatch [of ?ev c ?s1]) simp_all
qed

lemma one_client: "at_most_one c s (handleClient c ts m s)"
proof -
  have "at_most_one c s (on_parse c m ts s)"
    using sp_Build_same [of c m ts s]
    by (cases "sp_Build c m ts s") (auto simp: on_parse_def intro!: one_same split: option.split)
  then show ?thesis
    using one_query one_bind one_copy_done by (simp add: handleClient_def one_same)
qed

lemma client_numbered: "\<exists>k \<le> length ms. numbered c s k (fold (handleClient c ts) ms s)"
proof (induction ms arbitrary: s)
  case Nil
  then show ?case by (simp add: numbered_refl)
next
  case (Cons m ms)
  obtain j where j: "j \<le> 1" "numbered c s j (handleClient c ts m s)"
    using one_client [of c s ts m] unfolding at_most_one_def by auto
  obtain k where "k \<le> length ms" "numbered c (handleClient c ts m s) k (fold (handleClient c ts) ms (handleClient c ts m s))"
    using Cons by blast
  with numbered_trans [OF j(2)] j(1) show ?case by (intro exI [of _ "j + k"]) simp
qed

lemma server_same:
  "sp_seq (fold (handleServer c ts) ms s) = sp_seq s \<and> sp_q (fold (handleServer c ts) ms s) = sp_q s"
proof (induction ms arbitrary: s)
  case (Cons m ms)
  have "sp_seq (recordExec c ts s) = sp_seq s \<and> sp_q (recordExec c ts s) = sp_q s" for s
    by (simp add: recordExec_def Let_def split: prod.split option.split)
  then have "sp_seq (handleServer c ts m s) = sp_seq s \<and> sp_q (handleServer c ts m s) = sp_q s"
    by (simp add: handleServer_def Let_def split: option.split)
  with Cons show ?case by simp
qed simp

lemma Feed_consumes:
  "Feed data p = ((ms, e), p') \<Longrightarrow> length ms + length (buf p') \<le> length (buf p) + length data"
proof -
  have enc: "length ms \<le> length (encode_stream st ms)" for st ms
  proof (induction ms arbitrary: st)
    case (Cons m ms)
    have "1 \<le> length (encode_msg st m)" by (simp add: encode_msg_def encode_typed_def encode_startup_def)
    with Cons [of "st \<and> \<not> transitionToTyped m"] show ?case by simp
  qed simp
  have loop: "length ms + length b' \<le> length b" if "feed_loop st b = (ms, st', b', e)" for st b ms st' b' e
  proof -
    have "b = encode_stream st ms @ b'" using loop_sound [OF that] by blast
    then have "length b = length (encode_stream st ms) + length b'" by simp
    with enc [of ms st] show ?thesis by linarith
  qed
  obtain ms1 st1 b1 e1 where l: "feed_loop (inStartup p) (buf p @ data) = (ms1, st1, b1, e1)" by (metis surj_pair)
  assume "Feed data p = ((ms, e), p')"
  then show ?thesis using loop [OF l] by (auto simp: Feed_def l split: if_splits option.splits)
qed

text \<open>The bytes of the client stream still buffered for a connection.\<close>

definition pending :: "ConnID \<Rightarrow> StreamProcessor \<Rightarrow> nat" where
  "pending c s = length (buf (cp_Client (parsers_at s c)))"

fun client_bytes :: "sp_op \<Rightarrow> nat" where
  "client_bytes (Bytes True data ts) = length data"
| "client_bytes _ = 0"

lemma sp_Build_parsers: "sp_parsers (snd (sp_Build c m ts s)) = sp_parsers s"
proof -
  have "sp_parsers ((collect mc ^^ n) s) = sp_parsers s" for mc n s by (induction n) simp_all
  then show ?thesis by (simp add: sp_Build_def Let_def split_beta)
qed

lemma client_parsers: "sp_parsers (fold (handleClient c ts) ms s) = sp_parsers s"
proof (induction ms arbitrary: s)
  case (Cons m ms)
  have "sp_parsers (on_parse c m ts s) = sp_parsers s" "sp_parsers (on_query c m ts s) = sp_parsers s"
    using sp_Build_parsers [of c m ts s]
    by (cases "sp_Build c m ts s"; simp add: on_parse_def on_query_def Let_def split: option.split)+
  moreover have "sp_parsers (on_bind c m ts s) = sp_parsers s" "sp_parsers (on_copy_done c ts s) = sp_parsers s"
    by (simp_all add: on_bind_def on_copy_done_def Let_def split: option.split prod.split)
  ultimately have "sp_parsers (handleClient c ts m s) = sp_parsers s" by (simp add: handleClient_def)
  with Cons show ?case by simp
qed simp

lemma server_parsers: "sp_parsers (fold (handleServer c ts) ms s) = sp_parsers s"
proof (induction ms arbitrary: s)
  case (Cons m ms)
  have "sp_parsers (recordExec c ts s) = sp_parsers s" for s
    by (simp add: recordExec_def Let_def split: prod.split option.split)
  then have "sp_parsers (handleServer c ts m s) = sp_parsers s"
    by (simp add: handleServer_def Let_def split: option.split)
  with Cons show ?case by simp
qed simp

lemma bytes_numbered:
  "\<exists>k. numbered c s k (OnBytes c client data ts s)
     \<and> k + pending c (OnBytes c client data ts s) \<le> pending c s + client_bytes (Bytes client data ts)"
proof -
  obtain ms e p where F: "fed c client data s = ((ms, e), p)" by (metis surj_pair)
  let ?s1 = "if e \<noteq> None then collect MParseError (store_parser c client p s) else store_parser c client p s"
  have s1: "sp_seq ?s1 = sp_seq s" "sp_q ?s1 = sp_q s" "sp_parsers ?s1 = sp_parsers (store_parser c client p s)"
    by (simp_all add: store_parser_def)
  have bytes: "OnBytes c client data ts s = fold (if client then handleClient c ts else handleServer c ts) ms ?s1"
    by (simp only: OnBytes_eq F handle_all_def fst_conv snd_conv)
  show ?thesis
  proof (cases client)
    case True
    obtain k where k: "k \<le> length ms" "numbered c ?s1 k (fold (handleClient c ts) ms ?s1)"
      using client_numbered by blast
    have "numbered c s k (OnBytes c client data ts s)"
      using k(2) numbered_cong [of s ?s1 "OnBytes c client data ts s" "OnBytes c client data ts s"] s1(1,2)
      unfolding bytes by (simp add: True)
    moreover have "pending c (OnBytes c client data ts s) = length (buf p)"
      unfolding bytes pending_def parsers_at_def by (simp add: True client_parsers s1(3) store_parser_def)
    moreover have "length ms + length (buf p) \<le> pending c s + length data"
      using F Feed_consumes [of data "cp_Client (parsers_at s c)" ms e p] by (simp add: fed_def True pending_def)
    ultimately show ?thesis using k(1) True by (intro exI [of _ k]) auto
  next
    case False
    have "numbered c s 0 (OnBytes c client data ts s)"
      unfolding bytes by (rule numbered_same) (simp_all add: False server_same store_parser_def)
    moreover have "pending c (OnBytes c client data ts s) = pending c s"
      unfolding bytes pending_def by (simp add: False parsers_at_def server_parsers s1(3) store_parser_def split: option.split)
    ultimately show ?thesis by (intro exI [of _ 0]) simp
  qed
qed

lemma run_numbered:
  assumes "\<forall>(c', op) \<in> set ops. c' = c \<and> op \<noteq> Closed"
  shows "\<exists>k. numbered c s k (sp_run ops s) \<and> k + pending c (sp_run ops s)
    \<le> pending c s + sum_list (map (\<lambda>(c', op). client_bytes op) ops)"
  using assms
proof (induction ops arbitrary: s)
  case Nil
  then show ?case by (auto simp: sp_run_def intro: numbered_refl)
next
  case (Cons x ops)
  obtain client data ts where x: "x = (c, Bytes client data ts)" using Cons.prems by (cases x; cases "snd x") auto
  obtain j where j: "numbered c s j (OnBytes c client data ts s)"
      "j + pending c (OnBytes c client data ts s) \<le> pending c s + client_bytes (Bytes client data ts)"
    using bytes_numbered by blast
  let ?s = "OnBytes c client data ts s"
  obtain k where k: "numbered c ?s k (sp_run ops ?s)"
      "k + pending c (sp_run ops ?s) \<le> pending c ?s + sum_list (map (\<lambda>(c', op). client_bytes op) ops)"
    using Cons by auto
  have "sp_run (x # ops) s = sp_run ops ?s" by (simp add: sp_run_def x)
  with numbered_trans [OF j(1) k(1)] j(2) k(2) show ?case
    by (intro exI [of _ "j + k"]) (simp add: x)
qed

lemma words_increase:
  assumes "sorted_wrt (<) js" and "set js \<subseteq> {1..k}" and "k < 2 ^ 64"
  shows "sorted_wrt (<) (map (\<lambda>j. of_nat j :: u64) js)"
proof -
  have "(of_nat i :: u64) < of_nat j" if "i < j" "j \<in> set js" for i j
  proof -
    have "j < 2 ^ 64" using assms(2,3) that(2) by (meson atLeastAtMost_iff le_less_trans subsetD)
    with that(1) show ?thesis by (simp add: word_less_nat_alt unat_of_nat)
  qed
  then show ?thesis
    unfolding sorted_wrt_map by (rule sorted_wrt_mono_rel [OF _ assms(1)]) simp_all
qed

section \<open>Properties\<close>

text \<open>
  C7: connections are isolated: over any interleaving, everything the processor holds and has
  enqueued for a connection, transaction numbers apart, is what that connection's own operations
  alone would have left.
\<close>

theorem conn_isolation:
  "conn_view (sp_run ops sp) c = conn_view (sp_run (filter (\<lambda>(c', op). c' = c) ops) sp) c"
  by (rule run_own)


definition sample_proto :: proto_config where
  "sample_proto = \<lparr>MaxSQLLength = 0, ExtendedQuery = True, ConnectionPooler = True\<rparr>"

definition sample_processor :: StreamProcessor where
  "sample_processor = (case NewStreamProcessor sample_proto sample_config (Some []) of Inr sp \<Rightarrow> sp)"

lemma sample_processor_new: "NewStreamProcessor sample_proto sample_config (Some []) = Inr sample_processor"
  by (simp add: sample_processor_def NewStreamProcessor_def sample_new)


text \<open>
  Within a session the events enqueued for a connection carry strictly increasing sequence
  numbers, however the connection is interleaved with others, whatever message path they take and
  even if bytes are malformed, as long as fewer than 2^64 client bytes were seen.
\<close>

lemma session_numbers:
  assumes "NewStreamProcessor pcfg fcfg col = Inr sp0" and "(c, Closed) \<notin> set ops"
    and "sum_list (map (\<lambda>(c', op). if c' = c then client_bytes op else 0) ops) < 2 ^ 64"
  shows "sorted_wrt (<) (map Seq (events_of c (sp_q (sp_run ops sp0))))"
proof -
  let ?ops = "filter (\<lambda>(c', op). c' = c) ops"
  have own: "\<forall>(c', op) \<in> set ?ops. c' = c \<and> op \<noteq> Closed" using assms(2) by auto
  from run_numbered [OF own, of sp0] obtain k where k: "numbered c sp0 k (sp_run ?ops sp0)"
      "k + pending c (sp_run ?ops sp0) \<le> pending c sp0 + sum_list (map (\<lambda>(c', op). client_bytes op) ?ops)"
    by blast
  have "sum_list (map (\<lambda>(c', op). client_bytes op) ?ops)
      = sum_list (map (\<lambda>(c', op). if c' = c then client_bytes op else 0) ops)"
    by (induction ops) auto
  moreover have "pending c sp0 = 0" "seq_of c sp0 = 0" "events_of c (sp_q sp0) = []"
    using new_processor [OF assms(1)] by (simp_all add: pending_def parsers_at_def NewParser_def seq_of_def)
  ultimately have lim: "k < 2 ^ 64" using k(2) assms(3) by linarith
  obtain js where js: "sorted_wrt (<) js" "set js \<subseteq> {1..k}"
      "map Seq (events_of c (sp_q (sp_run ?ops sp0))) = map (\<lambda>j. of_nat j) js"
    using k(1) \<open>seq_of c sp0 = 0\<close> \<open>events_of c (sp_q sp0) = []\<close> unfolding numbered_def by auto
  have "events_of c (sp_q (sp_run ops sp0)) = events_of c (sp_q (sp_run ?ops sp0))"
    using run_own [of ops sp0 c] unfolding view_eq by blast
  with words_increase [OF js(1,2) lim] js(3) show ?thesis by (simp only:)
qed

lemma stream_selected:
  assumes "NewStreamProcessor pcfg fcfg col = Inr sp0"
    and "well_framed_stream True ms" and "\<forall>m \<in> set ms. Length m \<le> maxFrameLength"
    and "list_all (simple_msg pcfg (sp_flt sp0)) ms"
    and "concat cs = encode_stream True ms" and "cs \<noteq> []"
    and "filter (\<lambda>(c', op). c' = c) ops = map (\<lambda>d. (c, Bytes True d ts)) cs"
  shows "map SQL (filter (\<lambda>e. Conn e = c) (sp_q (sp_run ops sp0))) = expected (sp_flt sp0) TxIdle (queries ms)"
proof -
  note new = new_processor [OF assms(1)]
  have "built pcfg (sp_flt sp0) sp0" using new by (simp add: built_def)
  moreover have "cp_Client (parsers_at sp0 c) = NewParser True" using new by (simp add: parsers_at_def)
  ultimately have "sqls_of c (sp_run (map (\<lambda>d. (c, Bytes True d ts)) cs) sp0)
      = sqls_of c sp0 @ expected (sp_flt sp0) (State c (sp_sm sp0)) (queries ms)"
    using assms(2-6) by (intro chunks_run [where p = "NewParser True"]) (simp_all add: NewParser_def)
  moreover have "sqls_of c (sp_run ops sp0) = sqls_of c (sp_run (filter (\<lambda>(c', op). c' = c) ops) sp0)"
    unfolding sqls_view using run_own [of ops sp0 c] by simp
  ultimately show ?thesis using new assms(7) by (simp add: sqls_of_def State_def)
qed


definition start_msg :: PGMessage where
  "start_msg = \<lparr>Type = 0, Length = 8, Payload = [0, 3, 0, 0]\<rparr>"

definition drop_msg :: PGMessage where
  "drop_msg = \<lparr>Type = 81, Length = 9, Payload = [100, 114, 111, 112, 0]\<rparr>"

lemma sample_stream:
  "well_framed_stream True [start_msg, drop_msg]"
  "encode_stream True [start_msg, drop_msg] = [0, 0, 0, 8, 0, 3, 0, 0, 81, 0, 0, 0, 9, 100, 114, 111, 112, 0]"
  "query_of drop_msg = ''drop''" "is_query drop_msg" "\<not> is_query start_msg"
proof -
  have be: "be_put (8 :: u32) = [0, 0, 0, 8]" "be_put (9 :: u32) = [0, 0, 0, 9]"
    using be_put_get [where 'a = 32, of "[0, 0, 0, 8]"] be_put_get [where 'a = 32, of "[0, 0, 0, 9]"]
    by (simp_all add: be_get_def be_val_def)
  have tr: "transitionToTyped start_msg"
    by (simp add: start_msg_def transitionToTyped_def slice_at_def be_get_def be_val_def sslRequestCode_def
        gssEncRequestCode_def cancelRequestCode_def)
  show "well_framed_stream True [start_msg, drop_msg]"
    using tr by (simp add: well_framed_def) (simp add: start_msg_def drop_msg_def startupMsgType_def maxFrameLength_def)
  show "encode_stream True [start_msg, drop_msg] = [0, 0, 0, 8, 0, 3, 0, 0, 81, 0, 0, 0, 9, 100, 114, 111, 112, 0]"
    using tr by (simp add: encode_msg_def) (simp add: encode_startup_def encode_typed_def start_msg_def drop_msg_def be)
  show "query_of drop_msg = ''drop''"
    by (simp add: query_of_def extractSimpleQuerySQL_def to_string_def drop_msg_def) code_simp
  show "is_query drop_msg" "\<not> is_query start_msg"
    by (simp_all add: is_query_def drop_msg_def start_msg_def)
qed

definition sample_ops :: "(ConnID \<times> sp_op) list" where
  "sample_ops = [(conn_a, Bytes True [0, 0, 0, 8, 0, 3, 0, 0, 81, 0] 7), (conn_b, Bytes True [1] 7),
     (conn_a, Bytes True [0, 0, 9, 100, 114, 111, 112, 0] 7)]"

lemma sample_session:
  "\<forall>m \<in> set [start_msg, drop_msg]. Length m \<le> maxFrameLength"
  "list_all (simple_msg sample_proto (sp_flt sample_processor)) [start_msg, drop_msg]"
  "concat [[0, 0, 0, 8, 0, 3, 0, 0, 81, 0], [0, 0, 9, 100, 114, 111, 112, 0]] = encode_stream True [start_msg, drop_msg]"
  "filter (\<lambda>(c', op). c' = conn_a) sample_ops
    = map (\<lambda>d. (conn_a, Bytes True d 7)) [[0, 0, 0, 8, 0, 3, 0, 0, 81, 0], [0, 0, 9, 100, 114, 111, 112, 0]]"
  "expected (sp_flt sample_processor) TxIdle (queries [start_msg, drop_msg]) = [''drop'']"
proof -
  have f: "sp_flt sample_processor = sample_filter"
    using new_processor(12) [OF sample_processor_new] sample_new by simp
  show "\<forall>m \<in> set [start_msg, drop_msg]. Length m \<le> maxFrameLength"
    by (simp add: start_msg_def drop_msg_def maxFrameLength_def)
  show "list_all (simple_msg sample_proto (sp_flt sample_processor)) [start_msg, drop_msg]"
    by (simp add: simple_msg_def sample_stream drop_class)
      (simp add: start_msg_def drop_msg_def oversized_def effectiveMaxSQLLength_def defaultMaxSQLLength_def sample_proto_def)
  show "expected (sp_flt sample_processor) TxIdle (queries [start_msg, drop_msg]) = [''drop'']"
    by (simp add: queries_def sample_stream f drop_class decide_def matchesAny_def ruleAction_def sample_filter_def
        only_keep_rule rule_of_def)
  show "concat [[0, 0, 0, 8, 0, 3, 0, 0, 81, 0], [0, 0, 9, 100, 114, 111, 112, 0]] = encode_stream True [start_msg, drop_msg]"
    by (simp only: sample_stream(2)) simp
qed (simp add: sample_ops_def conn_ab)


text \<open>
  DEALLOCATE ALL is recognised as a pooler's session reset, but a statement that begins with
  DEALLOCATE has no known class, so dispatching it never resets the session: the prepared
  statements of the previous client stay.
\<close>

theorem deallocate_never_resets:
  "isPoolerResetQuery ''DEALLOCATE ALL''
   \<and> sp_binder (dispatch c ((zero_event c)\<lparr>SQL := ''DEALLOCATE ALL''\<rparr>) sp) = sp_binder sp"
proof -
  have "isPoolerResetQuery ''DEALLOCATE ALL''" by code_simp
  moreover have "lex ''DEALLOCATE ALL'' = [TWord ''DEALLOCATE'', TWord ''ALL'']" "ToLower ''DEALLOCATE'' = ''deallocate''"
    "indexDepthZeroSemicolon (length ''DEALLOCATE ALL'') 0 ''DEALLOCATE ALL'' = None" by code_simp+
  then have "Classify b ''DEALLOCATE ALL'' = ClassUnknown" for b by (simp add: Classify_def classifySingle_def)
  ultimately show ?thesis by (simp add: pooled_def)
qed

end
