(* ===== verification/Capture_Stream.thy ===== *)
theory Capture_Stream
  imports Processor_Correct
begin

text \<open>
  The callbacks between the TCP assembler and the stream processor, \<^verbatim>\<open>src/pkg/capture/reassembler.go\<close>,
  and the reconnecting capture source, \<^verbatim>\<open>src/pkg/capture/source_resilient.go\<close>. The assembler itself,
  \<^verbatim>\<open>gopacket/reassembly\<close>, is not modelled: it calls \<open>stream_New\<close> once per connection with the packet that
  creates it, and delivers bytes with the direction relative to that packet.
\<close>

section \<open>Reassembler\<close>

definition DefaultPort :: int where "DefaultPort = 5432"

definition NewReassembler_port :: "int \<Rightarrow> u16" where
  "NewReassembler_port port = (let port = (if port = 0 then DefaultPort else port) in of_int port)"

text \<open>\<^verbatim>\<open>netip.AddrFromSlice\<close> and \<^verbatim>\<open>Addr.Unmap\<close>.\<close>

definition AddrFromSlice :: "bytes \<Rightarrow> addr option" where
  "AddrFromSlice bs = (if length bs = 4 \<or> length bs = 16 then Some bs else None)"

definition Unmap :: "addr \<Rightarrow> addr" where
  "Unmap a = (if length a = 16 \<and> take 12 a = replicate 10 0 @ [255, 255] then drop 12 a else a)"

text \<open>What the layers of a packet give: the network endpoints and the TCP ports.\<close>

record packet_layers =
  pk_net :: "(bytes \<times> bytes) option"
  pk_tcp :: "(u16 \<times> u16) option"

record captureContext =
  cx_srcIP :: addr
  cx_srcPort :: u16
  cx_dstIP :: addr
  cx_dstPort :: u16

definition Assemble_context :: "packet_layers option \<Rightarrow> captureContext option" where
  "Assemble_context pkt = (case pkt of None \<Rightarrow> None
     | Some p \<Rightarrow> (case (pk_net p, pk_tcp p) of
         (Some (src, dst), Some (sport, dport)) \<Rightarrow>
           (case (AddrFromSlice src, AddrFromSlice dst) of
             (Some srcIP, Some dstIP) \<Rightarrow>
               Some \<lparr>cx_srcIP = Unmap srcIP, cx_srcPort = sport, cx_dstIP = Unmap dstIP, cx_dstPort = dport\<rparr>
           | _ \<Rightarrow> None)
       | _ \<Rightarrow> None))"

record stream =
  s_conn :: ConnID
  s_firstFromClient :: bool

definition stream_New :: "u16 \<Rightarrow> captureContext option \<Rightarrow> stream" where
  "stream_New serverPort ac = (case ac of
       None \<Rightarrow> \<lparr>s_conn = \<lparr>SrcIP = [], SrcPort = 0, DstIP = [], DstPort = 0\<rparr>, s_firstFromClient = True\<rparr>
     | Some cc \<Rightarrow>
         let first = (if cx_dstPort cc = serverPort then True else if cx_srcPort cc = serverPort then False else True) in
         \<lparr>s_conn = (if first
            then \<lparr>SrcIP = cx_srcIP cc, SrcPort = cx_srcPort cc, DstIP = cx_dstIP cc, DstPort = cx_dstPort cc\<rparr>
            else \<lparr>SrcIP = cx_dstIP cc, SrcPort = cx_dstPort cc, DstIP = cx_srcIP cc, DstPort = cx_srcPort cc\<rparr>),
          s_firstFromClient = first\<rparr>)"

datatype flow_direction = TCPDirClientToServer | TCPDirServerToClient

text \<open>The calls of the processor: \<open>ts\<close> is the time \<^verbatim>\<open>OnBytes\<close> reads.\<close>

definition ReassembledSG :: "stream \<Rightarrow> flow_direction \<Rightarrow> bytes \<Rightarrow> int \<Rightarrow> (ConnID \<times> sp_op) list" where
  "ReassembledSG s dir data ts =
     (if data = [] then []
      else let fromClient = (if dir = TCPDirServerToClient then \<not> s_firstFromClient s else s_firstFromClient s) in
        [(s_conn s, Bytes fromClient data ts)])"

definition ReassemblyComplete :: "stream \<Rightarrow> int \<Rightarrow> int \<times> (ConnID \<times> sp_op) list" where
  "ReassemblyComplete s closedCount = (closedCount + 1, [(s_conn s, Closed)])"

text \<open>The same packet seen from the other side.\<close>

definition flip :: "captureContext \<Rightarrow> captureContext" where
  "flip p = \<lparr>cx_srcIP = cx_dstIP p, cx_srcPort = cx_dstPort p, cx_dstIP = cx_srcIP p, cx_dstPort = cx_srcPort p\<rparr>"

definition client_conn :: "u16 \<Rightarrow> captureContext \<Rightarrow> ConnID" where
  "client_conn serverPort p = (let q = (if cx_dstPort p = serverPort then p else flip p) in
     \<lparr>SrcIP = cx_srcIP q, SrcPort = cx_srcPort q, DstIP = cx_dstIP q, DstPort = cx_dstPort q\<rparr>)"

text \<open>
  Where exactly one side uses the server's port, bytes are attributed to the connection as the
  client sees it and to the right side, whichever side's packet was captured first.
\<close>

lemma stream_oriented:
  assumes "(cx_srcPort p = serverPort) \<noteq> (cx_dstPort p = serverPort)" and "cc = p \<or> cc = flip p" and "data \<noteq> []"
  shows "ReassembledSG (stream_New serverPort (Some cc)) (if cc = p then TCPDirClientToServer else TCPDirServerToClient) data ts
    = [(client_conn serverPort p, Bytes (cx_dstPort p = serverPort) data ts)]"
proof -
  have "flip p \<noteq> p" using assms(1) by (auto simp: flip_def dest: arg_cong [where f = cx_srcPort])
  then show ?thesis
    using assms by (auto simp: ReassembledSG_def stream_New_def client_conn_def flip_def Let_def)
qed

text \<open>Where both sides use it, the two directions are taken for two connections.\<close>

lemma same_port_ambiguous:
  assumes "cx_srcPort p = serverPort" and "cx_dstPort p = serverPort" and "cx_srcIP p \<noteq> cx_dstIP p"
  shows "s_conn (stream_New serverPort (Some p)) \<noteq> s_conn (stream_New serverPort (Some (flip p)))"
  using assms by (simp add: stream_New_def flip_def Let_def)

text \<open>Mapped and plain IPv4 addresses give the same context.\<close>

lemma unmapped_same:
  assumes "length a = 4" and "length b = 4"
  shows "Assemble_context (Some \<lparr>pk_net = Some (replicate 10 0 @ [255, 255] @ a, replicate 10 0 @ [255, 255] @ b), pk_tcp = ports\<rparr>)
    = Assemble_context (Some \<lparr>pk_net = Some (a, b), pk_tcp = ports\<rparr>)"
  using assms by (simp add: Assemble_context_def AddrFromSlice_def Unmap_def numeral_eq_Suc split: option.splits)

section \<open>Reconnecting source\<close>

text \<open>
  The pump goroutine of \<^verbatim>\<open>resilientSource\<close> and \<^verbatim>\<open>Close\<close>. A source is a number, fresh for each successful open;
  \<open>rs_open\<close> holds those not closed yet. Delays are in seconds.
\<close>

definition reconnectInitialDelay :: nat where "reconnectInitialDelay = 1"
definition reconnectMaxDelay :: nat where "reconnectMaxDelay = 16"

datatype pump = PLoop | PPump nat | PDied nat | PRetry nat | POpen nat | PInstall nat | PDone

record resilientSource =
  rs_inner :: "nat option"
  rs_closed :: bool
  rs_reconnects :: nat
  rs_pump :: pump
  rs_open :: "nat set"
  rs_fresh :: nat

definition NewResilientSource :: resilientSource where
  "NewResilientSource = \<lparr>rs_inner = Some 0, rs_closed = False, rs_reconnects = 0, rs_pump = PLoop, rs_open = {0}, rs_fresh = 1\<rparr>"

inductive resilient_step :: "resilientSource \<Rightarrow> resilientSource \<Rightarrow> bool" where
  loop_closed: "rs_pump s = PLoop \<Longrightarrow> rs_closed s \<Longrightarrow> resilient_step s (s\<lparr>rs_pump := PDone\<rparr>)"
| loop_nil: "rs_pump s = PLoop \<Longrightarrow> \<not> rs_closed s \<Longrightarrow> rs_inner s = None \<Longrightarrow> resilient_step s (s\<lparr>rs_pump := PDone\<rparr>)"
| loop_pump: "rs_pump s = PLoop \<Longrightarrow> \<not> rs_closed s \<Longrightarrow> rs_inner s = Some h \<Longrightarrow> resilient_step s (s\<lparr>rs_pump := PPump h\<rparr>)"
| pump_closed: "rs_pump s = PPump h \<Longrightarrow> rs_closed s \<Longrightarrow> resilient_step s (s\<lparr>rs_pump := PDone\<rparr>)"
| pump_died: "rs_pump s = PPump h \<Longrightarrow> \<not> rs_closed s \<Longrightarrow> resilient_step s (s\<lparr>rs_pump := PDied h\<rparr>)"
| died_closed: "rs_pump s = PDied h
    \<Longrightarrow> resilient_step s (s\<lparr>rs_open := rs_open s - {h}, rs_pump := PRetry reconnectInitialDelay\<rparr>)"
| retry_closed: "rs_pump s = PRetry d \<Longrightarrow> rs_closed s \<Longrightarrow> resilient_step s (s\<lparr>rs_pump := PDone\<rparr>)"
| retry_sleep: "rs_pump s = PRetry d \<Longrightarrow> \<not> rs_closed s
    \<Longrightarrow> resilient_step s (s\<lparr>rs_reconnects := rs_reconnects s + 1, rs_pump := POpen d\<rparr>)"
| open_closed: "rs_pump s = POpen d \<Longrightarrow> rs_closed s \<Longrightarrow> resilient_step s (s\<lparr>rs_pump := PDone\<rparr>)"
| open_fails: "rs_pump s = POpen d \<Longrightarrow> \<not> rs_closed s
    \<Longrightarrow> resilient_step s (s\<lparr>rs_pump := PRetry (if reconnectMaxDelay < d * 2 then reconnectMaxDelay else d * 2)\<rparr>)"
| open_gives: "rs_pump s = POpen d \<Longrightarrow> \<not> rs_closed s \<Longrightarrow> rs_fresh s = h
    \<Longrightarrow> resilient_step s (s\<lparr>rs_fresh := h + 1, rs_open := insert h (rs_open s), rs_pump := PInstall h\<rparr>)"
| install: "rs_pump s = PInstall h \<Longrightarrow> resilient_step s (s\<lparr>rs_inner := Some h, rs_pump := PLoop\<rparr>)"
| rs_Close_again: "rs_closed s \<Longrightarrow> resilient_step s s"
| rs_Close: "\<not> rs_closed s
    \<Longrightarrow> resilient_step s (s\<lparr>rs_closed := True, rs_inner := None, rs_open := rs_open s - set_option (rs_inner s)\<rparr>)"

text \<open>
  While the source is not closed, at most the current and the newly opened source are open; the
  delay between attempts doubles from one to at most sixteen seconds.
\<close>

definition resilient_ok :: "resilientSource \<Rightarrow> bool" where
  "resilient_ok s \<longleftrightarrow> (\<not> rs_closed s \<longrightarrow> rs_inner s \<noteq> None \<and> rs_pump s \<noteq> PDone
       \<and> rs_open s \<subseteq> set_option (rs_inner s) \<union> (case rs_pump s of PInstall h \<Rightarrow> {h} | _ \<Rightarrow> {}))
     \<and> (case rs_pump s of
          PPump h \<Rightarrow> rs_closed s \<or> rs_inner s = Some h
        | PDied h \<Rightarrow> rs_closed s \<or> rs_inner s = Some h
        | PRetry d \<Rightarrow> d \<in> {1, 2, 4, 8, 16} \<and> (rs_closed s \<or> rs_open s = {})
        | POpen d \<Rightarrow> d \<in> {1, 2, 4, 8, 16} \<and> (rs_closed s \<or> rs_open s = {})
        | PInstall h \<Rightarrow> rs_closed s \<or> rs_open s = {h}
        | _ \<Rightarrow> True)"

lemma resilient_invariant: "resilient_step\<^sup>*\<^sup>* NewResilientSource s \<Longrightarrow> resilient_ok s"
proof (induction rule: rtranclp_induct)
  case base
  then show ?case by (simp add: resilient_ok_def NewResilientSource_def)
next
  case (step s s')
  from step.hyps(2) step.IH show ?case
    by cases (auto simp: resilient_ok_def reconnectInitialDelay_def reconnectMaxDelay_def split: pump.splits)
qed

text \<open>A source opened while \<^verbatim>\<open>Close\<close> runs is installed and never closed.\<close>

lemma close_during_reconnect_leaks:
  "\<exists>s. resilient_step\<^sup>*\<^sup>* NewResilientSource s \<and> rs_pump s = PDone \<and> rs_closed s \<and> rs_open s = {1}"
proof -
  let ?n = NewResilientSource
  let ?a = "?n\<lparr>rs_pump := PPump 0\<rparr>"
  let ?b = "?n\<lparr>rs_pump := PDied 0\<rparr>"
  let ?c = "?n\<lparr>rs_open := {}, rs_pump := PRetry 1\<rparr>"
  let ?d = "?c\<lparr>rs_reconnects := 1, rs_pump := POpen 1\<rparr>"
  let ?e = "?d\<lparr>rs_fresh := 2, rs_open := {1}, rs_pump := PInstall 1\<rparr>"
  let ?f = "?e\<lparr>rs_closed := True, rs_inner := None\<rparr>"
  let ?g = "?f\<lparr>rs_inner := Some 1, rs_pump := PLoop\<rparr>"
  let ?h = "?g\<lparr>rs_pump := PDone\<rparr>"
  note N = NewResilientSource_def
  have "resilient_step ?n ?a" using loop_pump [of ?n 0] by (simp add: N)
  moreover have "resilient_step ?a ?b" using pump_died [of ?a 0] by (simp add: N)
  moreover have "resilient_step ?b ?c" using died_closed [of ?b 0] by (simp add: N reconnectInitialDelay_def)
  moreover have "resilient_step ?c ?d" using retry_sleep [of ?c 1] by (simp add: N)
  moreover have "resilient_step ?d ?e" using open_gives [of ?d 1 1] by (simp add: N numeral_2_eq_2)
  moreover have "resilient_step ?e ?f" using rs_Close [of ?e] by (simp add: N)
  moreover have "resilient_step ?f ?g" using install [of ?f 1] by (simp add: N)
  moreover have "resilient_step ?g ?h" using loop_closed [of ?g] by (simp add: N)
  ultimately have "resilient_step\<^sup>*\<^sup>* ?n ?h" by (meson converse_rtranclp_into_rtranclp rtranclp.rtrancl_refl)
  then show ?thesis by (intro exI [of _ ?h]) (simp add: N)
qed

end
