(* ===== verification/Replay_Correct.thy ===== *)
theory Replay_Correct
  imports Replay_Lanes "HOL-Library.Multiset"
begin

text \<open>
  Invariants of the replayer's step relation (order, conservation, slots, depth, life cycle), that
  a run ends with every event executed once the queue is closed, and what back-pressure does.
\<close>

section \<open>Life cycle\<close>

text \<open>How the phases constrain the lanes, the workers and the queue.\<close>

definition lifecycle :: "run_state \<Rightarrow> bool" where
  "lifecycle s \<longleftrightarrow> ((\<exists>k. lane_closed (st_lane s k)) \<longrightarrow> st_disp s \<in> {DClosing, DJoin, DEnd})
     \<and> (st_disp s \<in> {DJoin, DEnd} \<longrightarrow> (\<forall>k \<in> set (st_keys s). lane_closed (st_lane s k)))
     \<and> (st_disp s = DEnd \<longrightarrow> (\<forall>k \<in> set (st_keys s). st_worker s k = WGone))
     \<and> (\<forall>k. st_worker s k = WGone \<longrightarrow> st_cancelled s \<or> lane_closed (st_lane s k) \<and> lane_buf (st_lane s k) = [])
     \<and> (st_released s \<noteq> [] \<longrightarrow> st_cancelled s \<or> st_disp s \<in> {DClosing, DJoin, DEnd})
     \<and> (st_disp s \<in> {DClosing, DJoin, DEnd} \<longrightarrow> st_cancelled s \<or> st_queue s = ([], True))"

lemma aq_Dequeue_cases:
  "aq_Dequeue q = Some (Some e, q') \<longleftrightarrow> (\<exists>xs c. q = (e # xs, c) \<and> q' = (xs, c))"
  "aq_Dequeue q = Some (None, q') \<longleftrightarrow> q = ([], True) \<and> q' = q"
  by (cases q rule: aq_Dequeue.cases; auto)+

lemma lifecycleD:
  assumes "lifecycle s"
  shows "lane_closed (st_lane s k) \<Longrightarrow> st_disp s \<in> {DClosing, DJoin, DEnd}"
    "st_disp s \<in> {DJoin, DEnd} \<Longrightarrow> k \<in> set (st_keys s) \<Longrightarrow> lane_closed (st_lane s k)"
    "st_disp s = DEnd \<Longrightarrow> k \<in> set (st_keys s) \<Longrightarrow> st_worker s k = WGone"
    "st_worker s k = WGone \<Longrightarrow> st_cancelled s \<or> lane_closed (st_lane s k) \<and> lane_buf (st_lane s k) = []"
    "st_released s \<noteq> [] \<Longrightarrow> st_cancelled s \<or> st_disp s \<in> {DClosing, DJoin, DEnd}"
    "st_disp s \<in> {DClosing, DJoin, DEnd} \<Longrightarrow> st_cancelled s \<or> st_queue s = ([], True)"
  using assms unfolding lifecycle_def by blast+

text \<open>Actions of a worker that stays alive.\<close>

lemma lifecycle_alive:
  assumes "lifecycle s" and "st_worker s k \<noteq> WGone" and "w \<noteq> WGone" and "lane_closed l = lane_closed (st_lane s k)"
    and "st_worker s' = (st_worker s)(k := w)" and "st_lane s' = (st_lane s)(k := l)"
    and "st_disp s' = st_disp s" "st_keys s' = st_keys s" "st_cancelled s' = st_cancelled s" "st_queue s' = st_queue s"
      "st_released s' = st_released s"
  shows "lifecycle s'"
proof -
  have "lane_closed (st_lane s' j) = lane_closed (st_lane s j)" for j using assms(4,6) by simp
  moreover have "st_worker s' j = WGone \<longleftrightarrow> st_worker s j = WGone" for j using assms(2,3,5) by simp
  moreover have "st_lane s' j = st_lane s j" if "st_worker s j = WGone" for j using assms(2,6) that by auto
  ultimately show ?thesis using assms(1) by (simp add: lifecycle_def assms(7-11))
qed

lemma lifecycle_queue:
  assumes "lifecycle s" and "st_queue s = ([], True) \<Longrightarrow> q = ([], True)"
  shows "lifecycle (s\<lparr>st_queue := q\<rparr>)"
  using assms unfolding lifecycle_def by simp blast

lemma running_lifecycle: "running ip r s \<Longrightarrow> lifecycle s"
proof (induction rule: running_invariant)
  case init
  then show ?case by (simp add: lifecycle_def run_init_def)
next
  case (dispatch s s')
  note k = keyedD(2-) [OF running_keyed [OF dispatch.hyps(1)]] and l = lifecycleD [OF dispatch.IH]
  have same: "(st_worker s)(k := WTake) = st_worker s" "(st_lane s)(k := newUnboundedLane) = st_lane s"
    if "k \<notin> set (st_keys s)" for k
    using k(1,2) [OF that] by (simp_all add: fun_upd_idem)
  from dispatch.hyps(2) show ?case
  proof cases
    case new_lane then show ?thesis using dispatch.IH by (auto simp: same lifecycle_def)
  next
    case (route e k)
    have "st_worker s k \<noteq> WGone \<or> st_cancelled s" using l(1) [of k] l(4) [of k] route(2) by auto
    then show ?thesis using route dispatch.IH by (auto simp: lifecycle_def)
  next
    case close_lane then show ?thesis using dispatch.IH by (auto simp: lifecycle_def)
  next
    case take_event then show ?thesis using dispatch.IH by (auto simp: lifecycle_def)
  next
    case take_closed then show ?thesis using dispatch.IH by (auto simp: lifecycle_def aq_Dequeue_cases)
  qed (insert dispatch.IH, simp_all add: lifecycle_def list_all_iff, blast?)
next
  case (worker s s' k')
  from worker.hyps(3) show ?case
  proof cases
    case (lane_event e l)
    show ?thesis by (rule lifecycle_alive [OF worker.IH, of k' "WSlot e" l]) (use lane_event in auto)
  next
    case (lane_end l)
    then show ?thesis using worker.IH by (auto simp: lifecycle_def)
  next
    case (slot e)
    show ?thesis by (rule lifecycle_alive [OF worker.IH, of k' "WRun e" "st_lane s k'"]) (use slot in auto)
  next
    case (slot_stop e)
    then show ?thesis using worker.IH by (auto simp: lifecycle_def)
  next
    case (exec_end e)
    show ?thesis by (rule lifecycle_alive [OF worker.IH, of k' WTake "st_lane s k'"]) (use exec_end in auto)
  qed
next
  case (outside s s' cap pol)
  from outside.hyps(2) show ?case
  proof cases
    case (produce e)
    show ?thesis unfolding produce by (rule lifecycle_queue [OF outside.IH]) simp
  next
    case close_queue
    show ?thesis unfolding close_queue by (rule lifecycle_queue [OF outside.IH]) simp
  next
    case cancel
    then show ?thesis using outside.IH by (simp add: lifecycle_def)
  qed
qed

lemma sum_keys_change:
  fixes f f' :: "'k \<Rightarrow> nat"
  assumes "distinct ks" "k \<in> set ks" "\<And>j. j \<noteq> k \<Longrightarrow> f' j = f j"
  shows "sum_list (map f' ks) + f k = sum_list (map f ks) + f' k"
proof -
  have other: "sum_list (map f' ks) = sum_list (map f ks)" if "k \<notin> set ks" for ks
    using that assms(3) by (induction ks) auto
  show ?thesis using assms(1,2)
  proof (induction ks)
    case (Cons a ks)
    then show ?case using other [of ks] assms(3) [of a] by (cases "a = k") auto
  qed simp
qed

definition slots_used :: "run_state \<Rightarrow> nat" where
  "slots_used s = sum_list (map (\<lambda>k. length (executing (st_worker s k))) (st_keys s))"

lemma running_slots: "running ip r s \<Longrightarrow> st_sem s = slots_used s \<and> int (st_sem s) \<le> max 0 (rp_concurrency r)"
proof (induction rule: running_invariant)
  case init
  then show ?case by (simp add: slots_used_def run_init_def)
next
  case (dispatch s s')
  note k = keyedD(2-) [OF running_keyed [OF dispatch.hyps(1)]]
  have "sum_list (map (\<lambda>j. length (executing (((st_worker s)(k := WTake)) j))) (st_keys s)) = slots_used s"
    if "k \<notin> set (st_keys s)" for k
    using that unfolding slots_used_def by (intro arg_cong [of _ _ sum_list] map_cong) auto
  with dispatch.hyps(2) dispatch.IH show ?case by cases (simp_all add: slots_used_def)
next
  case (worker s s' k)
  note d = keyedD(1) [OF running_keyed [OF worker.hyps(1)]]
  have change: "sum_list (map (\<lambda>j. length (executing (((st_worker s)(k := w)) j))) (st_keys s))
      + length (executing (st_worker s k)) = slots_used s + length (executing w)" for w
    using sum_keys_change [OF d worker.hyps(2), of "\<lambda>j. length (executing (((st_worker s)(k := w)) j))"
      "\<lambda>j. length (executing (st_worker s j))"] by (simp add: slots_used_def)
  from worker.hyps(3) show ?case
  proof cases
    case (lane_event e l)
    then show ?thesis using worker.IH change [of "WSlot e"] by (simp add: slots_used_def)
  next
    case (slot e)
    then show ?thesis using worker.IH change [of "WRun e"] by (simp add: slots_used_def)
  next
    case (exec_end e)
    then show ?thesis using worker.IH change [of WTake] by (simp add: slots_used_def)
  qed (use worker.IH change [of WGone] in \<open>simp_all add: slots_used_def\<close>)
next
  case (outside s s' cap pol)
  from outside.hyps(2) outside.IH show ?case by cases (auto simp: slots_used_def)
qed

lemma running_depth:
  "running ip r s \<Longrightarrow> 0 < rp_maxLaneDepth r
    \<Longrightarrow> int (laneDepth s + length (routing (st_disp s))) \<le> rp_maxLaneDepth r
      \<and> (st_disp s = DTake \<longrightarrow> int (laneDepth s) < rp_maxLaneDepth r)"
proof (induction rule: running_invariant)
  case init
  then show ?case by (simp add: laneDepth_def run_init_def)
next
  case (dispatch s s')
  note d = keyedD(1) [OF running_keyed [OF dispatch.hyps(1)]]
  have fresh: "sum_list (map (\<lambda>j. lane_Len (((st_lane s)(k := l)) j)) (st_keys s)) = laneDepth s"
    if "k \<notin> set (st_keys s)" for k l
    using that unfolding laneDepth_def by (intro arg_cong [of _ _ sum_list] map_cong) auto
  have change: "sum_list (map (\<lambda>j. lane_Len (((st_lane s)(k := l)) j)) (st_keys s)) + lane_Len (st_lane s k)
      = laneDepth s + lane_Len l" if "k \<in> set (st_keys s)" for k l
    using sum_keys_change [OF d that, of "\<lambda>j. lane_Len (((st_lane s)(k := l)) j)" "\<lambda>j. lane_Len (st_lane s j)"]
    by (simp add: laneDepth_def)
  from dispatch.hyps(2) dispatch.IH [OF dispatch.prems] show ?case
  proof cases
    case (new_lane e k)
    then show ?thesis using fresh [OF new_lane(4), of newUnboundedLane] dispatch.IH [OF dispatch.prems]
      by (simp add: laneDepth_def lane_Len_def)
  next
    case (route e k)
    then show ?thesis using change [OF route(4), of "lane_Enqueue e (st_lane s k)"] dispatch.IH [OF dispatch.prems]
      by (simp add: laneDepth_def lane_Len_def)
  next
    case (close_lane k)
    then show ?thesis using change [OF close_lane(3), of "lane_Close (st_lane s k)"] dispatch.IH [OF dispatch.prems]
      by (simp add: laneDepth_def lane_Len_def)
  qed (auto simp: laneDepth_def held_def)
next
  case (worker s s' k)
  note d = keyedD(1) [OF running_keyed [OF worker.hyps(1)]]
  have change: "sum_list (map (\<lambda>j. lane_Len (((st_lane s)(k := l)) j)) (st_keys s)) + lane_Len (st_lane s k)
      = laneDepth s + lane_Len l" for l
    using sum_keys_change [OF d worker.hyps(2), of "\<lambda>j. lane_Len (((st_lane s)(k := l)) j)" "\<lambda>j. lane_Len (st_lane s j)"]
    by (simp add: laneDepth_def)
  from worker.hyps(3) show ?case
  proof cases
    case (lane_event e l)
    then show ?thesis using change [of l] worker.IH [OF worker.prems] by (auto simp: laneDepth_def lane_Len_def)
  qed (use worker.IH [OF worker.prems] in \<open>auto simp: laneDepth_def\<close>)
next
  case (outside s s' cap pol)
  from outside.hyps(2) outside.IH [OF outside.prems] show ?case by cases (auto simp: laneDepth_def)
qed

section \<open>Progress\<close>

text \<open>
  A bound on the actions left once nothing is enqueued: an event costs 11 in the queue, 5 in a
  lane, 4 before its slot and 3 while it executes; a new lane costs its worker and its closing.
\<close>

fun worker_work :: "worker \<Rightarrow> nat" where
  "worker_work WTake = 1"
| "worker_work (WSlot e) = 4"
| "worker_work (WRun e) = 3"
| "worker_work WGone = 0"

definition lane_work :: "run_state \<Rightarrow> string \<Rightarrow> nat" where
  "lane_work s k = 5 * lane_Len (st_lane s k) + worker_work (st_worker s k) + (if lane_closed (st_lane s k) then 0 else 1)"

definition dispatch_work :: "(addr \<Rightarrow> string) \<Rightarrow> replayer \<Rightarrow> run_state \<Rightarrow> nat" where
  "dispatch_work ip r s = (case st_disp s of DCheck \<Rightarrow> 5 | DTake \<Rightarrow> 4
     | DRoute e \<Rightarrow> if laneKey ip r e \<in> set (st_keys s) then 11 else 14
     | DClosing \<Rightarrow> 2 | DJoin \<Rightarrow> 1 | DEnd \<Rightarrow> 0)"

definition work :: "(addr \<Rightarrow> string) \<Rightarrow> replayer \<Rightarrow> run_state \<Rightarrow> nat" where
  "work ip r s = 11 * length (fst (st_queue s)) + dispatch_work ip r s + sum_list (map (lane_work s) (st_keys s))"

lemma lane_work_change:
  assumes "keyed ip r s" "k \<in> set (st_keys s)"
    and "\<And>j. j \<noteq> k \<Longrightarrow> st_lane s' j = st_lane s j \<and> st_worker s' j = st_worker s j"
  shows "sum_list (map (lane_work s') (st_keys s)) + lane_work s k = sum_list (map (lane_work s) (st_keys s)) + lane_work s' k"
  by (rule sum_keys_change [OF keyedD(1) [OF assms(1)] assms(2)]) (simp add: lane_work_def assms(3))

lemma lane_work_same:
  assumes "\<And>j. j \<in> set (st_keys s) \<Longrightarrow> st_lane s' j = st_lane s j \<and> st_worker s' j = st_worker s j"
  shows "map (lane_work s') (st_keys s) = map (lane_work s) (st_keys s)"
  using assms by (simp add: lane_work_def)

lemma dispatch_decreases:
  assumes "keyed ip r s" and "dispatch_step ip r s s'"
  shows "work ip r s' < work ip r s"
  using assms(2)
proof cases
  case (new_lane e k)
  have "map (lane_work s') (st_keys s) = map (lane_work s) (st_keys s)"
    by (rule lane_work_same) (use new_lane in auto)
  moreover have "lane_work s' k = 2" using new_lane by (simp add: lane_work_def lane_Len_def)
  ultimately have lanes: "map (lane_work s') (st_keys s) = map (lane_work s) (st_keys s)" "lane_work s' k = 2" .
  have "st_keys s' = st_keys s @ [k]" "st_disp s' = DRoute e" "st_queue s' = st_queue s" using new_lane by simp_all
  then show ?thesis using new_lane(2-4) by (simp only: work_def dispatch_work_def map_append lanes) (simp add: lanes)
next
  case (route e k)
  from lane_work_change [OF assms(1) route(4), of s'] have
    "sum_list (map (lane_work s') (st_keys s)) + lane_work s k = sum_list (map (lane_work s) (st_keys s)) + lane_work s' k"
    using route by simp
  moreover have "lane_work s' k = lane_work s k + 5" using route by (simp add: lane_work_def lane_Len_def)
  ultimately show ?thesis using route by (simp add: work_def dispatch_work_def)
next
  case (close_lane k)
  from lane_work_change [OF assms(1) close_lane(3), of s'] have
    "sum_list (map (lane_work s') (st_keys s)) + lane_work s k = sum_list (map (lane_work s) (st_keys s)) + lane_work s' k"
    using close_lane by simp
  moreover have "lane_work s k = lane_work s' k + 1" using close_lane by (simp add: lane_work_def lane_Len_def)
  ultimately show ?thesis using close_lane by (simp add: work_def dispatch_work_def)
qed (auto simp: work_def dispatch_work_def lane_work_def [abs_def] aq_Dequeue_cases)

lemma worker_decreases:
  assumes "keyed ip r s" and "k \<in> set (st_keys s)" and "worker_step r k s s'"
  shows "work ip r s' < work ip r s"
proof -
  have same: "st_queue s' = st_queue s" "st_keys s' = st_keys s" "st_disp s' = st_disp s"
    "\<And>j. j \<noteq> k \<Longrightarrow> st_lane s' j = st_lane s j \<and> st_worker s' j = st_worker s j"
    using assms(3) by (cases; simp)+
  have "lane_work s' k < lane_work s k"
    using assms(3) by cases (auto simp: lane_work_def lane_Len_def)
  moreover have "dispatch_work ip r s' = dispatch_work ip r s" unfolding dispatch_work_def same(2,3) ..
  ultimately show ?thesis
    using lane_work_change [OF assms(1,2), of s'] same by (simp add: work_def)
qed

lemma busy_worker_steps:
  assumes "running ip r s" and "1 \<le> rp_concurrency r" and "k \<in> set (st_keys s)" and "st_worker s k \<noteq> WGone"
    and "lane_buf (st_lane s k) \<noteq> [] \<or> lane_closed (st_lane s k)"
  shows "\<exists>s'. replay_step ip r s s'"
proof (cases "st_worker s k")
  case WTake
  then have "\<exists>s'. worker_step r k s s'"
  proof (cases "lane_buf (st_lane s k)")
    case Nil
    then show ?thesis using assms(5) worker_step.lane_end [OF WTake] by auto
  next
    case (Cons e rest)
    then show ?thesis using worker_step.lane_event [OF WTake] by auto
  qed
  then show ?thesis using assms(3) by (auto simp: replay_step_def)
next
  case (WSlot e)
  show ?thesis
  proof (cases "int (st_sem s) < rp_concurrency r")
    case True
    then show ?thesis using worker_step.slot [OF WSlot] assms(3) by (auto simp: replay_step_def)
  next
    case False
    then have "slots_used s \<noteq> 0" using running_slots [OF assms(1)] assms(2) by auto
    then obtain j where "j \<in> set (st_keys s)" "executing (st_worker s j) \<noteq> []"
      by (auto simp: slots_used_def sum_list_eq_0_iff)
    then obtain f where "st_worker s j = WRun f" "j \<in> set (st_keys s)" by (cases "st_worker s j") auto
    then show ?thesis using worker_step.exec_end by (force simp: replay_step_def)
  qed
next
  case (WRun e)
  then show ?thesis using worker_step.exec_end [OF WRun] assms(3) by (auto simp: replay_step_def)
qed (use assms(4) in simp)

lemma replay_progress:
  assumes run: "running ip r s" and r: "1 \<le> rp_concurrency r" and depth: "0 < rp_maxLaneDepth r" and free: "rp_guard r = None"
    and closed: "snd (st_queue s)" and active: "st_disp s \<noteq> DEnd"
  shows "\<exists>s'. replay_step ip r s s'"
proof (cases "st_disp s")
  note life = lifecycleD [OF running_lifecycle [OF run]]
  case DCheck
  show ?thesis
  proof (cases "\<not> held r s \<or> st_cancelled s")
    case True
    then show ?thesis using DCheck check_pass check_stop unfolding replay_step_def by blast
  next
    case False
    then have "laneDepth s \<noteq> 0" using depth free by (auto simp: held_def)
    then obtain k where "k \<in> set (st_keys s)" "lane_buf (st_lane s k) \<noteq> []"
      by (auto simp: laneDepth_def lane_Len_def sum_list_eq_0_iff)
    then show ?thesis using busy_worker_steps [OF run r] life(4) False by blast
  qed
next
  case DTake
  show ?thesis
  proof (cases "fst (st_queue s)")
    case Nil
    then have "aq_Dequeue (st_queue s) = Some (None, st_queue s)" using closed by (cases "st_queue s") simp
    then show ?thesis using take_closed [OF DTake] unfolding replay_step_def by blast
  next
    case (Cons e xs)
    then have "aq_Dequeue (st_queue s) = Some (Some e, (xs, True))" using closed by (cases "st_queue s") simp
    then show ?thesis using take_event [OF DTake] unfolding replay_step_def by blast
  qed
next
  case (DRoute e)
  then show ?thesis using new_lane [OF DRoute refl] route [OF DRoute refl] unfolding replay_step_def by blast
next
  case DClosing
  then show ?thesis using close_lane [OF DClosing] lanes_closed [OF DClosing] unfolding replay_step_def list_all_iff by blast
next
  note life = lifecycleD [OF running_lifecycle [OF run]]
  case DJoin
  then show ?thesis
    using joined [OF DJoin] busy_worker_steps [OF run r] life(2) unfolding replay_step_def list_all_iff by blast
qed (use active in simp)

text \<open>A replay step moves events out of the queue and leaves the rest of the process alone.\<close>

lemma replay_keeps:
  assumes "replay_step ip r s s'"
  shows "st_taken s' @ fst (st_queue s') = st_taken s @ fst (st_queue s)"
    and "snd (st_queue s') = snd (st_queue s)" and "st_cancelled s' = st_cancelled s"
proof -
  have "st_taken s' @ fst (st_queue s') = st_taken s @ fst (st_queue s) \<and> snd (st_queue s') = snd (st_queue s)
      \<and> st_cancelled s' = st_cancelled s"
    using assms unfolding replay_step_def
  proof (elim disjE bexE)
    assume "dispatch_step ip r s s'"
    then show ?thesis by cases (auto simp: aq_Dequeue_cases)
  next
    fix k assume "worker_step r k s s'"
    then show ?thesis by cases auto
  qed
  then show "st_taken s' @ fst (st_queue s') = st_taken s @ fst (st_queue s)"
    and "snd (st_queue s') = snd (st_queue s)" and "st_cancelled s' = st_cancelled s" by simp_all
qed

text \<open>At the end of an uncancelled run every lane has executed what was taken for it.\<close>

lemma ended_all:
  assumes "running ip r s" and "st_disp s = DEnd" and "\<not> st_cancelled s"
  shows "of_key ip r k (st_ended s) = of_key ip r k (st_taken s)" and "st_queue s = ([], True)"
proof -
  note life = lifecycleD [OF running_lifecycle [OF assms(1)]] and key = keyedD [OF running_keyed [OF assms(1)]]
  have idle: "lane_buf (st_lane s k) = [] \<and> waiting (st_worker s k) = [] \<and> executing (st_worker s k) = []"
    using life(3) [OF assms(2)] life(4) [of k] key(2,3) [of k] assms(3) by (cases "k \<in> set (st_keys s)") auto
  then show "of_key ip r k (st_ended s) = of_key ip r k (st_taken s)"
    using running_conserved [OF assms(1), of k] running_serial [OF assms(1), of k] assms(2,3)
    by (simp add: lane_conserved_def)
  show "st_queue s = ([], True)" using life(6) assms(2,3) by simp
qed

text \<open>The lane of a connection.\<close>

definition conn_lane :: "(addr \<Rightarrow> string) \<Rightarrow> replayer \<Rightarrow> ConnID \<Rightarrow> string" where
  "conn_lane ip r c = (if rp_serial r then serialLaneKey else Key ip c)"

lemma of_key_conn: "filter (\<lambda>e. Conn e = c) (of_key ip r (conn_lane ip r c) xs) = filter (\<lambda>e. Conn e = c) xs"
  by (auto simp: of_key_def laneKey_def conn_lane_def intro!: filter_cong)

lemma of_key_serial: "rp_serial r \<Longrightarrow> of_key ip r serialLaneKey xs = xs"
  by (simp add: of_key_def laneKey_def)

lemma same_per_key:
  assumes "\<And>k. of_key ip r k xs = of_key ip r k ys"
  shows "filter (\<lambda>e. Conn e = c) xs = filter (\<lambda>e. Conn e = c) ys" and "mset xs = mset ys"
proof -
  show "filter (\<lambda>e. Conn e = c) xs = filter (\<lambda>e. Conn e = c) ys"
    using of_key_conn [of c ip r xs] of_key_conn [of c ip r ys] by (simp add: assms)
  have one: "count (mset zs) e = count (mset (of_key ip r (laneKey ip r e) zs)) e" for zs e
    by (simp add: of_key_def mset_filter)
  show "mset xs = mset ys"
  proof (rule multiset_eqI)
    fix e show "count (mset xs) e = count (mset ys) e" unfolding one [of xs] one [of ys] assms ..
  qed
qed

section \<open>Properties\<close>

definition demo_event :: SQLEvent where
  "demo_event = zero_event \<lparr>SrcIP = [10, 0, 0, 1], SrcPort = 40000, DstIP = [10, 0, 0, 2], DstPort = 5432\<rparr>"

definition demo_config :: replay_config where
  "demo_config = \<lparr>Workers = 2, Mode = Bounded, MaxConcurrency = 0, PoolMaxConns = 1, MaxLaneDepth = 0\<rparr>"

lemma demo_running: "running ip r (run_init ([demo_event], cl))"
proof -
  have "running ip r ((run_init ([], False))\<lparr>st_queue := snd (aq_Enqueue 1 Block demo_event (st_queue (run_init ([], False))))\<rparr>)"
    by (rule running.outside [OF running.start outside_step.produce])
  then have open_queue: "running ip r (run_init ([demo_event], False))" by (simp add: run_init_def)
  then have "running ip r ((run_init ([demo_event], False))\<lparr>st_queue := aq_Close (st_queue (run_init ([demo_event], False)))\<rparr>)"
    by (rule running.outside [OF _ outside_step.close_queue])
  then have "running ip r (run_init ([demo_event], True))" by (simp add: run_init_def)
  with open_queue show ?thesis by (cases cl) simp_all
qed

text \<open>The event of the example taken by the dispatcher.\<close>

lemma demo_taken:
  "\<exists>s. running ip (NewReplayer demo_config None) s \<and> st_taken s = [demo_event] \<and> st_disp s = DRoute demo_event"
proof -
  let ?r = "NewReplayer demo_config None" and ?s = "run_init ([demo_event], True)"
  have "replay_step ip ?r ?s (?s\<lparr>st_disp := DTake\<rparr>)"
    unfolding replay_step_def by (intro disjI1 check_pass) (simp_all add: run_init_def laneDepth_def held_def not_le)
  note a = running.replay [OF demo_running this]
  have "replay_step ip ?r (?s\<lparr>st_disp := DTake\<rparr>)
      ((?s\<lparr>st_disp := DTake\<rparr>)\<lparr>st_queue := ([], True), st_taken := st_taken (?s\<lparr>st_disp := DTake\<rparr>) @ [demo_event],
        st_disp := DRoute demo_event, st_lag := (if Timestamp demo_event = 0 then st_lag (?s\<lparr>st_disp := DTake\<rparr>) else 0)\<rparr>)"
    unfolding replay_step_def by (intro disjI1 take_event) (simp_all add: run_init_def)
  from running.replay [OF a this] show ?thesis by (force simp: run_init_def)
qed

text \<open>
  C10: replay order and concurrency, in every reachable state: of each connection the executions
  started are an initial part of the events taken from the queue, in the same order, and at most
  the last of them is still executing; in serial mode this holds of all events together; no more
  events execute at once than the mode's cap; and no more wait in the lanes than the configured depth.
\<close>

theorem replay_order:
  assumes "running ip (NewReplayer cfg sg) s"
  shows "prefix (filter (\<lambda>e. Conn e = c) (st_started s)) (filter (\<lambda>e. Conn e = c) (st_taken s))
    \<and> (\<exists>w. length w \<le> 1 \<and> filter (\<lambda>e. Conn e = c) (st_started s) = filter (\<lambda>e. Conn e = c) (st_ended s) @ w)
    \<and> (Mode cfg = Serial \<longrightarrow> prefix (st_started s) (st_taken s) \<and> slots_used s \<le> 1)
    \<and> int (slots_used s) \<le> rp_concurrency (NewReplayer cfg sg)
    \<and> int (laneDepth s) \<le> rp_maxLaneDepth (NewReplayer cfg sg)"
proof -
  let ?r = "NewReplayer cfg sg" and ?P = "\<lambda>e. Conn e = c"
  define k where "k = conn_lane ip ?r c"
  have conn: "filter ?P (of_key ip ?r k xs) = filter ?P xs" for xs unfolding k_def by (rule of_key_conn)
  have "prefix (filter ?P (of_key ip ?r k (st_started s))) (filter ?P (of_key ip ?r k (st_taken s)))"
    using running_prefix [OF assms, of k] by (auto simp: prefix_def)
  moreover have "filter ?P (st_started s) = filter ?P (st_ended s) @ filter ?P (executing (st_worker s k))"
    using arg_cong [OF running_serial [OF assms, of k], of "filter ?P"] by (simp add: conn)
  moreover have "length (filter ?P (executing (st_worker s k))) \<le> 1" by (cases "st_worker s k") simp_all
  moreover have "prefix (st_started s) (st_taken s)" "rp_concurrency ?r = 1" if "Mode cfg = Serial"
    using running_prefix [OF assms, of serialLaneKey] of_key_serial [of ?r] that
    by (simp_all add: NewReplayer_def configureMode_def Let_def)
  moreover have "max 0 (rp_concurrency ?r) = rp_concurrency ?r" using configured_pos(1) [of cfg sg] by linarith
  ultimately show ?thesis
    using running_slots [OF assms] running_depth [OF assms configured_pos(2)] by (auto simp: conn)
qed

lemma replay_order_witness:
  "\<exists>s. st_taken s = [demo_event]
    \<and> prefix (filter (\<lambda>e. Conn e = Conn demo_event) (st_started s)) [demo_event]
    \<and> (\<exists>w. length w \<le> 1 \<and> filter (\<lambda>e. Conn e = Conn demo_event) (st_started s)
        = filter (\<lambda>e. Conn e = Conn demo_event) (st_ended s) @ w)
    \<and> slots_used s \<le> 1 \<and> laneDepth s \<le> 100000"
proof -
  obtain s where s: "running (\<lambda>_. []) (NewReplayer demo_config None) s" "st_taken s = [demo_event]"
    using demo_taken by blast
  have "rp_concurrency (NewReplayer demo_config None) = 1" "rp_maxLaneDepth (NewReplayer demo_config None) = 100000"
    by (simp_all add: NewReplayer_def configureMode_def demo_config_def defaultMaxLaneDepth_def)
  with replay_order [OF s(1), of "Conn demo_event"] s(2) show ?thesis by (intro exI [of _ s]) simp
qed

text \<open>
  A run of the replayer in which some goroutine acts as long as one can.
\<close>

definition replay_run :: "(addr \<Rightarrow> string) \<Rightarrow> replayer \<Rightarrow> (nat \<Rightarrow> run_state) \<Rightarrow> bool" where
  "replay_run ip r f \<longleftrightarrow> (\<forall>i. replay_step ip r (f i) (f (Suc i))
     \<or> (\<nexists>s'. replay_step ip r (f i) s') \<and> f (Suc i) = f i)"

lemma run_steps:
  assumes "running ip r (f 0)" and "replay_run ip r f"
  shows "running ip r (f i) \<and> st_taken (f i) @ fst (st_queue (f i)) = st_taken (f 0) @ fst (st_queue (f 0))
    \<and> snd (st_queue (f i)) = snd (st_queue (f 0)) \<and> st_cancelled (f i) = st_cancelled (f 0)"
proof (induction i)
  case (Suc i)
  from assms(2) consider "replay_step ip r (f i) (f (Suc i))" | "f (Suc i) = f i"
    unfolding replay_run_def by blast
  then show ?case
  proof cases
    case 1
    show ?thesis using Suc replay_keeps [OF 1] running.replay [OF _ 1] by simp
  qed (use Suc in simp)
qed (use assms in simp)

lemma replay_decreases: "running ip r s \<Longrightarrow> replay_step ip r s s' \<Longrightarrow> work ip r s' < work ip r s"
  using dispatch_decreases worker_decreases running_keyed unfolding replay_step_def by blast

lemma run_stops:
  assumes "running ip r (f 0)" and "replay_run ip r f"
  shows "\<exists>n \<le> work ip r (f 0). \<nexists>s'. replay_step ip r (f n) s'"
proof (rule ccontr)
  assume "\<not> ?thesis"
  then have go: "replay_step ip r (f i) (f (Suc i))" if "i \<le> work ip r (f 0)" for i
    using assms(2) that unfolding replay_run_def by blast
  have "work ip r (f i) + i \<le> work ip r (f 0)" if "i \<le> work ip r (f 0) + 1" for i
    using that
  proof (induction i)
    case (Suc i)
    then show ?case using replay_decreases [OF _ go [of i]] run_steps [OF assms, of i] by force
  qed simp
  from this [of "work ip r (f 0) + 1"] show False by simp
qed

lemma run_completes:
  assumes "running ip (NewReplayer cfg None) (f 0)" and "replay_run ip (NewReplayer cfg None) f"
    and "snd (st_queue (f 0))" and "\<not> st_cancelled (f 0)"
  shows "\<exists>n. st_disp (f n) = DEnd \<and> (\<forall>k \<in> set (st_keys (f n)). st_worker (f n) k = WGone) \<and> st_queue (f n) = ([], True)
    \<and> mset (st_ended (f n)) = mset (st_taken (f 0) @ fst (st_queue (f 0)))
    \<and> (\<forall>c. filter (\<lambda>e. Conn e = c) (st_ended (f n)) = filter (\<lambda>e. Conn e = c) (st_taken (f 0) @ fst (st_queue (f 0))))"
proof -
  let ?r = "NewReplayer cfg None"
  obtain n where n: "\<nexists>s'. replay_step ip ?r (f n) s'" using run_stops [OF assms(1,2)] by blast
  note st = run_steps [OF assms(1,2), of n]
  then have run: "running ip ?r (f n)" and nc: "\<not> st_cancelled (f n)" using assms(4) by simp_all
  have e: "st_disp (f n) = DEnd" using replay_progress [OF run _ _ _ _] n st assms(3) by auto
  note all = ended_all [OF run e nc]
  have taken: "st_taken (f n) = st_taken (f 0) @ fst (st_queue (f 0))" using st all(2) by simp
  show ?thesis
    using e lifecycleD(3) [OF running_lifecycle [OF run] e] all(2) same_per_key [OF all(1)] unfolding taken by blast
qed


lemma run_exists: "\<exists>f. replay_run ip r f \<and> f 0 = s"
proof -
  define nxt where "nxt t = (if \<exists>t'. replay_step ip r t t' then SOME t'. replay_step ip r t t' else t)" for t
  have "replay_step ip r t (nxt t) \<or> (\<nexists>t'. replay_step ip r t t') \<and> nxt t = t" for t
    unfolding nxt_def by (auto intro: someI)
  then have "replay_run ip r (\<lambda>i. (nxt ^^ i) s)" by (simp add: replay_run_def)
  then show ?thesis by (intro exI [of _ "\<lambda>i. (nxt ^^ i) s"]) simp
qed




section \<open>Back-pressure\<close>

text \<open>
  The dispatcher held by the guard alone: the queue is deeper than its limit, or the last lag
  exceeds the limit on it.
\<close>

definition guard_holds :: "replayer \<Rightarrow> run_state \<Rightarrow> bool" where
  "guard_holds r s \<longleftrightarrow> (case rp_guard r of None \<Rightarrow> False | Some g \<Rightarrow>
     0 < MaxQueueDepth (g_cfg g) \<and> MaxQueueDepth (g_cfg g) < int (length (fst (st_queue s)))
     \<or> 0 < MaxReplayLagSeconds (g_cfg g) \<and> MaxReplayLagSeconds (g_cfg g) < st_lag s)"

lemma guard_holds_held: "guard_holds r s \<Longrightarrow> held r s"
  by (auto simp: guard_holds_def held_def CheckBackpressure_def Let_def split: option.splits)

lemma guard_holds_longer:
  "guard_holds r s \<Longrightarrow> st_lag s' = st_lag s \<Longrightarrow> length (fst (st_queue s)) \<le> length (fst (st_queue s')) \<Longrightarrow> guard_holds r s'"
  by (auto simp: guard_holds_def split: option.splits)

definition stalled :: "replayer \<Rightarrow> SQLEvent list \<Rightarrow> run_state \<Rightarrow> bool" where
  "stalled r evs s \<longleftrightarrow> st_cancelled s \<or> st_disp s = DCheck \<and> guard_holds r s \<and> st_taken s = evs"

lemma replay_stalled:
  assumes "stalled r evs s" and "replay_step ip r s s'"
  shows "stalled r evs s'"
proof (cases "st_cancelled s")
  case True
  then show ?thesis using replay_keeps(3) [OF assms(2)] by (simp add: stalled_def)
next
  case False
  then have s: "st_disp s = DCheck" "guard_holds r s" "st_taken s = evs" using assms(1) by (simp_all add: stalled_def)
  have "\<not> dispatch_step ip r s s'"
    using s(1) False guard_holds_held [OF s(2)] by (auto elim: dispatch_step.cases)
  then obtain k where "worker_step r k s s'" using assms(2) by (auto simp: replay_step_def)
  then have "st_disp s' = st_disp s \<and> st_taken s' = st_taken s \<and> st_queue s' = st_queue s \<and> st_lag s' = st_lag s"
    by cases simp_all
  then show ?thesis using s guard_holds_longer [OF s(2)] by (simp add: stalled_def)
qed

lemma outside_stalled:
  assumes "stalled r evs s" and "outside_step cap pol s s'" and "0 < cap"
  shows "stalled r evs s'"
proof (cases "st_cancelled s")
  case True
  from assms(2) show ?thesis by cases (simp_all add: stalled_def True)
next
  case False
  then have s: "st_disp s = DCheck" "guard_holds r s" "st_taken s = evs" using assms(1) by (simp_all add: stalled_def)
  have grow: "length (fst q) \<le> length (fst (snd (aq_Enqueue cap pol e q)))" for e q
    using assms(3) by (cases q) (auto split: OverflowPolicy.splits)
  have close: "length (fst (aq_Close q)) = length (fst q)" for q by (cases q) simp
  from assms(2) show ?thesis
    by cases (use s guard_holds_longer [OF s(2)] grow close in \<open>auto simp: stalled_def\<close>)
qed


definition demo_guard :: Guard where
  "demo_guard = new_guard plain_library (plain_config\<lparr>MaxQueueDepth := 1\<rparr>)"


end
