(* ===== verification/Pipeline.thy ===== *)
theory Pipeline
  imports Processor_Correct Replay_Correct
begin

text \<open>
  The assembled pipeline, \<^verbatim>\<open>src/cmd/pgshadow/pipeline.go\<close>: one producer goroutine drives the stream
  processor, whose kept events go to the queue; the replayer consumes it; a shutdown stops the
  producer, closes the queue, waits for the replayer and closes the pool, each wait bounded by a
  deadline. The queue is the contract of \<^verbatim>\<open>src/pkg/queue/queue.go\<close>. The reassembler is not modelled:
  it calls the processor with any bytes and any closes.
\<close>

section \<open>State\<close>

datatype drain_phase = Serving | Stopping | Flushed | Draining | Joining | PoolClosed

text \<open>
  \<open>ps_sent\<close> counts the calls of \<^verbatim>\<open>Enqueue\<close> that have returned; the processor is inside the next one
  when it is smaller than the number of calls made. \<open>ps_exited\<close> says that \<^verbatim>\<open>producerDone\<close> is closed.
  \<open>ps_ops\<close> records what the reassembler delivered.
\<close>

record pipelineState =
  ps_sp :: StreamProcessor
  ps_sent :: nat
  ps_exited :: bool
  ps_run :: run_state
  ps_phase :: drain_phase
  ps_timedOut :: bool
  ps_ops :: "(ConnID \<times> sp_op) list"

definition startPipeline :: "proto_config \<Rightarrow> filter_config \<Rightarrow> metric_call list option \<Rightarrow> string + pipelineState" where
  "startPipeline pcfg fcfg col = (case NewStreamProcessor pcfg fcfg col of
       Inl err \<Rightarrow> Inl err
     | Inr sp \<Rightarrow> Inr \<lparr>ps_sp = sp, ps_sent = 0, ps_exited = False, ps_run = run_init ([], False),
         ps_phase = Serving, ps_timedOut = False, ps_ops = []\<rparr>)"

definition all_sent :: "pipelineState \<Rightarrow> bool" where
  "all_sent p \<longleftrightarrow> ps_sent p = length (sp_q (ps_sp p))"

section \<open>Steps\<close>

text \<open>
  The processing goroutine is single threaded: it handles the next delivery once every call of
  \<^verbatim>\<open>Enqueue\<close> has returned. It may exit between deliveries, on its context or at the end of the
  capture; a resumed or restarted capture continues on the same processor.
\<close>

inductive producer_step :: "nat \<Rightarrow> OverflowPolicy \<Rightarrow> pipelineState \<Rightarrow> pipelineState \<Rightarrow> bool" for cap pol where
  deliver: "\<not> ps_exited p \<Longrightarrow> all_sent p
    \<Longrightarrow> producer_step cap pol p (p\<lparr>ps_sp := sp_step c op (ps_sp p), ps_ops := ps_ops p @ [(c, op)]\<rparr>)"
| enqueue: "\<not> all_sent p \<Longrightarrow> aq_Enqueue cap pol (sp_q (ps_sp p) ! ps_sent p) (st_queue (ps_run p)) = (Some d, q)
    \<Longrightarrow> producer_step cap pol p (p\<lparr>ps_sent := ps_sent p + 1, ps_run := (ps_run p)\<lparr>st_queue := q\<rparr>\<rparr>)"
| exit: "all_sent p \<Longrightarrow> producer_step cap pol p (p\<lparr>ps_exited := True\<rparr>)"
| restart: "ps_phase p = Serving \<Longrightarrow> ps_exited p \<Longrightarrow> producer_step cap pol p (p\<lparr>ps_exited := False\<rparr>)"

text \<open>
  \<^verbatim>\<open>drainWithin\<close>: the deadline may fire during either wait. The consumer is cancelled after a timeout,
  always awaited, and only then the pool is closed.
\<close>

inductive drain_step :: "pipelineState \<Rightarrow> pipelineState \<Rightarrow> bool" where
  stop_capture: "ps_phase p = Serving \<Longrightarrow> drain_step p (p\<lparr>ps_phase := Stopping\<rparr>)"
| producer_done: "ps_phase p = Stopping \<Longrightarrow> ps_exited p \<Longrightarrow> drain_step p (p\<lparr>ps_phase := Flushed\<rparr>)"
| producer_timeout: "ps_phase p = Stopping \<Longrightarrow> drain_step p (p\<lparr>ps_phase := Flushed, ps_timedOut := True\<rparr>)"
| close_queue: "ps_phase p = Flushed
    \<Longrightarrow> drain_step p (p\<lparr>ps_phase := Draining, ps_run := (ps_run p)\<lparr>st_queue := aq_Close (st_queue (ps_run p))\<rparr>\<rparr>)"
| consumer_done: "ps_phase p = Draining \<Longrightarrow> st_disp (ps_run p) = DEnd
    \<Longrightarrow> drain_step p (p\<lparr>ps_phase := Joining,
      ps_run := (ps_run p)\<lparr>st_cancelled := st_cancelled (ps_run p) \<or> ps_timedOut p\<rparr>\<rparr>)"
| consumer_timeout: "ps_phase p = Draining
    \<Longrightarrow> drain_step p (p\<lparr>ps_phase := Joining, ps_timedOut := True, ps_run := (ps_run p)\<lparr>st_cancelled := True\<rparr>\<rparr>)"
| close_pool: "ps_phase p = Joining \<Longrightarrow> st_disp (ps_run p) = DEnd
    \<Longrightarrow> drain_step p (p\<lparr>ps_phase := PoolClosed, ps_run := (ps_run p)\<lparr>st_cancelled := True\<rparr>\<rparr>)"

inductive_cases producer_stepE: "producer_step cap pol p p'"
inductive_cases drain_stepE: "drain_step p p'"

inductive pipeline :: "(addr \<Rightarrow> string) \<Rightarrow> replayer \<Rightarrow> nat \<Rightarrow> OverflowPolicy \<Rightarrow> pipelineState \<Rightarrow> pipelineState \<Rightarrow> bool"
  for ip r cap pol p0 where
  started: "pipeline ip r cap pol p0 p0"
| producer: "pipeline ip r cap pol p0 p \<Longrightarrow> producer_step cap pol p p' \<Longrightarrow> pipeline ip r cap pol p0 p'"
| consumer: "pipeline ip r cap pol p0 p \<Longrightarrow> replay_step ip r (ps_run p) s \<Longrightarrow> pipeline ip r cap pol p0 (p\<lparr>ps_run := s\<rparr>)"
| drain: "pipeline ip r cap pol p0 p \<Longrightarrow> drain_step p p' \<Longrightarrow> pipeline ip r cap pol p0 p'"

section \<open>Invariants\<close>

lemma startPipeline_fields:
  assumes "startPipeline pcfg fcfg col = Inr p"
  shows "NewStreamProcessor pcfg fcfg col = Inr (ps_sp p)" "ps_sent p = 0" "\<not> ps_exited p"
    "ps_run p = run_init ([], False)" "ps_phase p = Serving" "\<not> ps_timedOut p" "ps_ops p = []"
  using assms by (auto simp: startPipeline_def split: sum.splits)

lemma sp_step_grows: "\<exists>qs. sp_q (sp_step c op sp) = sp_q sp @ qs"
proof -
  have "sp = add_q (sp_q sp) (sp\<lparr>sp_q := []\<rparr>)" by (simp add: add_q_def)
  then have "sp_step c op sp = add_q (sp_q sp) (sp_step c op (sp\<lparr>sp_q := []\<rparr>))"
    using appends_step [of c op] unfolding appends_def by metis
  then show ?thesis by (simp add: add_q_def)
qed

text \<open>The replayer's part of the pipeline is a run of the replayer.\<close>

lemma pipeline_running:
  assumes "pipeline ip r cap pol p0 p" and "ps_run p0 = run_init ([], False)"
  shows "running ip r (ps_run p)"
  using assms(1)
proof (induction rule: pipeline.induct)
  case started
  then show ?case using assms(2) running.start by simp
next
  case (producer p p')
  from producer.hyps(2) producer.IH show ?case
  proof cases
    case (enqueue d q)
    then show ?thesis
      using running.outside [OF producer.IH outside_step.produce [of cap pol "ps_run p" "sp_q (ps_sp p) ! ps_sent p"]] by simp
  qed simp_all
next
  case (consumer p s)
  then show ?case by (simp add: running.replay)
next
  case (drain p p')
  have cancel: "running ip r ((ps_run p)\<lparr>st_cancelled := st_cancelled (ps_run p) \<or> b\<rparr>)" for b
    using running.outside [OF drain.IH outside_step.cancel] drain.IH by (cases b) simp_all
  from drain.hyps(2) drain.IH show ?case
  proof cases
    case close_queue
    then show ?thesis using running.outside [OF drain.IH outside_step.close_queue] by simp
  qed (use cancel [of True] cancel [of "ps_timedOut p"] in simp_all)
qed


text \<open>What the phases say of the producer, the queue and the replayer.\<close>

definition replayed_all :: "(addr \<Rightarrow> string) \<Rightarrow> replayer \<Rightarrow> run_state \<Rightarrow> bool" where
  "replayed_all ip r s \<longleftrightarrow> st_disp s = DEnd \<and> st_queue s = ([], True)
     \<and> (\<forall>k. of_key ip r k (st_ended s) = of_key ip r k (st_taken s))"

definition phased :: "(addr \<Rightarrow> string) \<Rightarrow> replayer \<Rightarrow> pipelineState \<Rightarrow> bool" where
  "phased ip r p \<longleftrightarrow> (ps_exited p \<longrightarrow> all_sent p)
     \<and> (ps_phase p \<in> {Serving, Stopping, Flushed} \<longrightarrow> \<not> snd (st_queue (ps_run p)))
     \<and> (ps_phase p \<notin> {Serving, Stopping} \<longrightarrow> ps_timedOut p \<or> ps_exited p)
     \<and> (ps_phase p \<notin> {Joining, PoolClosed} \<longrightarrow> \<not> st_cancelled (ps_run p))
     \<and> (ps_phase p = PoolClosed \<longrightarrow> st_disp (ps_run p) = DEnd)
     \<and> (ps_phase p \<in> {Joining, PoolClosed} \<longrightarrow> ps_timedOut p \<or> replayed_all ip r (ps_run p))"

lemma phasedD:
  assumes "phased ip r p"
  shows "ps_exited p \<Longrightarrow> all_sent p"
    "ps_phase p \<in> {Serving, Stopping, Flushed} \<Longrightarrow> \<not> snd (st_queue (ps_run p))"
    "ps_phase p \<notin> {Serving, Stopping} \<Longrightarrow> ps_timedOut p \<or> ps_exited p"
    "ps_phase p \<notin> {Joining, PoolClosed} \<Longrightarrow> \<not> st_cancelled (ps_run p)"
    "ps_phase p = PoolClosed \<Longrightarrow> st_disp (ps_run p) = DEnd"
    "ps_phase p \<in> {Joining, PoolClosed} \<Longrightarrow> ps_timedOut p \<or> replayed_all ip r (ps_run p)"
  using assms unfolding phased_def by blast+

lemma ended_still:
  assumes "running ip r s" and "st_disp s = DEnd"
  shows "\<not> replay_step ip r s s'"
proof -
  have "st_worker s k = WGone" if "k \<in> set (st_keys s)" for k
    using lifecycleD(3) [OF running_lifecycle [OF assms(1)] assms(2) that] .
  then have "\<not> worker_step r k s s'" if "k \<in> set (st_keys s)" for k
    using that by (auto elim!: worker_step.cases)
  moreover have "\<not> dispatch_step ip r s s'" using assms(2) by (auto elim!: dispatch_step.cases)
  ultimately show ?thesis by (auto simp: replay_step_def)
qed

lemma aq_Enqueue_closed: "aq_Enqueue cap pol e q = (d, q') \<Longrightarrow> snd q' = snd q"
  by (cases q; cases pol) (auto split: if_splits)

lemma snd_aq_Close: "snd (aq_Close q)"
  by (cases q) simp

lemma producer_phased:
  assumes "phased ip r p" and "producer_step cap pol p p'"
  shows "phased ip r p'"
  using assms(2)
proof cases
  note ph = phasedD [OF assms(1)]
  case (enqueue d q)
  have "\<not> ps_exited p" using ph(1) enqueue(2) by blast
  then have "ps_phase p \<notin> {Serving, Stopping} \<Longrightarrow> ps_timedOut p" using ph(3) by blast
  then show ?thesis
    using ph(2,4,5) aq_Enqueue_closed [OF enqueue(3)] \<open>\<not> ps_exited p\<close> enqueue(1)
    by (simp add: phased_def)
qed (use assms(1) in \<open>simp_all add: phased_def all_sent_def\<close>)

lemma drain_phased:
  assumes "phased ip r p" and "running ip r (ps_run p)" and "drain_step p p'"
  shows "phased ip r p'"
  using assms(3)
proof cases
  note ph = phasedD [OF assms(1)]
  case consumer_done
  then have "replayed_all ip r (ps_run p)"
    using ended_all [OF assms(2)] ph(4) by (simp add: replayed_all_def)
  then show ?thesis using assms(1) consumer_done by (simp add: phased_def all_sent_def replayed_all_def)
qed (use assms(1) in \<open>simp_all add: phased_def all_sent_def replayed_all_def\<close>)

lemma pipeline_phased:
  assumes "pipeline ip r cap pol p0 p" and "startPipeline pcfg fcfg col = Inr p0"
  shows "phased ip r p"
  using assms(1)
proof (induction rule: pipeline.induct)
  case started
  then show ?case using startPipeline_fields [OF assms(2)] by (simp add: phased_def run_init_def)
next
  case (producer p p')
  then show ?case using producer_phased by blast
next
  case (consumer p s)
  note run = pipeline_running [OF consumer.hyps(1) startPipeline_fields(4) [OF assms(2)]]
  have "st_disp (ps_run p) \<noteq> DEnd" using ended_still [OF run] consumer.hyps(2) by blast
  then show ?case
    using consumer.IH replay_keeps(2,3) [OF consumer.hyps(2)] by (simp add: phased_def all_sent_def replayed_all_def)
next
  case (drain p p')
  then show ?case using drain_phased pipeline_running startPipeline_fields(4) [OF assms(2)] by blast
qed

text \<open>
  Events reach the replayer in the order the processor offered them, and all of them where the queue
  cannot overflow and the drain is not cut short.
\<close>

definition lossless :: "nat \<Rightarrow> OverflowPolicy \<Rightarrow> pipelineState \<Rightarrow> bool" where
  "lossless cap pol p \<longleftrightarrow> \<not> ps_timedOut p \<and> (pol = Block \<or> length (sp_q (ps_sp p)) \<le> cap)"

definition flowing :: "nat \<Rightarrow> OverflowPolicy \<Rightarrow> pipelineState \<Rightarrow> pipelineState \<Rightarrow> bool" where
  "flowing cap pol p0 p \<longleftrightarrow> ps_sp p = sp_run (ps_ops p) (ps_sp p0) \<and> ps_sent p \<le> length (sp_q (ps_sp p))
     \<and> subseq (st_taken (ps_run p) @ fst (st_queue (ps_run p))) (take (ps_sent p) (sp_q (ps_sp p)))
     \<and> (lossless cap pol p \<longrightarrow>
          st_taken (ps_run p) @ fst (st_queue (ps_run p)) = take (ps_sent p) (sp_q (ps_sp p)))"

lemma aq_Enqueue_subseq:
  assumes "aq_Enqueue cap pol e q = (Some d, q')"
  shows "subseq (fst q') (fst q @ [e])" and "\<not> snd q \<Longrightarrow> pol = Block \<or> length (fst q) < cap \<Longrightarrow> fst q' = fst q @ [e]"
proof -
  obtain xs cl where q: "q = (xs, cl)" by (cases q)
  have "subseq (tl xs @ [e]) (xs @ [e])" by (simp add: list_emb_append_mono suffix_imp_subseq)
  moreover have "subseq xs (xs @ [e])" by (rule prefix_imp_subseq) simp
  ultimately show "subseq (fst q') (fst q @ [e])" using assms by (auto simp: q split: if_splits OverflowPolicy.splits)
  show "\<not> snd q \<Longrightarrow> pol = Block \<or> length (fst q) < cap \<Longrightarrow> fst q' = fst q @ [e]"
    using assms by (auto simp: q split: if_splits OverflowPolicy.splits)
qed

lemma flowingD:
  assumes "flowing cap pol p0 p"
  shows "ps_sp p = sp_run (ps_ops p) (ps_sp p0)" "ps_sent p \<le> length (sp_q (ps_sp p))"
    "subseq (st_taken (ps_run p) @ fst (st_queue (ps_run p))) (take (ps_sent p) (sp_q (ps_sp p)))"
    "lossless cap pol p \<Longrightarrow> st_taken (ps_run p) @ fst (st_queue (ps_run p)) = take (ps_sent p) (sp_q (ps_sp p))"
  using assms unfolding flowing_def by blast+

lemma enqueue_flows:
  assumes "flowing cap pol p0 p" and "phased ip r p" and "\<not> all_sent p"
    and "aq_Enqueue cap pol (sp_q (ps_sp p) ! ps_sent p) (st_queue (ps_run p)) = (Some d, q)"
  shows "flowing cap pol p0 (p\<lparr>ps_sent := ps_sent p + 1, ps_run := (ps_run p)\<lparr>st_queue := q\<rparr>\<rparr>)"
proof -
  let ?q = "st_queue (ps_run p)" and ?t = "st_taken (ps_run p)" and ?evs = "sp_q (ps_sp p)"
  note flow = flowingD [OF assms(1)]
  have lt: "ps_sent p < length ?evs" using flow(2) assms(3) by (simp add: all_sent_def)
  then have next_one: "take (ps_sent p + 1) ?evs = take (ps_sent p) ?evs @ [?evs ! ps_sent p]"
    by (simp add: take_Suc_conv_app_nth)
  note enq = aq_Enqueue_subseq [OF assms(4)]
  have "subseq (?t @ fst q) (?t @ fst ?q @ [?evs ! ps_sent p])" using enq(1) by (simp add: list_emb_append_mono)
  also have "subseq \<dots> (take (ps_sent p) ?evs @ [?evs ! ps_sent p])"
    using list_emb_append_mono [OF flow(3), of "[?evs ! ps_sent p]"] by simp
  finally have order: "subseq (?t @ fst q) (take (ps_sent p + 1) ?evs)" unfolding next_one .
  have all: "?t @ fst q = take (ps_sent p + 1) ?evs" if "lossless cap pol p"
  proof -
    have same: "?t @ fst ?q = take (ps_sent p) ?evs" using flow(4) [OF that] .
    have "length (fst ?q) \<le> ps_sent p" using arg_cong [OF same, of length] lt by simp
    moreover have "\<not> snd ?q" using assms(2,3) that by (auto simp: phased_def lossless_def)
    ultimately show ?thesis using enq(2) that lt same unfolding next_one by (auto simp: lossless_def)
  qed
  show ?thesis unfolding flowing_def using flow(1) lt order all by (simp add: lossless_def)
qed

lemma deliver_flows:
  assumes "flowing cap pol p0 p" and "all_sent p"
  shows "flowing cap pol p0 (p\<lparr>ps_sp := sp_step c op (ps_sp p), ps_ops := ps_ops p @ [(c, op)]\<rparr>)"
proof -
  note flow = flowingD [OF assms(1)]
  obtain qs where grow: "sp_q (sp_step c op (ps_sp p)) = sp_q (ps_sp p) @ qs" using sp_step_grows by blast
  have "sp_run (ps_ops p @ [(c, op)]) (ps_sp p0) = sp_step c op (ps_sp p)" by (simp add: sp_run_def flow(1))
  moreover have "take (ps_sent p) (sp_q (ps_sp p) @ qs) = take (ps_sent p) (sp_q (ps_sp p))" using flow(2) by simp
  ultimately show ?thesis
    unfolding flowing_def using flow(2,3,4) grow by (auto simp: lossless_def)
qed

lemma flowing_same:
  assumes "flowing cap pol p0 p" and "ps_sp p' = ps_sp p" "ps_sent p' = ps_sent p" "ps_ops p' = ps_ops p"
    and "st_taken (ps_run p') @ fst (st_queue (ps_run p')) = st_taken (ps_run p) @ fst (st_queue (ps_run p))"
    and "ps_timedOut p \<Longrightarrow> ps_timedOut p'"
  shows "flowing cap pol p0 p'"
  using assms unfolding flowing_def lossless_def by auto

lemma pipeline_flows:
  assumes "pipeline ip r cap pol p0 p" and "startPipeline pcfg fcfg col = Inr p0"
  shows "flowing cap pol p0 p"
  using assms(1)
proof (induction rule: pipeline.induct)
  case started
  note new = startPipeline_fields [OF assms(2)]
  show ?case unfolding flowing_def using new(2,4,7) by (simp add: sp_run_def run_init_def)
next
  case (producer p p')
  from producer.hyps(2) show ?case
  proof cases
    case deliver
    then show ?thesis using deliver_flows [OF producer.IH] by simp
  next
    case enqueue
    then show ?thesis using enqueue_flows [OF producer.IH pipeline_phased [OF producer.hyps(1) assms(2)]] by simp
  qed (rule flowing_same [OF producer.IH]; simp)+
next
  case (consumer p s)
  then show ?case using replay_keeps(1) by (intro flowing_same [OF consumer.IH]) simp_all
next
  case (drain p p')
  have "fst (aq_Close q) = fst q" for q by (cases q) simp
  with drain.hyps(2) show ?case by cases (rule flowing_same [OF drain.IH]; simp)+
qed

section \<open>A shutdown that completes\<close>

text \<open>Where the queue has room, the producer can put every event of its deliveries into it.\<close>

lemma enqueue_rest:
  assumes "pipeline ip r cap pol p0 p" and "ps_run p = run_init (take (ps_sent p) (sp_q (ps_sp p)), False)"
    and "ps_sent p \<le> length (sp_q (ps_sp p))" and "length (sp_q (ps_sp p)) \<le> cap"
  shows "pipeline ip r cap pol p0 (p\<lparr>ps_sent := length (sp_q (ps_sp p)), ps_run := run_init (sp_q (ps_sp p), False)\<rparr>)"
  using assms
proof (induction "length (sp_q (ps_sp p)) - ps_sent p" arbitrary: p)
  case 0
  then have "p\<lparr>ps_sent := length (sp_q (ps_sp p)), ps_run := run_init (sp_q (ps_sp p), False)\<rparr> = p"
    by (cases p) simp
  with 0(2) show ?case by (simp only:)
next
  case (Suc n)
  let ?evs = "sp_q (ps_sp p)"
  let ?p = "p\<lparr>ps_sent := ps_sent p + 1, ps_run := (ps_run p)\<lparr>st_queue := (take (ps_sent p) ?evs @ [?evs ! ps_sent p], False)\<rparr>\<rparr>"
  have lt: "ps_sent p < length ?evs" using Suc(2) by simp
  have "producer_step cap pol p ?p"
    by (rule producer_step.enqueue [where d = False]) (use lt Suc(4,6) in \<open>simp_all add: all_sent_def run_init_def\<close>)
  from pipeline.producer [OF Suc(3) this] have step: "pipeline ip r cap pol p0 ?p" .
  have "ps_run ?p = run_init (take (ps_sent p + 1) ?evs, False)"
    using lt by (simp add: Suc(4) run_init_def take_Suc_conv_app_nth)
  with Suc(1) [OF _ step] Suc(2,6) lt show ?case by simp
qed

lemma deliver_all:
  assumes "startPipeline pcfg fcfg col = Inr p0" and "length (sp_q (sp_run ops (ps_sp p0))) \<le> cap"
  shows "pipeline ip r cap pol p0 (p0\<lparr>ps_sp := sp_run ops (ps_sp p0), ps_sent := length (sp_q (sp_run ops (ps_sp p0))),
    ps_run := run_init (sp_q (sp_run ops (ps_sp p0)), False), ps_ops := ops\<rparr>)"
  using assms(2)
proof (induction ops rule: rev_induct)
  case Nil
  have "sp_q (ps_sp p0) = []" using new_processor [OF startPipeline_fields(1) [OF assms(1)]] by simp
  then have "p0\<lparr>ps_sp := sp_run [] (ps_sp p0), ps_sent := length (sp_q (sp_run [] (ps_sp p0))),
    ps_run := run_init (sp_q (sp_run [] (ps_sp p0)), False), ps_ops := []\<rparr> = p0"
    using startPipeline_fields [OF assms(1)] by (cases p0) (simp add: sp_run_def)
  then show ?case using pipeline.started by simp
next
  case (snoc x ops)
  obtain c op where x: "x = (c, op)" by (cases x)
  have run: "sp_run (ops @ [(c, op)]) sp = sp_step c op (sp_run ops sp)" for sp by (simp add: sp_run_def)
  obtain qs where qs: "sp_q (sp_step c op sp) = sp_q sp @ qs sp" for sp using sp_step_grows by metis
  let ?p = "p0\<lparr>ps_sp := sp_run ops (ps_sp p0), ps_sent := length (sp_q (sp_run ops (ps_sp p0))),
    ps_run := run_init (sp_q (sp_run ops (ps_sp p0)), False), ps_ops := ops\<rparr>"
  have "pipeline ip r cap pol p0 ?p" using snoc by (simp add: run qs x)
  moreover have "producer_step cap pol ?p (?p\<lparr>ps_sp := sp_step c op (ps_sp ?p), ps_ops := ps_ops ?p @ [(c, op)]\<rparr>)"
    by (rule producer_step.deliver) (simp_all add: all_sent_def startPipeline_fields(3) [OF assms(1)])
  ultimately have "pipeline ip r cap pol p0 (?p\<lparr>ps_sp := sp_step c op (ps_sp ?p), ps_ops := ps_ops ?p @ [(c, op)]\<rparr>)"
    by (rule pipeline.producer)
  from enqueue_rest [OF this] snoc.prems show ?case by (cases p0) (simp add: run x qs)
qed

lemma pipeline_replay:
  assumes "pipeline ip r cap pol p0 p" and "replay_run ip r f" and "f 0 = ps_run p"
  shows "pipeline ip r cap pol p0 (p\<lparr>ps_run := f n\<rparr>)"
proof (induction n)
  case 0
  show ?case using assms(1,3) by simp
next
  case (Suc n)
  from assms(2) consider "replay_step ip r (f n) (f (Suc n))" | "f (Suc n) = f n" unfolding replay_run_def by blast
  then show ?case
  proof cases
    case 1
    show ?thesis using pipeline.consumer [OF Suc, of "f (Suc n)"] 1 by simp
  qed (use Suc in simp)
qed

text \<open>With nothing left to enqueue and no guard, a shutdown can run to its end without a timeout.\<close>

lemma shutdown_completes:
  assumes "startPipeline pcfg fcfg col = Inr p0" and "pipeline ip (NewReplayer cfg None) cap pol p0 p"
    and "ps_phase p = Serving" and "all_sent p" and "\<not> ps_timedOut p"
  shows "\<exists>p'. pipeline ip (NewReplayer cfg None) cap pol p0 p' \<and> ps_phase p' = PoolClosed \<and> \<not> ps_timedOut p'
    \<and> ps_sp p' = ps_sp p \<and> ps_ops p' = ps_ops p"
proof -
  let ?r = "NewReplayer cfg None"
  define p1 where "p1 = p\<lparr>ps_exited := True, ps_phase := Stopping\<rparr>"
  define p2 where "p2 = p1\<lparr>ps_phase := Draining, ps_run := (ps_run p1)\<lparr>st_queue := aq_Close (st_queue (ps_run p1))\<rparr>\<rparr>"
  have "pipeline ip ?r cap pol p0 (p\<lparr>ps_exited := True\<rparr>)"
    by (rule pipeline.producer [OF assms(2) producer_step.exit [OF assms(4)]])
  from pipeline.drain [OF this stop_capture] have 1: "pipeline ip ?r cap pol p0 p1" using assms(3) by (simp add: p1_def)
  from pipeline.drain [OF 1 producer_done] have "pipeline ip ?r cap pol p0 (p1\<lparr>ps_phase := Flushed\<rparr>)" by (simp add: p1_def)
  from pipeline.drain [OF this close_queue] have 2: "pipeline ip ?r cap pol p0 p2" by (simp add: p2_def)
  obtain f where f: "replay_run ip ?r f" "f 0 = ps_run p2" using run_exists by blast
  have "running ip ?r (f 0)" using pipeline_running [OF 2 startPipeline_fields(4) [OF assms(1)]] f(2) by simp
  moreover have "\<not> st_cancelled (f 0)"
    using phasedD(4) [OF pipeline_phased [OF 2 assms(1)]] by (simp add: f(2)) (simp add: p2_def)
  ultimately obtain n where n: "st_disp (f n) = DEnd"
    using run_completes [OF _ f(1)] snd_aq_Close by (auto simp: f(2) p2_def)
  define p3 where "p3 = p2\<lparr>ps_phase := Joining, ps_run := (f n)\<lparr>st_cancelled := st_cancelled (f n) \<or> ps_timedOut p2\<rparr>\<rparr>"
  have 3: "pipeline ip ?r cap pol p0 p3"
    using pipeline.drain [OF pipeline_replay [OF 2 f, of n] consumer_done] n by (simp add: p2_def p3_def)
  have "pipeline ip ?r cap pol p0 (p3\<lparr>ps_phase := PoolClosed, ps_run := (ps_run p3)\<lparr>st_cancelled := True\<rparr>\<rparr>)"
    by (rule pipeline.drain [OF 3 close_pool]) (simp_all add: p3_def n)
  moreover have "\<not> ps_timedOut p3" "ps_sp p3 = ps_sp p" "ps_ops p3 = ps_ops p"
    by (simp_all add: p1_def p2_def p3_def assms(5))
  ultimately show ?thesis by (intro exI conjI) (assumption, simp_all)
qed

section \<open>Pausing and restarting the capture\<close>

text \<open>
  \<^verbatim>\<open>pauseCapture\<close>, \<^verbatim>\<open>resumeCapture\<close> and \<^verbatim>\<open>restartCapture\<close> run under one mutex. \<open>cc_current\<close> says whether
  the producer behind \<^verbatim>\<open>prodCancel\<close> and \<^verbatim>\<open>producerDone\<close> runs, \<open>cc_live\<close> counts all producers that run. Stopping
  cancels the current producer and waits for it. Whether \<^verbatim>\<open>capture.Open\<close> succeeds is an argument.
\<close>

record capture_control =
  cc_paused :: bool
  cc_current :: bool
  cc_live :: nat

definition stop_producer :: "capture_control \<Rightarrow> capture_control" where
  "stop_producer p = p\<lparr>cc_live := (if cc_current p then cc_live p - 1 else cc_live p), cc_current := False\<rparr>"

definition start_producer :: "capture_control \<Rightarrow> capture_control" where
  "start_producer p = p\<lparr>cc_current := True, cc_live := cc_live p + 1\<rparr>"

definition pauseCapture :: "capture_control \<Rightarrow> capture_control" where
  "pauseCapture p = (if cc_paused p then p else (stop_producer p)\<lparr>cc_paused := True\<rparr>)"

definition resumeCapture :: "bool \<Rightarrow> capture_control \<Rightarrow> bool \<times> capture_control" where
  "resumeCapture opened p =
     (if \<not> cc_paused p then (True, p)
      else if \<not> opened then (False, p)
      else (True, (start_producer p)\<lparr>cc_paused := False\<rparr>))"

definition restartCapture :: "bool \<Rightarrow> bool \<Rightarrow> capture_control \<Rightarrow> capture_control" where
  "restartCapture ebpf opened p =
     (if ebpf then p
      else let p = stop_producer p in if \<not> opened then p else start_producer p)"

datatype control_op = Pause | Resume bool | Restart bool bool

fun control_step :: "control_op \<Rightarrow> capture_control \<Rightarrow> capture_control" where
  "control_step Pause p = pauseCapture p"
| "control_step (Resume opened) p = snd (resumeCapture opened p)"
| "control_step (Restart ebpf opened) p = restartCapture ebpf opened p"

text \<open>At most one producer, and none while paused.\<close>

definition one_producer :: "capture_control \<Rightarrow> bool" where
  "one_producer p \<longleftrightarrow> cc_live p = of_bool (cc_current p) \<and> (cc_paused p \<longrightarrow> \<not> cc_current p)"

lemma control_one_producer:
  "one_producer p \<Longrightarrow> \<not> (cc_paused p \<and> (\<exists>opened. op = Restart False opened)) \<Longrightarrow> one_producer (control_step op p)"
  by (cases op) (auto simp: one_producer_def pauseCapture_def resumeCapture_def restartCapture_def stop_producer_def
      start_producer_def Let_def)

text \<open>
  A failover while paused restarts the capture, and the next resume adds a second producer on the
  same processor, which has no lock.
\<close>

lemma paused_restart_doubles:
  "let p = control_step (Restart False True) (control_step Pause \<lparr>cc_paused = False, cc_current = True, cc_live = 1\<rparr>)
   in cc_paused p \<and> cc_live p = 1 \<and> cc_live (control_step (Resume True) p) = 2"
  by (simp add: pauseCapture_def resumeCapture_def restartCapture_def stop_producer_def start_producer_def Let_def)

section \<open>The failover detector\<close>

text \<open>
  \<^verbatim>\<open>src/internal/monitor/monitor.go\<close>: a tick of the loop resolves the host, empty where that fails, and
  restarts the capture when the address changed.
\<close>

record FailoverDetector =
  fd_currentIP :: string

definition fd_Start :: "string \<Rightarrow> FailoverDetector" where
  "fd_Start resolved = \<lparr>fd_currentIP = resolved\<rparr>"

definition monitor_tick :: "string \<Rightarrow> FailoverDetector \<Rightarrow> (string \<times> string) option \<times> FailoverDetector" where
  "monitor_tick newIP fd =
     (let oldIP = fd_currentIP fd in
      if newIP \<noteq> [] \<and> newIP \<noteq> oldIP then (Some (oldIP, newIP), fd\<lparr>fd_currentIP := newIP\<rparr>) else (None, fd))"

definition failover_tick :: "bool \<Rightarrow> string \<Rightarrow> bool \<Rightarrow> FailoverDetector \<times> capture_control \<Rightarrow> FailoverDetector \<times> capture_control" where
  "failover_tick ebpf newIP opened s = (case monitor_tick newIP (fst s) of
       (None, fd) \<Rightarrow> (fd, snd s)
     | (Some _, fd) \<Rightarrow> (fd, restartCapture ebpf opened (snd s)))"

text \<open>
  A restart that could not open the capture is not tried again while the address stays: no later
  tick, whatever it could open, brings a producer back.
\<close>

lemma failed_restart_stays:
  assumes "newIP \<noteq> []" and "newIP \<noteq> fd_currentIP fd" and "\<forall>(ip, opened) \<in> set ticks. ip \<in> {newIP, []}"
  shows "\<not> cc_current (snd (fold (\<lambda>(ip, opened). failover_tick False ip opened) ticks (failover_tick False newIP False (fd, cc))))"
proof -
  have same: "fold (\<lambda>(ip, opened). failover_tick False ip opened) ticks (fd, cc) = (fd, cc)"
    if "fd_currentIP fd = newIP" "\<forall>(ip, opened) \<in> set ticks. ip \<in> {newIP, []}" for ticks fd cc
    using that(2) by (induction ticks) (auto simp: failover_tick_def monitor_tick_def that(1))
  show ?thesis
    using assms same [OF _ assms(3)]
    by (simp add: failover_tick_def monitor_tick_def restartCapture_def stop_producer_def)
qed

end
