(* ===== verification/Control_Plane.thy ===== *)
theory Control_Plane
  imports Pipeline
begin

text \<open>
  The control server, \<^verbatim>\<open>src/internal/control/control.go\<close>, with the callbacks \<^verbatim>\<open>src/cmd/pgshadow/main.go\<close> gives it.
  A handler sets the state under the mutex and calls back outside it; the callbacks exclude each
  other. HTTP routing and the JSON body are not modelled, the status code is.
\<close>

datatype control_State = StateActive | StatePaused

record Server =
  sv_state :: control_State
  sv_capture :: capture_control

text \<open>The critical section of a handler: the state before it decides whether it calls back.\<close>

definition enter_state :: "control_State \<Rightarrow> Server \<Rightarrow> bool \<times> Server" where
  "enter_state st s = (sv_state s \<noteq> st, s\<lparr>sv_state := st\<rparr>)"

definition OnActivate :: "bool \<Rightarrow> Server \<Rightarrow> bool \<times> Server" where
  "OnActivate opened s = (case resumeCapture opened (sv_capture s) of (ok, p) \<Rightarrow> (ok, s\<lparr>sv_capture := p\<rparr>))"

definition OnPause :: "Server \<Rightarrow> Server" where
  "OnPause s = s\<lparr>sv_capture := pauseCapture (sv_capture s)\<rparr>"

text \<open>A request handled without another one in between. The callbacks' pause never fails.\<close>

definition handleActivate :: "bool \<Rightarrow> bool \<Rightarrow> Server \<Rightarrow> nat \<times> Server" where
  "handleActivate post opened s =
     (if \<not> post then (405, s)
      else case enter_state StateActive s of (call, s) \<Rightarrow>
        if call then (case OnActivate opened s of (ok, s) \<Rightarrow> (if ok then 200 else 500, s)) else (200, s))"

definition handlePause :: "bool \<Rightarrow> Server \<Rightarrow> nat \<times> Server" where
  "handlePause post s =
     (if \<not> post then (405, s)
      else case enter_state StatePaused s of (call, s) \<Rightarrow> (200, if call then OnPause s else s))"

definition handleStatus :: "bool \<Rightarrow> Server \<Rightarrow> nat \<times> control_State option" where
  "handleStatus get s = (if \<not> get then (405, None) else (200, Some (sv_state s)))"

definition New_server :: Server where
  "New_server = \<lparr>sv_state = StateActive, sv_capture = \<lparr>cc_paused = False, cc_current = True, cc_live = 1\<rparr>\<rparr>"

datatype request = Activate bool bool | PauseRequest bool

fun serve :: "request \<Rightarrow> Server \<Rightarrow> Server" where
  "serve (Activate post opened) s = snd (handleActivate post opened s)"
| "serve (PauseRequest post) s = snd (handlePause post s)"

text \<open>
  Handled one after the other and as long as the capture can be reopened, the state reported is
  that of the capture, which has one producer when active and none when paused.
\<close>

definition agrees :: "Server \<Rightarrow> bool" where
  "agrees s \<longleftrightarrow> (case sv_state s of
       StateActive \<Rightarrow> \<not> cc_paused (sv_capture s) \<and> cc_current (sv_capture s) \<and> cc_live (sv_capture s) = 1
     | StatePaused \<Rightarrow> cc_paused (sv_capture s) \<and> \<not> cc_current (sv_capture s) \<and> cc_live (sv_capture s) = 0)"

lemma serve_keeps:
  assumes "agrees s" and "\<And>post. req \<noteq> Activate post False"
  shows "agrees (serve req s)"
proof (cases req)
  case (Activate post opened)
  then have "opened" using assms(2) by (cases opened) auto
  then show ?thesis
    using assms(1) Activate by (cases "sv_state s"; cases post)
      (simp_all add: agrees_def handleActivate_def enter_state_def OnActivate_def resumeCapture_def start_producer_def)
next
  case (PauseRequest post)
  then show ?thesis
    using assms(1) by (cases "sv_state s"; cases post)
      (simp_all add: agrees_def handlePause_def enter_state_def OnPause_def pauseCapture_def stop_producer_def)
qed

lemma serve_agrees: "\<forall>req \<in> set reqs. \<forall>post. req \<noteq> Activate post False \<Longrightarrow> agrees (fold serve reqs New_server)"
proof (induction reqs rule: rev_induct)
  case Nil
  then show ?case by (simp add: agrees_def New_server_def)
next
  case (snoc req reqs)
  then show ?case using serve_keeps by simp
qed

text \<open>
  After an activation that could not reopen the capture, further activations report success and
  leave it paused.
\<close>

lemma failed_activation_sticks:
  assumes "sv_state s = StatePaused" and "cc_paused (sv_capture s)"
  shows "handleActivate True False s = (500, s\<lparr>sv_state := StateActive\<rparr>)
    \<and> handleActivate True opened (s\<lparr>sv_state := StateActive\<rparr>) = (200, s\<lparr>sv_state := StateActive\<rparr>)"
  using assms by (simp add: handleActivate_def enter_state_def OnActivate_def resumeCapture_def)

text \<open>
  A pause that arrives between the two parts of an activation calls back first: the capture ends
  up running while the server reports it as paused.
\<close>

lemma activation_race:
  assumes "sv_state s = StatePaused" and "cc_paused (sv_capture s)"
  shows "let (call, s1) = enter_state StateActive s; (call2, s2) = enter_state StatePaused s1;
      s3 = OnPause s2; (ok, s4) = OnActivate True s3
    in call \<and> call2 \<and> ok \<and> sv_state s4 = StatePaused \<and> \<not> cc_paused (sv_capture s4) \<and> cc_current (sv_capture s4)"
  using assms by (simp add: enter_state_def OnPause_def OnActivate_def pauseCapture_def resumeCapture_def start_producer_def)

end
