(* ===== verification/Spec2Isabelle.thy ===== *)
theory Spec2Isabelle
  imports Kernel_Facts Xdp_Correct Ssl_Correct Ebpf_Source Ring_Buffer File_Queue Kafka_Queue Exec_Chain Conn_Pool Config_Check
    Metrics_Window Pool_Router Capture_Stream Control_Plane Pipeline
begin

text \<open>
  A verification library for pgshadow, a tool that captures the PostgreSQL traffic of a production
  server without touching it and replays a selection of it on a target database.

  \<^bold>\<open>The program.\<close> Packets are mirrored by an XDP program or by uprobes on the SSL library
  (\<^verbatim>\<open>src/pkg/capture/bpf\<close>), read by userspace sources and reassembled into byte streams
  (\<^verbatim>\<open>src/pkg/capture\<close>). One goroutine drives the stream processor (\<^verbatim>\<open>src/pkg/pipeline\<close>): it frames
  messages and builds events (\<^verbatim>\<open>src/pkg/protocol\<close>), classifies statements, tracks transactions and decides
  which to keep (\<^verbatim>\<open>src/pkg/filter\<close>), and puts the kept ones into a queue (\<^verbatim>\<open>src/pkg/queue\<close>). The replayer
  (\<^verbatim>\<open>src/pkg/replayer\<close>) takes them from the queue, routes each to the lane of its connection and executes it
  through a chain of decorators, one of them the replay guard (\<^verbatim>\<open>src/pkg/replayguard\<close>), on a connection
  leased from the pool. \<^verbatim>\<open>src/cmd/pgshadow/pipeline.go\<close> starts, pauses and shuts down the whole.

  \<^bold>\<open>How code becomes definitions.\<close> A struct is a record, an enumeration a datatype, a function that
  changes state a function on records, an error or a panic a value of a sum or option. C integers
  and Go's sized integers are words; \<^verbatim>\<open>int\<close> and times are integers (nanoseconds, 0 the zero
  time), since no claim depends on their overflow; strings are character lists. Definitions keep the
  source's names, with a prefix where two types share a method. Critical sections of a mutex are
  atomic; goroutines are rules of an inductive step relation, and \<open>None\<close> of an operation on a queue or
  lane is the wait on its condition variable. Code outside the repository is an argument: BPF
  helpers, files, regular expressions, the random source, limiter, clock and sleeper, the Kafka
  client, the target. What is relied on of it is a locale or a named assumption.

  \<^bold>\<open>Theories.\<close>
  \<^item> \<open>Prelude\<close>: words, byte encodings, slices, the named collections of simplification rules.
  \<^item> \<open>C_Layout\<close> computes size, alignment and offsets of C types; \<open>Kernel_Net\<close>, \<open>Kernel_Task\<close>, \<open>Kernel_Bpf\<close> and
    \<open>Kernel_Dev\<close> are declarations of \<^verbatim>\<open>vmlinux.h\<close>, and \<open>Kernel_Facts\<close> shows them consistently laid out.
  \<^item> \<open>Bpf_Machine\<close>: memory objects, faults, and the contract of the BPF helpers as the locale \<open>bpf_kernel\<close>;
    \<open>Reference_Kernel\<close> implements it. \<open>Xdp_Program\<close> and \<open>Xdp_Correct\<close>: the program \<^verbatim>\<open>pgshadow_xdp.c\<close> passes every frame
    unchanged, never faults, and mirrors exactly the frames of the port or counts them as dropped.
    \<open>Ssl_Program\<close> and \<open>Ssl_Correct\<close>: the probes of \<^verbatim>\<open>pgshadow_ssl.c\<close> never fault, and a return is paired with its own
    entry.
  \<^item> \<open>Ebpf_Source\<close>: \<^verbatim>\<open>source_ebpf.go\<close> and \<^verbatim>\<open>source_ebpf_ssl.go\<close>, from kernel record to packet. \<open>Capture_Stream\<close>:
    \<^verbatim>\<open>reassembler.go\<close>, which side a byte came from, and \<^verbatim>\<open>source_resilient.go\<close>.
  \<^item> \<open>Core_Types\<close>: \<^verbatim>\<open>core/types.go\<close> and \<open>conn_local\<close>, the contract of state kept per connection. \<open>Framing\<close>, \<open>Messages\<close>,
    \<open>Trackers\<close>: \<^verbatim>\<open>protocol\<close>, that chunking is irrelevant, bytes are conserved, a Bind meets its Parse, transaction
    numbers are unique and COPY data is delivered whole. \<open>Classifier\<close>, \<open>Classifier_Facts\<close>, \<open>Sql_Filter\<close>: \<^verbatim>\<open>filter\<close>,
    and that the filter meets its contract.
  \<^item> \<open>Processor\<close>, \<open>Processor_Local\<close>, \<open>Processor_Correct\<close>: \<^verbatim>\<open>processor.go\<close>; connections do not influence each
    other, and a stream of queries is enqueued as the filter's selection.
  \<^item> \<open>Event_Queue\<close>: the contract of the queue and the locale \<open>queue_backend\<close>; \<open>Ring_Buffer\<close> and \<open>File_Queue\<close> (with
    \<open>Event_Codec\<close>) refine it, the latter over the locale \<open>reliable_file\<close>, so both are interchangeable. \<open>Kafka_Queue\<close>
    does not refine it, its order depends on the writes that fail; it loses nothing uncounted, over the locale
    \<open>kafka_writer\<close>.
  \<^item> \<open>Executors\<close>: \<^verbatim>\<open>exec_decorators.go\<close>, \<^verbatim>\<open>dialect.go\<close> and the calls of \<^verbatim>\<open>replayer_impl.go\<close>; \<open>Replay_Guard\<close>:
    \<^verbatim>\<open>replayguard.go\<close>; \<open>Exec_Chain\<close>: \<^verbatim>\<open>buildExecutor\<close> and what reaches the target.
  \<^item> \<open>Replay_Lanes\<close>: dispatcher and workers of \<^verbatim>\<open>replayer_impl.go\<close> over \<^verbatim>\<open>unbounded_lane.go\<close>; \<open>Replay_Correct\<close>: order,
    caps, that a run ends with everything executed, and when it stalls. \<open>Conn_Pool\<close>: \<^verbatim>\<open>pool.go\<close>, no handle is shared,
    lost or returned twice.
  \<^item> \<open>Pipeline\<close>: \<^verbatim>\<open>pipeline.go\<close> with the producer and the ordered drain, pausing and restarting, and the failover
    detector of \<^verbatim>\<open>monitor.go\<close>; \<open>Control_Plane\<close>: \<^verbatim>\<open>control.go\<close> on top of it. \<open>Config_Check\<close>: \<^verbatim>\<open>config.go\<close>, which configurations
    are accepted. \<open>Metrics_Window\<close>: \<^verbatim>\<open>quantile.go\<close>. \<open>Pool_Router\<close>: \<^verbatim>\<open>router.go\<close>.
  \<^item> This theory: the properties of the whole, from the client's bytes to the statements executed.

  \<^bold>\<open>Termination and bounds.\<close> Every loop is a total function: scanners recurse on the text, the framing
  loop on the buffer, the file queue's skip loop on the record count, the retry loops on the attempts
  left, the Kafka flush on the buffer; none takes fuel. The step relations may run forever while input
  arrives; \<open>Replay_Correct.work\<close> bounds the steps left once the queue is closed. The constants
  are the source's: 4096 bytes of a record, 64 MiB of a frame in the file, 50 undecodable Kafka messages,
  three retries, 30 seconds of pacing, 100000 events in the lanes.

  \<^bold>\<open>Not modelled.\<close> The BPF verifier and map internals beyond the helper contract; loading and attaching
  programs, opening devices, files, sockets and pools; the TCP assembler, whose deliveries are arbitrary
  here; YAML, TLS, SASL and HTTP; Prometheus export and logging, which nothing reads back; code generated
  from the C programs. Cancellation of a blocked dequeue appears in the replayer's relation, not in the
  queues. Floating point values are rationals where only compared, and arguments where computed.
  The relations assume the Go memory model's sequential consistency for code under a mutex.
\<close>

section \<open>The whole pipeline\<close>

lemma subseq_filter: "subseq xs ys \<Longrightarrow> subseq (filter P xs) (filter P ys)"
  by (induction rule: list_emb.induct) auto

lemma sorted_wrt_subseq: "subseq xs ys \<Longrightarrow> sorted_wrt P ys \<Longrightarrow> sorted_wrt P xs"
proof (induction rule: list_emb.induct)
  case (list_emb_Cons2 x y xs ys)
  then show ?case using list_emb_set [OF list_emb_Cons2.hyps(2)] by fastforce
qed auto

text \<open>Of each connection, the executions started are a subsequence of the events the processor offered.\<close>

lemma started_offered:
  assumes "startPipeline pcfg fcfg col = Inr p0" and "pipeline ip r cap pol p0 p"
  shows "subseq (filter (\<lambda>e. Conn e = c) (st_started (ps_run p))) (filter (\<lambda>e. Conn e = c) (sp_q (ps_sp p)))"
proof -
  let ?P = "\<lambda>e. Conn e = c" and ?s = "ps_run p" and ?k = "conn_lane ip r c"
  note run = pipeline_running [OF assms(2) startPipeline_fields(4) [OF assms(1)]]
  have "prefix (filter ?P (of_key ip r ?k (st_started ?s))) (filter ?P (of_key ip r ?k (st_taken ?s)))"
    using running_prefix [OF run, of ?k] by (auto simp: prefix_def)
  then have "subseq (filter ?P (st_started ?s)) (filter ?P (st_taken ?s))" by (simp add: of_key_conn prefix_imp_subseq)
  moreover have "subseq (st_taken ?s) (take (ps_sent p) (sp_q (ps_sp p)))"
    using flowingD(3) [OF pipeline_flows [OF assms(2,1)]] by (rule subseq_order.trans [OF prefix_imp_subseq, rotated]) simp
  moreover have "subseq (take (ps_sent p) (sp_q (ps_sp p))) (sp_q (ps_sp p))" by (simp add: prefix_imp_subseq take_is_prefix)
  ultimately show ?thesis by (meson subseq_filter subseq_order.trans)
qed

text \<open>A drain that met no deadline on a queue that cannot overflow has replayed everything.\<close>

lemma drained_all:
  assumes "startPipeline pcfg fcfg col = Inr p0" and "pipeline ip r cap pol p0 p"
    and "ps_phase p = PoolClosed" and "lossless cap pol p"
  shows "st_taken (ps_run p) = sp_q (ps_sp p)" and "replayed_all ip r (ps_run p)"
proof -
  note ph = phasedD [OF pipeline_phased [OF assms(2,1)]]
  have "\<not> ps_timedOut p" using assms(4) by (simp add: lossless_def)
  then have "all_sent p" and all: "replayed_all ip r (ps_run p)" using ph(1,3,6) assms(3) by auto
  then show "st_taken (ps_run p) = sp_q (ps_sp p)"
    using flowingD(4) [OF pipeline_flows [OF assms(2,1)] assms(4)] by (simp add: all_sent_def replayed_all_def)
  show "replayed_all ip r (ps_run p)" by (fact all)
qed

definition sample_pipeline :: pipelineState where
  "sample_pipeline = (case startPipeline sample_proto sample_config (Some []) of Inr p \<Rightarrow> p)"

lemma sample_pipeline_new: "startPipeline sample_proto sample_config (Some []) = Inr sample_pipeline"
  by (simp add: sample_pipeline_def startPipeline_def sample_processor_new)

lemma sample_pipeline_sp: "ps_sp sample_pipeline = sample_processor"
  using startPipeline_fields(1) [OF sample_pipeline_new] sample_processor_new by simp

lemma sample_shutdown:
  "\<exists>cap p. pipeline ip (NewReplayer cfg None) cap Block sample_pipeline p \<and> ps_phase p = PoolClosed
    \<and> lossless cap Block p \<and> ps_ops p = sample_ops"
proof -
  note new = startPipeline_fields [OF sample_pipeline_new]
  from shutdown_completes [OF sample_pipeline_new deliver_all [OF sample_pipeline_new order.refl], of sample_ops ip cfg Block]
  show ?thesis using new(5,6) by (auto simp: all_sent_def lossless_def)
qed





end
